theory Spec2Isabelle
  imports Main
begin

section \<open>HNSW index access method (hnsw_am.c): constants and errors\<close>

text \<open>
  The C integers of the access method are modelled as \<open>int\<close>; where the source converts
  to \<open>size_t\<close> or narrows to \<open>int16\<close> the wrap-around is written out. Block numbers
  (\<open>uint32\<close>) are \<open>nat\<close>, with the sentinel \<open>InvalidBlockNumber = 0xFFFFFFFF\<close>.
\<close>

definition HNSW_MAX_LEVEL :: int where "HNSW_MAX_LEVEL = 16"
definition HNSW_MIN_M :: int where "HNSW_MIN_M = 2"
definition HNSW_MAX_M :: int where "HNSW_MAX_M = 128"
definition HNSW_MIN_EF_CONSTRUCTION :: int where "HNSW_MIN_EF_CONSTRUCTION = 4"
definition HNSW_MAX_EF_CONSTRUCTION :: int where "HNSW_MAX_EF_CONSTRUCTION = 10000"
definition HNSW_MIN_EF_SEARCH :: int where "HNSW_MIN_EF_SEARCH = 4"
definition HNSW_MAX_EF_SEARCH :: int where "HNSW_MAX_EF_SEARCH = 10000"
definition HNSW_DEFAULT_M :: int where "HNSW_DEFAULT_M = 16"
definition HNSW_DEFAULT_EF_CONSTRUCTION :: int where "HNSW_DEFAULT_EF_CONSTRUCTION = 200"
definition HNSW_DEFAULT_EF_SEARCH :: int where "HNSW_DEFAULT_EF_SEARCH = 64"

text \<open>
  A run of the C code ends in one of three ways besides returning: an
  \<open>ereport(ERROR, ...)\<close>, kept as the SQLSTATE class the source passes to
  \<open>errcode\<close> and the constant part of its message; an access the C standard leaves
  undefined (a read or write outside an array, a read of a line pointer that is not
  there); or a loop that never ends, which the model cuts off when its fuel or its
  list of pseudo-random draws runs out.
\<close>

datatype errcode =
    ERRCODE_INVALID_PARAMETER_VALUE
  | ERRCODE_INTERNAL_ERROR
  | ERRCODE_NUMERIC_VALUE_OUT_OF_RANGE
  | ERRCODE_INSUFFICIENT_RESOURCES
  | ERRCODE_DATA_CORRUPTED
  | ERRCODE_PROGRAM_LIMIT_EXCEEDED

datatype error =
    Ereport errcode string
  | Undefined string
  | Diverges

section \<open>Reloptions: \<open>hnswoptions\<close>\<close>

text \<open>
  \<open>HnswOptions\<close>: four 32-bit fields, the varlena length word \<open>vl_len_\<close> first.
\<close>

record HnswOptions =
  vl_len_ :: int
  opt_m :: int
  opt_ef_construction :: int
  opt_ef_search :: int

text \<open>
  \<open>(HnswOptions *) VARDATA(result)\<close>: \<open>VARDATA\<close> is the address four bytes after the
  start of \<open>result\<close>, so each field read through the cast pointer is the next field of
  the struct the parser filled, and the last one is the word behind the struct,
  \<open>past\<close>, which the parser did not allocate.
\<close>

definition VARDATA :: "int \<Rightarrow> HnswOptions \<Rightarrow> HnswOptions" where
  "VARDATA past result =
    \<lparr>vl_len_ = opt_m result, opt_m = opt_ef_construction result,
     opt_ef_construction = opt_ef_search result, opt_ef_search = past\<rparr>"

text \<open>
  \<open>build_reloptions\<close> is the host's parser of the reloptions datum; it is a parameter
  here. It may raise, return \<open>NULL\<close> (\<open>None\<close>) or return the parsed struct.
  \<open>hnswoptions\<close> then runs its five range checks in the order of the source, only when
  \<open>validate\<close> is set and the result is not \<open>NULL\<close>, on the fields of
  \<open>opts = VARDATA(result)\<close>, and returns the parser's result itself.
  \<open>hnswLoadOptions\<close> reads the same struct without \<open>VARDATA\<close>, with the defaults for
  \<open>NULL\<close>.
\<close>

definition hnswoptions ::
  "('d \<Rightarrow> bool \<Rightarrow> error + HnswOptions option) \<Rightarrow> int \<Rightarrow> 'd \<Rightarrow> bool
     \<Rightarrow> error + HnswOptions option"
where
  "hnswoptions build_reloptions past reloptions validate =
    (case build_reloptions reloptions validate of
       Inl e \<Rightarrow> Inl e
     | Inr result \<Rightarrow>
        (case result of
           None \<Rightarrow> Inr result
         | Some res \<Rightarrow>
            if validate then
              let opts = VARDATA past res in
              if opt_m opts < HNSW_MIN_M \<or> opt_m opts > HNSW_MAX_M then
                Inl (Ereport ERRCODE_INVALID_PARAMETER_VALUE ''hnsw: parameter m must be between'')
              else if opt_ef_construction opts < HNSW_MIN_EF_CONSTRUCTION \<or>
                      opt_ef_construction opts > HNSW_MAX_EF_CONSTRUCTION then
                Inl (Ereport ERRCODE_INVALID_PARAMETER_VALUE
                     ''hnsw: parameter ef_construction must be between'')
              else if opt_ef_search opts < HNSW_MIN_EF_SEARCH \<or>
                      opt_ef_search opts > HNSW_MAX_EF_SEARCH then
                Inl (Ereport ERRCODE_INVALID_PARAMETER_VALUE
                     ''hnsw: parameter ef_search must be between'')
              else if opt_ef_construction opts < opt_m opts then
                Inl (Ereport ERRCODE_INVALID_PARAMETER_VALUE
                     ''hnsw: parameter ef_construction must be >= m'')
              else if opt_ef_search opts < opt_m opts then
                Inl (Ereport ERRCODE_INVALID_PARAMETER_VALUE
                     ''hnsw: parameter ef_search must be >= m'')
              else Inr result
            else Inr result))"

definition hnswLoadOptions ::
  "('d \<Rightarrow> bool \<Rightarrow> error + HnswOptions option) \<Rightarrow> 'd \<Rightarrow> error + int \<times> int \<times> int"
where
  "hnswLoadOptions build_reloptions relopts =
    (case build_reloptions relopts False of
       Inl e \<Rightarrow> Inl e
     | Inr None \<Rightarrow>
         Inr (HNSW_DEFAULT_M, HNSW_DEFAULT_EF_CONSTRUCTION, HNSW_DEFAULT_EF_SEARCH)
     | Inr (Some opts) \<Rightarrow> Inr (opt_m opts, opt_ef_construction opts, opt_ef_search opts))"

section \<open>Node size: \<open>hnswComputeNodeSizeSafe\<close>\<close>

text \<open>
  \<open>size_t\<close> is 64 bits wide: a conversion to it and every operation on it are taken
  modulo \<open>2 ^ 64\<close>. \<open>int32\<close> is the wrap-around of an \<open>int\<close> addition.
\<close>

definition size_t :: "int \<Rightarrow> int" where
  "size_t x = x mod 2 ^ 64"

definition int32 :: "int \<Rightarrow> int" where
  "int32 x = (x + 2 ^ 31) mod 2 ^ 32 - 2 ^ 31"

definition sizeof_float4 :: int where "sizeof_float4 = 4"
definition sizeof_BlockNumber :: int where "sizeof_BlockNumber = 4"

text \<open>
  Modelled from the spec: the size of the fixed node header \<open>HnswNodeData\<close> and the
  platform alignment are the host's. The header is the 6-byte row identifier, the
  \<open>int\<close> level at offset 8, the \<open>int16\<close> dimension at offset 12 and sixteen
  \<open>int16\<close> neighbour counts, 46 bytes rounded up to the struct's alignment of 4.
  \<open>MAXALIGN\<close> rounds up to a multiple of 8, in \<open>size_t\<close> arithmetic.
\<close>

definition sizeof_HnswNodeData :: int where "sizeof_HnswNodeData = 48"

definition MAXALIGN :: "int \<Rightarrow> int" where
  "MAXALIGN len = size_t (len + 7) div 8 * 8"

text \<open>The host's default page size, and the largest one it can be built with.\<close>

definition BLCKSZ :: int where "BLCKSZ = 8192"
definition MAX_BLCKSZ :: int where "MAX_BLCKSZ = 32768"

text \<open>The result is the pair of the returned size and the \<open>*overflow\<close> flag.\<close>

definition hnswComputeNodeSizeSafe :: "int \<Rightarrow> int \<Rightarrow> int \<Rightarrow> int \<times> bool" where
  "hnswComputeNodeSizeSafe dim level m =
    (if m < HNSW_MIN_M \<or> m > HNSW_MAX_M then (0, True)
     else
       let vectorSize = size_t (size_t dim * sizeof_float4) in
       if vectorSize div sizeof_float4 \<noteq> size_t dim then (0, True)
       else
         let neighborSize =
               size_t (size_t (int32 (level + 1)) * size_t m * 2 * sizeof_BlockNumber) in
         if neighborSize div sizeof_BlockNumber
              \<noteq> size_t (size_t (int32 (level + 1)) * size_t m * 2)
         then (0, True)
         else
           let totalSize = size_t (sizeof_HnswNodeData + vectorSize + neighborSize) in
           if totalSize < sizeof_HnswNodeData \<or> totalSize < vectorSize
              \<or> totalSize < neighborSize
           then (0, True)
           else
             let result = MAXALIGN totalSize in
             if result < totalSize then (0, True) else (result, False))"

section \<open>Pages, nodes and the meta page\<close>

definition InvalidBlockNumber :: nat where "InvalidBlockNumber = 4294967295"

definition int16 :: "int \<Rightarrow> int" where
  "int16 x = (x + 2 ^ 15) mod 2 ^ 16 - 2 ^ 15"

text \<open>
  \<open>HnswMetaPageData\<close>, the contents of block 0. The level factor \<open>ml\<close> is a
  \<open>float4\<close>, of a type \<open>'f\<close> the model does not interpret.
\<close>

record 'f HnswMetaPageData =
  magicNumber :: nat
  version :: nat
  entryPoint :: nat
  entryLevel :: int
  maxLevel :: int
  meta_m :: int
  efConstruction :: int
  efSearch :: int
  ml :: 'f
  insertedVectors :: int

text \<open>
  \<open>HnswNodeData\<close> with what follows it in the item: the vector (of an uninterpreted
  type \<open>'v\<close>) and the neighbour table, one run of \<open>2 * m\<close> block numbers per level,
  \<open>level + 1\<close> runs for a node written by the insert. \<open>neighborCount\<close> is the
  fixed array of \<open>HNSW_MAX_LEVEL\<close> counters; the code indexes it only with a level
  it has checked to be below \<open>HNSW_MAX_LEVEL\<close>.

  The code computes the address of a slot from the level it is working on and never
  compares that level with \<open>node->level\<close>, so it also reads and writes slots behind the
  table of a node of a lower level. \<open>node_beyond\<close> holds what the code has stored there,
  by slot number; a slot behind the table that the code has not written has no value in
  the model.
\<close>

record 'v HnswNodeData =
  heapPtr :: "nat \<times> nat"
  node_level :: int
  node_dim :: int
  neighborCount :: "nat \<Rightarrow> int"
  node_vector :: 'v
  node_neighbors :: "nat list"
  node_beyond :: "nat \<Rightarrow> nat option"

text \<open>
  Modelled from the spec: the host's page. A page is new (all zeroes) or initialised
  with its line pointers, each carrying the host's flag (normal or dead) and the item.
  Marking an item dead sets the flag in the line pointer and drops its storage
  (\<open>lp_off = lp_len = 0\<close>); the page is not freed. \<open>PageGetItem\<close> through a dead line
  pointer is then the address of the page itself, and the node read there is the page
  header: for a dead line pointer the second component is that view of the page.
\<close>

datatype lp_flags = LP_NORMAL | LP_DEAD

datatype 'v Page = PageNew | PageItems "(lp_flags \<times> 'v HnswNodeData) list"

definition PageIsNew :: "'v Page \<Rightarrow> bool" where
  "PageIsNew page = (case page of PageNew \<Rightarrow> True | PageItems _ \<Rightarrow> False)"

definition PageIsEmpty :: "'v Page \<Rightarrow> bool" where
  "PageIsEmpty page = (case page of PageNew \<Rightarrow> True | PageItems its \<Rightarrow> its = [])"

definition PageGetMaxOffsetNumber :: "'v Page \<Rightarrow> nat" where
  "PageGetMaxOffsetNumber page = (case page of PageNew \<Rightarrow> 0 | PageItems its \<Rightarrow> length its)"

text \<open>
  The state the access method works on: the meta page (block 0), the node pages
  (blocks 1, 2, ...), the values \<open>random()\<close> is still to return, and two logs kept for
  the properties below: the block numbers passed to \<open>ReadBuffer\<close> and the strategies
  passed to \<open>hnswComputeDistance\<close>, both in call order. Buffer locks are not modelled.
\<close>

record ('v, 'f) hnsw_state =
  metap :: "'f HnswMetaPageData"
  node_pages :: "'v Page list"
  prng :: "nat list"
  rd_log :: "nat list"
  dist_log :: "int list"

text \<open>Running a fallible step on a state: the error or the result, and the state left.\<close>

definition returnE :: "'a \<Rightarrow> 's \<Rightarrow> (error + 'a) \<times> 's" where
  "returnE x s = (Inr x, s)"

definition raiseE :: "error \<Rightarrow> 's \<Rightarrow> (error + 'a) \<times> 's" where
  "raiseE e s = (Inl e, s)"

definition bindE ::
  "('s \<Rightarrow> (error + 'a) \<times> 's) \<Rightarrow> ('a \<Rightarrow> 's \<Rightarrow> (error + 'b) \<times> 's) \<Rightarrow> 's \<Rightarrow> (error + 'b) \<times> 's"
where
  "bindE f g s = (case f s of (Inl e, s') \<Rightarrow> (Inl e, s') | (Inr x, s') \<Rightarrow> g x s')"

text \<open>A read of the state, and an update of it, as steps.\<close>

definition getE :: "('s \<Rightarrow> 'a) \<Rightarrow> 's \<Rightarrow> (error + 'a) \<times> 's" where
  "getE f s = (Inr (f s), s)"

definition modifyE :: "('s \<Rightarrow> 's) \<Rightarrow> 's \<Rightarrow> (error + unit) \<times> 's" where
  "modifyE f s = (Inr (), f s)"

definition RelationGetNumberOfBlocks :: "('v, 'f) hnsw_state \<Rightarrow> nat" where
  "RelationGetNumberOfBlocks s = 1 + length (node_pages s)"

text \<open>
  \<open>ReadBuffer\<close> followed by \<open>BufferGetPage\<close>. Block 0 holds the meta record in its
  contents area and has no line pointer, so read as a node page it is an empty page.
  The host raises for a block beyond the end of the relation.
\<close>

definition ReadBuffer ::
  "nat \<Rightarrow> ('v, 'f) hnsw_state \<Rightarrow> (error + 'v Page) \<times> ('v, 'f) hnsw_state"
where
  "ReadBuffer blkno s =
    (let s' = s\<lparr>rd_log := rd_log s @ [blkno]\<rparr> in
     if blkno = 0 then (Inr (PageItems []), s')
     else if blkno < RelationGetNumberOfBlocks s then (Inr (node_pages s ! (blkno - 1)), s')
     else (Inl (Ereport ERRCODE_INTERNAL_ERROR ''could not read block''), s'))"

text \<open>The meta page through \<open>ReadBuffer(index, 0)\<close> and \<open>PageGetContents\<close>.\<close>

definition ReadMetaPage ::
  "('v, 'f) hnsw_state \<Rightarrow> (error + 'f HnswMetaPageData) \<times> ('v, 'f) hnsw_state"
where
  "ReadMetaPage s = (Inr (metap s), s\<lparr>rd_log := rd_log s @ [0]\<rparr>)"

text \<open>
  \<open>PageGetItem(page, PageGetItemId(page, FirstOffsetNumber))\<close>. On a page without
  line pointers there is nothing to read. The pointer the host returns is never
  \<open>NULL\<close>, so the source's \<open>node == NULL\<close> branches are never taken.
\<close>

definition PageGetFirstItem :: "'v Page \<Rightarrow> 's \<Rightarrow> (error + 'v HnswNodeData) \<times> 's" where
  "PageGetFirstItem page s =
    (case page of
       PageNew \<Rightarrow> (Inl (Undefined ''PageGetItem on a page without items''), s)
     | PageItems its \<Rightarrow>
        (case its of
           [] \<Rightarrow> (Inl (Undefined ''PageGetItem on a page without items''), s)
         | it # _ \<Rightarrow> (Inr (snd it), s)))"

text \<open>
  A write through a node pointer obtained from the first item of block \<open>blkno\<close>:
  the item's contents are replaced, its flag kept.
\<close>

definition write_node ::
  "nat \<Rightarrow> 'v HnswNodeData \<Rightarrow> ('v, 'f) hnsw_state \<Rightarrow> ('v, 'f) hnsw_state"
where
  "write_node blkno node s =
    (if 1 \<le> blkno \<and> blkno < RelationGetNumberOfBlocks s then
       (case node_pages s ! (blkno - 1) of
          PageItems (it # its) \<Rightarrow>
            s\<lparr>node_pages := (node_pages s)[blkno - 1 := PageItems ((fst it, node) # its)]\<rparr>
        | _ \<Rightarrow> s)
     else s)"

text \<open>
  The slot \<open>k\<close> counted from the start of the neighbour table: an entry of the table, or
  what was stored behind it.
\<close>

definition neighbor_slot :: "'v HnswNodeData \<Rightarrow> nat \<Rightarrow> nat option" where
  "neighbor_slot node k =
    (if k < length (node_neighbors node) then Some (node_neighbors node ! k)
     else node_beyond node k)"

text \<open>
  \<open>HnswGetNeighborsSafe(node, level, m)[i]\<close>: slot \<open>level * m * 2 + i\<close>. The write has
  no bounds test: behind the table it lands outside the item and the run goes on. The
  read of a slot before the table, or of one behind it that was never written, is the
  read of memory the model knows nothing of.
\<close>

definition get_neighbor ::
  "'v HnswNodeData \<Rightarrow> int \<Rightarrow> int \<Rightarrow> int \<Rightarrow> 's \<Rightarrow> (error + nat) \<times> 's"
where
  "get_neighbor node level m i s =
    (let k = level * m * 2 + i in
     if 0 \<le> k then
       (case neighbor_slot node (nat k) of
          Some b \<Rightarrow> (Inr b, s)
        | None \<Rightarrow> (Inl (Undefined ''read of a neighbor slot never written''), s))
     else (Inl (Undefined ''neighbor slot before the table''), s))"

definition set_neighbor ::
  "'v HnswNodeData \<Rightarrow> int \<Rightarrow> int \<Rightarrow> int \<Rightarrow> nat \<Rightarrow> 's \<Rightarrow> (error + 'v HnswNodeData) \<times> 's"
where
  "set_neighbor node level m i b s =
    (let k = level * m * 2 + i in
     if 0 \<le> k then
       (if nat k < length (node_neighbors node)
        then (Inr (node\<lparr>node_neighbors := (node_neighbors node)[nat k := b]\<rparr>), s)
        else (Inr (node\<lparr>node_beyond := (node_beyond node)(nat k := Some b)\<rparr>), s))
     else (Inl (Undefined ''neighbor slot before the table''), s))"

text \<open>
  \<open>hnswInitMetaPage\<close>: the meta record of an index without nodes. Its arguments
  \<open>m\<close>, \<open>efConstruction\<close> and \<open>efSearch\<close> are \<open>int16\<close>.
\<close>

definition HNSW_MAGIC_NUMBER :: nat where "HNSW_MAGIC_NUMBER = 1213419095"
definition HNSW_VERSION :: nat where "HNSW_VERSION = 1"

definition hnswInitMetaPage :: "int \<Rightarrow> int \<Rightarrow> int \<Rightarrow> 'f \<Rightarrow> 'f HnswMetaPageData" where
  "hnswInitMetaPage m efConstructionv efSearchv mlv =
    \<lparr>magicNumber = HNSW_MAGIC_NUMBER, version = HNSW_VERSION,
     entryPoint = InvalidBlockNumber, entryLevel = - 1, maxLevel = - 1,
     meta_m = int16 m, efConstruction = int16 efConstructionv, efSearch = int16 efSearchv,
     ml = mlv, insertedVectors = 0\<rparr>"

section \<open>Validation helpers\<close>

definition hnswValidateNeighborCount :: "int \<Rightarrow> int \<Rightarrow> int \<Rightarrow> int" where
  "hnswValidateNeighborCount neighborCnt m level =
    (let maxNeighbors = int16 (m * 2) in
     if neighborCnt < 0 then 0
     else if neighborCnt > maxNeighbors then maxNeighbors
     else neighborCnt)"

definition hnswValidateLevelSafe :: "int \<Rightarrow> bool" where
  "hnswValidateLevelSafe level = (\<not> (level < 0 \<or> level \<ge> HNSW_MAX_LEVEL))"

definition hnswValidateBlockNumber :: "nat \<Rightarrow> ('v, 'f) hnsw_state \<Rightarrow> bool" where
  "hnswValidateBlockNumber blkno s =
    (let maxBlocks = RelationGetNumberOfBlocks s in
     if blkno = InvalidBlockNumber then False
     else if blkno \<ge> maxBlocks then False
     else True)"

section \<open>Level assignment and distance\<close>

text \<open>
  The floating-point computations of the source are parameters of the model: the three
  loops of \<open>hnswComputeDistance\<close>, one per strategy, the constant \<open>FLT_MAX\<close>, and
  \<open>(int) (-log(r) * ml)\<close> of \<open>hnswGetRandomLevel\<close> as a function of the value
  \<open>random()\<close> returned (\<open>r\<close> is that value over \<open>RAND_MAX\<close>) and of \<open>ml\<close>.
  Distances are of a type \<open>'d\<close> with the comparison \<open><\<close> and nothing assumed of it.
\<close>

record ('v, 'f, 'd) float_ops =
  l2_distance :: "'v \<Rightarrow> 'v \<Rightarrow> int \<Rightarrow> 'd"
  cosine_distance :: "'v \<Rightarrow> 'v \<Rightarrow> int \<Rightarrow> 'd"
  negative_inner_product :: "'v \<Rightarrow> 'v \<Rightarrow> int \<Rightarrow> 'd"
  FLT_MAX :: 'd
  neg_log_times_ml :: "nat \<Rightarrow> 'f \<Rightarrow> int"

text \<open>
  \<open>while (r == 0.0) r = (double) random() / (double) RAND_MAX\<close>: \<open>r\<close> is zero exactly
  when \<open>random()\<close> returned 0. The loop has no bound; it ends in \<open>None\<close> when the draws
  the state holds are used up.
\<close>

fun redraw_until_nonzero :: "nat \<Rightarrow> nat list \<Rightarrow> (nat \<times> nat list) option" where
  "redraw_until_nonzero r [] = (if r = 0 then None else Some (r, []))"
| "redraw_until_nonzero r (x # xs) =
     (if r = 0 then redraw_until_nonzero x xs else Some (r, x # xs))"

definition hnswGetRandomLevel ::
  "('v, 'f, 'd) float_ops \<Rightarrow> 'f \<Rightarrow> ('v, 'f) hnsw_state \<Rightarrow> (error + int) \<times> ('v, 'f) hnsw_state"
where
  "hnswGetRandomLevel fo mlv s =
    (case prng s of
       [] \<Rightarrow> (Inl Diverges, s)
     | r0 # rest \<Rightarrow>
        (case redraw_until_nonzero r0 rest of
           None \<Rightarrow> (Inl Diverges, s\<lparr>prng := []\<rparr>)
         | Some (r, rest') \<Rightarrow>
            let level = neg_log_times_ml fo r mlv;
                level = (if level > HNSW_MAX_LEVEL - 1 then HNSW_MAX_LEVEL - 1 else level);
                level = (if level < 0 then 0 else level)
            in (Inr level, s\<lparr>prng := rest'\<rparr>)))"

definition hnswComputeDistance ::
  "('v, 'f, 'd) float_ops \<Rightarrow> 'v \<Rightarrow> 'v \<Rightarrow> int \<Rightarrow> int \<Rightarrow> ('v, 'f) hnsw_state
     \<Rightarrow> (error + 'd) \<times> ('v, 'f) hnsw_state"
where
  "hnswComputeDistance fo vec1 vec2 dim strategy s =
    (let s' = s\<lparr>dist_log := dist_log s @ [strategy]\<rparr> in
     if strategy = 1 then (Inr (l2_distance fo vec1 vec2 dim), s')
     else if strategy = 2 then (Inr (cosine_distance fo vec1 vec2 dim), s')
     else if strategy = 3 then (Inr (negative_inner_product fo vec1 vec2 dim), s')
     else (Inl (Ereport ERRCODE_INVALID_PARAMETER_VALUE
                  ''hnsw: unsupported distance strategy''), s'))"

section \<open>Search: \<open>hnswSearch\<close>\<close>

text \<open>
  The allocation macro \<open>NDB_ALLOC(ptr, type, count)\<close> is the host's allocator: it
  raises for a negative count and otherwise yields an array of \<open>count\<close> elements.
\<close>

definition NDB_ALLOC :: "int \<Rightarrow> 's \<Rightarrow> (error + unit) \<times> 's" where
  "NDB_ALLOC count s =
    (if count < 0
     then (Inl (Ereport ERRCODE_INTERNAL_ERROR ''invalid memory alloc request size''), s)
     else (Inr (), s))"

definition HNSW_MAX_VISITED_CAPACITY :: int where
  "HNSW_MAX_VISITED_CAPACITY = 1024 * 1024"

text \<open>
  The neighbour loop of the greedy phase, \<open>for (i = 0; i < neighborCount; i++)\<close>, over
  the indices still to visit. It carries \<open>current\<close>, \<open>currentDist\<close> and
  \<open>foundBetter\<close>; each \<open>continue\<close> of the source goes on with the rest unchanged.
\<close>

fun hnswSearch_greedy_neighbors ::
  "('v, 'f, 'd::ord) float_ops \<Rightarrow> 'v \<Rightarrow> int \<Rightarrow> int \<Rightarrow> 'v HnswNodeData \<Rightarrow> int \<Rightarrow> int
   \<Rightarrow> int list \<Rightarrow> nat \<times> 'd \<times> bool
   \<Rightarrow> ('v, 'f) hnsw_state \<Rightarrow> (error + nat \<times> 'd \<times> bool) \<times> ('v, 'f) hnsw_state"
where
  "hnswSearch_greedy_neighbors fo query dim strategy node level m [] acc = returnE acc"
| "hnswSearch_greedy_neighbors fo query dim strategy node level m (i # rest) acc =
    bindE (get_neighbor node level m i) (\<lambda>nb.
      if nb = InvalidBlockNumber
      then hnswSearch_greedy_neighbors fo query dim strategy node level m rest acc
      else (\<lambda>s.
        if \<not> hnswValidateBlockNumber nb s
        then hnswSearch_greedy_neighbors fo query dim strategy node level m rest acc s
        else
          bindE (ReadBuffer nb) (\<lambda>neighborPage.
            if PageIsNew neighborPage \<or> PageIsEmpty neighborPage
            then hnswSearch_greedy_neighbors fo query dim strategy node level m rest acc
            else
              bindE (PageGetFirstItem neighborPage) (\<lambda>neighbor.
              bindE (hnswComputeDistance fo query (node_vector neighbor) dim strategy)
                (\<lambda>neighborDist.
                  if neighborDist < fst (snd acc)
                  then hnswSearch_greedy_neighbors fo query dim strategy node level m rest
                         (nb, neighborDist, True)
                  else hnswSearch_greedy_neighbors fo query dim strategy node level m rest
                         acc))) s))"

text \<open>
  The \<open>do ... while (foundBetter)\<close> loop of one level. Each \<open>break\<close> leaves the loop
  with \<open>current\<close> as it is. The loop has no bound in the source; the first argument is
  the fuel of the model, one unit per iteration.
\<close>

fun hnswSearch_greedy_level ::
  "nat \<Rightarrow> ('v, 'f, 'd::ord) float_ops \<Rightarrow> 'v \<Rightarrow> int \<Rightarrow> int \<Rightarrow> int \<Rightarrow> int \<Rightarrow> nat
   \<Rightarrow> ('v, 'f) hnsw_state \<Rightarrow> (error + nat) \<times> ('v, 'f) hnsw_state"
where
  "hnswSearch_greedy_level 0 fo query dim strategy m level current = raiseE Diverges"
| "hnswSearch_greedy_level (Suc fuel) fo query dim strategy m level current =
    (\<lambda>s.
      if \<not> hnswValidateBlockNumber current s then returnE current s
      else
        bindE (ReadBuffer current) (\<lambda>nodePage.
          if PageIsNew nodePage \<or> PageIsEmpty nodePage then returnE current
          else
            bindE (PageGetFirstItem nodePage) (\<lambda>node.
              if \<not> hnswValidateLevelSafe (node_level node) then returnE current
              else
                bindE (hnswComputeDistance fo query (node_vector node) dim strategy)
                  (\<lambda>currentDist.
                bindE
                  (if node_level node \<ge> level then
                     hnswSearch_greedy_neighbors fo query dim strategy node level m
                       [0 .. hnswValidateNeighborCount (neighborCount node (nat level)) m level - 1]
                       (current, currentDist, False)
                   else returnE (current, currentDist, False))
                  (\<lambda>r.
                    if snd (snd r)
                    then hnswSearch_greedy_level fuel fo query dim strategy m level (fst r)
                    else returnE (fst r))))) s)"

text \<open>\<open>for (level = currentLevel; level > 0; level--)\<close>, over the levels still to visit.\<close>

fun hnswSearch_descend ::
  "nat \<Rightarrow> ('v, 'f, 'd::ord) float_ops \<Rightarrow> 'v \<Rightarrow> int \<Rightarrow> int \<Rightarrow> int \<Rightarrow> int list \<Rightarrow> nat
   \<Rightarrow> ('v, 'f) hnsw_state \<Rightarrow> (error + nat) \<times> ('v, 'f) hnsw_state"
where
  "hnswSearch_descend fuel fo query dim strategy m [] current = returnE current"
| "hnswSearch_descend fuel fo query dim strategy m (level # levels) current =
    bindE (hnswSearch_greedy_level fuel fo query dim strategy m level current)
      (hnswSearch_descend fuel fo query dim strategy m levels)"

text \<open>
  The local variables of the layer-0 exploration. \<open>candidates\<close> and
  \<open>candidateDists\<close> are parallel arrays of capacity \<open>efSearch\<close>, always written at
  the same index: one list of pairs, its length \<open>candidateCount\<close>. \<open>visitedSet\<close> is
  the bitmap of \<open>numBlocks\<close> flags. The \<open>visited\<close> array is only ever written, at
  index \<open>visitedCount\<close>; its contents are dropped and its count and capacity kept.
\<close>

record 'd search_locals =
  candidates :: "(nat \<times> 'd) list"
  visitedSet :: "bool list"
  visitedCount :: int
  visitedCapacity :: int

text \<open>
  The scan for the worst candidate, \<open>for (l = 1; l < candidateCount && l < efSearch; l++)\<close>,
  over the distances from index \<open>l\<close> on.
\<close>

fun hnswSearch_worst :: "'d::ord list \<Rightarrow> nat \<Rightarrow> nat \<times> 'd \<Rightarrow> nat \<times> 'd" where
  "hnswSearch_worst [] l w = w"
| "hnswSearch_worst (d # ds) l w =
     (if snd w < d then hnswSearch_worst ds (Suc l) (l, d)
      else hnswSearch_worst ds (Suc l) w)"

text \<open>
  What the layer-0 loop does with a neighbour once its distance is known: mark it in
  the bitmap, append it to \<open>visited\<close> (growing the array as the source does), and
  admit it to the candidates, at the end while there is room and otherwise in place of
  the worst one if it is closer.
\<close>

definition hnswSearch_admit ::
  "int \<Rightarrow> nat \<Rightarrow> nat \<Rightarrow> 'd::ord \<Rightarrow> 'd search_locals \<Rightarrow> 's \<Rightarrow> (error + 'd search_locals) \<times> 's"
where
  "hnswSearch_admit efSearchv numBlocks nb neighborDist st s =
    (let st1 = (if nb < numBlocks then st\<lparr>visitedSet := (visitedSet st)[nb := True]\<rparr> else st) in
     if \<not> visitedCount st1 < visitedCapacity st1
     then (Inl (Undefined ''write past the end of visited''), s)
     else
       let st2 = st1\<lparr>visitedCount := visitedCount st1 + 1\<rparr>;
           st3 =
             (if visitedCount st2 \<ge> visitedCapacity st2 then
                if visitedCapacity st2 \<ge> HNSW_MAX_VISITED_CAPACITY then st2
                else
                  let newCapacity = min (visitedCapacity st2 * 2) HNSW_MAX_VISITED_CAPACITY in
                  if newCapacity > visitedCapacity st2
                  then st2\<lparr>visitedCapacity := newCapacity\<rparr> else st2
              else st2)
       in
       if int (length (candidates st3)) < efSearchv
       then (Inr (st3\<lparr>candidates := candidates st3 @ [(nb, neighborDist)]\<rparr>), s)
       else
         (case candidates st3 of
            [] \<Rightarrow> (Inl (Undefined ''read of candidateDists[0] outside the array''), s)
          | c # cs \<Rightarrow>
             let w = hnswSearch_worst
                       (map snd (take (nat (min (int (length (candidates st3))) efSearchv) - 1) cs))
                       1 (0, snd c)
             in
             if neighborDist < snd w
             then (Inr (st3\<lparr>candidates := (candidates st3)[fst w := (nb, neighborDist)]\<rparr>), s)
             else (Inr st3, s)))"

text \<open>The neighbour loop of the layer-0 exploration, \<open>for (j = 0; j < neighborCount; j++)\<close>.\<close>

fun hnswSearch_layer0_neighbors ::
  "('v, 'f, 'd::ord) float_ops \<Rightarrow> 'v \<Rightarrow> int \<Rightarrow> int \<Rightarrow> int \<Rightarrow> nat \<Rightarrow> 'v HnswNodeData \<Rightarrow> int
   \<Rightarrow> int list \<Rightarrow> 'd search_locals
   \<Rightarrow> ('v, 'f) hnsw_state \<Rightarrow> (error + 'd search_locals) \<times> ('v, 'f) hnsw_state"
where
  "hnswSearch_layer0_neighbors fo query dim strategy efSearchv numBlocks node m [] st =
     returnE st"
| "hnswSearch_layer0_neighbors fo query dim strategy efSearchv numBlocks node m (j # rest) st =
    bindE (get_neighbor node 0 m j) (\<lambda>nb.
      if nb = InvalidBlockNumber
      then hnswSearch_layer0_neighbors fo query dim strategy efSearchv numBlocks node m rest st
      else (\<lambda>s.
        if \<not> hnswValidateBlockNumber nb s
        then hnswSearch_layer0_neighbors fo query dim strategy efSearchv numBlocks node m rest st s
        else if nb < numBlocks \<and> visitedSet st ! nb
        then hnswSearch_layer0_neighbors fo query dim strategy efSearchv numBlocks node m rest st s
        else
          bindE (ReadBuffer nb) (\<lambda>neighborPage.
            if PageIsNew neighborPage \<or> PageIsEmpty neighborPage
            then hnswSearch_layer0_neighbors fo query dim strategy efSearchv numBlocks node m
                   rest st
            else
              bindE (PageGetFirstItem neighborPage) (\<lambda>neighbor.
              bindE (hnswComputeDistance fo query (node_vector neighbor) dim strategy)
                (\<lambda>neighborDist.
              bindE (hnswSearch_admit efSearchv numBlocks nb neighborDist st)
                (hnswSearch_layer0_neighbors fo query dim strategy efSearchv numBlocks node m
                   rest)))) s))"

text \<open>The body of the candidate loop for \<open>candidate = candidates[i]\<close>.\<close>

definition hnswSearch_expand ::
  "('v, 'f, 'd::ord) float_ops \<Rightarrow> 'v \<Rightarrow> int \<Rightarrow> int \<Rightarrow> int \<Rightarrow> nat \<Rightarrow> int \<Rightarrow> nat \<Rightarrow> 'd search_locals
   \<Rightarrow> ('v, 'f) hnsw_state \<Rightarrow> (error + 'd search_locals) \<times> ('v, 'f) hnsw_state"
where
  "hnswSearch_expand fo query dim strategy efSearchv numBlocks m i st s =
    (let candidate = fst (candidates st ! i) in
     if \<not> hnswValidateBlockNumber candidate s then returnE st s
     else
       bindE (ReadBuffer candidate) (\<lambda>nodePage.
         if PageIsNew nodePage \<or> PageIsEmpty nodePage then returnE st
         else
           bindE (PageGetFirstItem nodePage) (\<lambda>node.
             if \<not> hnswValidateLevelSafe (node_level node) then returnE st
             else
               hnswSearch_layer0_neighbors fo query dim strategy efSearchv numBlocks node m
                 [0 .. hnswValidateNeighborCount (neighborCount node 0) m 0 - 1] st)) s)"

text \<open>
  \<open>for (i = 0; i < candidateCount && candidateCount < efSearch; i++)\<close>. The index stays
  below \<open>efSearch\<close>, which bounds the loop.
\<close>

function hnswSearch_layer0 ::
  "('v, 'f, 'd::ord) float_ops \<Rightarrow> 'v \<Rightarrow> int \<Rightarrow> int \<Rightarrow> int \<Rightarrow> nat \<Rightarrow> int \<Rightarrow> nat \<Rightarrow> 'd search_locals
   \<Rightarrow> ('v, 'f) hnsw_state \<Rightarrow> (error + 'd search_locals) \<times> ('v, 'f) hnsw_state"
where
  "hnswSearch_layer0 fo query dim strategy efSearchv numBlocks m i st s =
    (if i < length (candidates st) \<and> int (length (candidates st)) < efSearchv then
       (case hnswSearch_expand fo query dim strategy efSearchv numBlocks m i st s of
          (Inl e, s') \<Rightarrow> (Inl e, s')
        | (Inr st', s') \<Rightarrow>
            hnswSearch_layer0 fo query dim strategy efSearchv numBlocks m (Suc i) st' s')
     else (Inr st, s))"
  by pat_completeness auto
termination
  by (relation "measure (\<lambda>(fo, query, dim, strategy, efSearchv, numBlocks, m, i, st, s).
                   nat efSearchv - i)") auto

declare hnswSearch_layer0.simps [simp del]

text \<open>
  The selection of the \<open>k\<close> best: \<open>indices\<close> starts as the identity; for each
  \<open>i < min(k, candidateCount)\<close> the inner loop finds the position \<open>minIdx\<close> of the
  smallest remaining distance and the two entries of \<open>indices\<close> are swapped.
\<close>

fun hnswSearch_min :: "'d::ord list \<Rightarrow> nat list \<Rightarrow> nat list \<Rightarrow> nat \<times> 'd \<Rightarrow> nat \<times> 'd" where
  "hnswSearch_min dists indices [] acc = acc"
| "hnswSearch_min dists indices (j # js) acc =
     (if dists ! (indices ! j) < snd acc
      then hnswSearch_min dists indices js (j, dists ! (indices ! j))
      else hnswSearch_min dists indices js acc)"

fun hnswSearch_select :: "'d::ord list \<Rightarrow> nat \<Rightarrow> nat list \<Rightarrow> nat list \<Rightarrow> nat list" where
  "hnswSearch_select dists candidateCount [] indices = indices"
| "hnswSearch_select dists candidateCount (i # rest) indices =
     (let minIdx = fst (hnswSearch_min dists indices [Suc i ..< candidateCount]
                          (i, dists ! (indices ! i)));
          indices' = (if minIdx \<noteq> i
                      then indices[i := indices ! minIdx, minIdx := indices ! i]
                      else indices)
      in hnswSearch_select dists candidateCount rest indices')"

text \<open>
  \<open>hnswSearch\<close>. The result is \<open>(*results, *distances, *resultCount)\<close>, the arrays
  \<open>None\<close> where the source stores \<open>NULL\<close>. The check of the bitmap size against
  overflow multiplies by \<open>sizeof(bool) = 1\<close> and never fires.
  \<open>CHECK_FOR_INTERRUPTS\<close> is the host's and is not modelled.
\<close>

definition hnswSearch ::
  "nat \<Rightarrow> ('v, 'f, 'd::ord) float_ops \<Rightarrow> 'f HnswMetaPageData \<Rightarrow> 'v \<Rightarrow> int \<Rightarrow> int \<Rightarrow> int \<Rightarrow> int
   \<Rightarrow> ('v, 'f) hnsw_state
   \<Rightarrow> (error + nat list option \<times> 'd list option \<times> int) \<times> ('v, 'f) hnsw_state"
where
  "hnswSearch fuel fo metaPage query dim strategy efSearchv k =
    (if entryPoint metaPage = InvalidBlockNumber then returnE (None, None, 0)
     else
       let current = entryPoint metaPage;
           currentLevel = entryLevel metaPage;
           currentLevel = (if currentLevel < 0 \<or> currentLevel \<ge> HNSW_MAX_LEVEL then 0
                           else currentLevel);
           visitedCapacity0 = (if efSearchv > 1 then efSearchv * 2 else 32)
       in
       bindE (NDB_ALLOC visitedCapacity0) (\<lambda>_.
       bindE (getE RelationGetNumberOfBlocks) (\<lambda>numBlocks.
       bindE (NDB_ALLOC (int numBlocks)) (\<lambda>_.
       bindE (NDB_ALLOC efSearchv) (\<lambda>_.
       bindE (NDB_ALLOC efSearchv) (\<lambda>_.
       bindE (hnswSearch_descend fuel fo query dim strategy (meta_m metaPage)
                (rev [1 .. currentLevel]) current) (\<lambda>current. \<lambda>s.
         if \<not> hnswValidateBlockNumber current s then returnE (None, None, 0) s
         else if efSearchv < 1
         then raiseE (Undefined ''write of candidates[0] outside the array'') s
         else
           bindE (ReadBuffer current) (\<lambda>nodePage.
             if PageIsNew nodePage \<or> PageIsEmpty nodePage then returnE (None, None, 0)
             else
               bindE (PageGetFirstItem nodePage) (\<lambda>node.
                 if \<not> hnswValidateLevelSafe (node_level node) then returnE (None, None, 0)
                 else
                   bindE (hnswComputeDistance fo query (node_vector node) dim strategy)
                     (\<lambda>d0.
                   bindE (hnswSearch_layer0 fo query dim strategy efSearchv numBlocks
                            (meta_m metaPage) 0
                            \<lparr>candidates = [(current, d0)],
                             visitedSet =
                               (if current < numBlocks
                                then (replicate numBlocks False)[current := True]
                                else replicate numBlocks False),
                             visitedCount = 1,
                             visitedCapacity = visitedCapacity0\<rparr>)
                     (\<lambda>st.
                   let candidateCount = length (candidates st);
                       dists = map snd (candidates st) in
                   bindE (NDB_ALLOC (int candidateCount)) (\<lambda>_.
                   let indices = hnswSearch_select dists candidateCount
                                   [0 ..< nat (min k (int candidateCount))] [0 ..< candidateCount];
                       topKCount = min k (int candidateCount) in
                   bindE (NDB_ALLOC topKCount) (\<lambda>_.
                   bindE (NDB_ALLOC topKCount) (\<lambda>_.
                   returnE
                     (Some (map (\<lambda>i. fst (candidates st ! (indices ! i))) [0 ..< nat topKCount]),
                      Some (map (\<lambda>i. snd (candidates st ! (indices ! i))) [0 ..< nat topKCount]),
                      topKCount)))))))) s)))))))"

section \<open>Scans: \<open>hnswbeginscan\<close>, \<open>hnswrescan\<close>, \<open>hnswgettuple\<close>\<close>

text \<open>
  \<open>HnswScanOpaqueData\<close>. The query vector is \<open>None\<close> for \<open>NULL\<close> and otherwise the
  data and the dimension of the \<open>Vector\<close>. \<open>xs_heaptid\<close> is the field of the scan
  descriptor that \<open>hnswgettuple\<close> sets.
\<close>

record ('v, 'd) HnswScanOpaqueData =
  so_efSearch :: int
  so_strategy :: int
  so_queryVector :: "('v \<times> int) option"
  so_k :: int
  so_firstCall :: bool
  so_resultCount :: int
  so_results :: "nat list option"
  so_distances :: "'d list option"
  so_currentResult :: int
  xs_heaptid :: "(nat \<times> nat) option"

definition hnswbeginscan :: "('v, 'd) HnswScanOpaqueData" where
  "hnswbeginscan =
    \<lparr>so_efSearch = HNSW_DEFAULT_EF_SEARCH, so_strategy = 1, so_queryVector = None,
     so_k = 0, so_firstCall = True, so_resultCount = 0, so_results = None,
     so_distances = None, so_currentResult = 0, xs_heaptid = None\<rparr>"

text \<open>
  \<open>hnswrescan\<close>. The order-by keys are the pairs \<open>(sk_strategy, sk_argument)\<close>, the
  argument \<open>None\<close> for the datum 0; \<open>norderbys\<close> is their number. The two session
  settings \<open>neurondb_hnsw_ef_search\<close> and \<open>neurondb_hnsw_k\<close> and the conversion of
  the datum, \<open>hnswExtractVectorData\<close> applied to the key type of the index, are
  parameters; the conversion may raise or return \<open>NULL\<close>.
\<close>

definition hnswrescan ::
  "int \<Rightarrow> int \<Rightarrow> ('a \<Rightarrow> error + ('v \<times> int) option) \<Rightarrow> (int \<times> 'a option) list
   \<Rightarrow> ('v, 'd) HnswScanOpaqueData \<Rightarrow> ('v, 'f) hnsw_state
   \<Rightarrow> (error + ('v, 'd) HnswScanOpaqueData) \<times> ('v, 'f) hnsw_state"
where
  "hnswrescan neurondb_hnsw_ef_search neurondb_hnsw_k hnswExtractVectorData orderbys so s =
    (let norderbys = int (length orderbys);
         so1 = so\<lparr>so_firstCall := True, so_currentResult := 0, so_resultCount := 0\<rparr>;
         so2 = (if norderbys > 0 then so1\<lparr>so_strategy := fst (hd orderbys)\<rparr>
                else so1\<lparr>so_strategy := 1\<rparr>)
     in
     bindE (if neurondb_hnsw_ef_search > 0
            then returnE (so2\<lparr>so_efSearch := neurondb_hnsw_ef_search\<rparr>)
            else bindE ReadMetaPage (\<lambda>meta. returnE (so2\<lparr>so_efSearch := efSearch meta\<rparr>)))
       (\<lambda>so3.
         let so4 = (if so_efSearch so3 > 100000 then so3\<lparr>so_efSearch := 100000\<rparr> else so3) in
         if norderbys > 0 \<and> snd (hd orderbys) \<noteq> None then
           (case hnswExtractVectorData (the (snd (hd orderbys))) of
              Inl e \<Rightarrow> raiseE e
            | Inr vectorData \<Rightarrow>
               let so5 = (case vectorData of
                            None \<Rightarrow> so4
                          | Some v \<Rightarrow> so4\<lparr>so_queryVector := Some v\<rparr>)
               in returnE (so5\<lparr>so_k := (if neurondb_hnsw_k > 0 then neurondb_hnsw_k else 10)\<rparr>))
         else returnE so4) s)"

text \<open>
  \<open>hnswgettuple\<close>: the returned flag and the scan state. The second half of the
  function, which hands out \<open>results[currentResult]\<close>, comes first.
\<close>

definition hnswgettuple_next ::
  "('v, 'd) HnswScanOpaqueData \<Rightarrow> ('v, 'f) hnsw_state
   \<Rightarrow> (error + bool \<times> ('v, 'd) HnswScanOpaqueData) \<times> ('v, 'f) hnsw_state"
where
  "hnswgettuple_next so s =
    (if so_currentResult so < so_resultCount so then
       (case so_results so of
          None \<Rightarrow> raiseE (Undefined ''read through the NULL results array'') s
        | Some rs \<Rightarrow>
           if \<not> (0 \<le> so_currentResult so \<and> so_currentResult so < int (length rs))
           then raiseE (Undefined ''read outside the results array'') s
           else
             let resultBlkno = rs ! nat (so_currentResult so) in
             if \<not> hnswValidateBlockNumber resultBlkno s
             then returnE (False, so\<lparr>so_currentResult := so_currentResult so + 1\<rparr>) s
             else
               bindE (ReadBuffer resultBlkno) (\<lambda>page.
                 if PageIsEmpty page
                 then returnE (False, so\<lparr>so_currentResult := so_currentResult so + 1\<rparr>)
                 else
                   bindE (PageGetFirstItem page) (\<lambda>node.
                     returnE (True, so\<lparr>xs_heaptid := Some (heapPtr node),
                                       so_currentResult := so_currentResult so + 1\<rparr>))) s)
     else returnE (False, so) s)"

definition hnswgettuple ::
  "nat \<Rightarrow> ('v, 'f, 'd::ord) float_ops \<Rightarrow> ('v, 'd) HnswScanOpaqueData \<Rightarrow> ('v, 'f) hnsw_state
   \<Rightarrow> (error + bool \<times> ('v, 'd) HnswScanOpaqueData) \<times> ('v, 'f) hnsw_state"
where
  "hnswgettuple fuel fo so s =
    (if so_firstCall so then
       bindE ReadMetaPage (\<lambda>meta.
         case so_queryVector so of
           None \<Rightarrow> returnE (False, so)
         | Some qv \<Rightarrow>
             bindE (hnswSearch fuel fo meta (fst qv) (snd qv) (so_strategy so)
                      (so_efSearch so) (so_k so))
               (\<lambda>r. hnswgettuple_next
                  (so\<lparr>so_results := fst r, so_distances := fst (snd r),
                      so_resultCount := snd (snd r), so_firstCall := False,
                      so_currentResult := 0\<rparr>))) s
     else hnswgettuple_next so s)"

section \<open>Insertion: \<open>hnswInsertNode\<close>\<close>

text \<open>
  A read through a node pointer that was taken from the first item of block \<open>blkno\<close>
  while its buffer is held: the current contents of that item.
\<close>

definition deref_node ::
  "nat \<Rightarrow> ('v, 'f) hnsw_state \<Rightarrow> (error + 'v HnswNodeData) \<times> ('v, 'f) hnsw_state"
where
  "deref_node blkno s =
    (if 1 \<le> blkno \<and> blkno < RelationGetNumberOfBlocks s
     then PageGetFirstItem (node_pages s ! (blkno - 1)) s
     else (Inl (Undefined ''PageGetItem on a page without items''), s))"

text \<open>
  Step 3, the neighbour loop of the greedy walk from the entry point. It carries
  \<open>bestEntry\<close>, \<open>bestDist\<close> and \<open>improved\<close>.
\<close>

fun hnswInsertNode_entry_neighbors ::
  "('v, 'f, 'd::ord) float_ops \<Rightarrow> 'v \<Rightarrow> int \<Rightarrow> 'v HnswNodeData \<Rightarrow> int \<Rightarrow> int
   \<Rightarrow> int list \<Rightarrow> nat \<times> 'd \<times> bool
   \<Rightarrow> ('v, 'f) hnsw_state \<Rightarrow> (error + nat \<times> 'd \<times> bool) \<times> ('v, 'f) hnsw_state"
where
  "hnswInsertNode_entry_neighbors fo vector dim entryNode level m [] acc = returnE acc"
| "hnswInsertNode_entry_neighbors fo vector dim entryNode level m (i # rest) acc =
    bindE (get_neighbor entryNode level m i) (\<lambda>nb.
      if nb = InvalidBlockNumber
      then hnswInsertNode_entry_neighbors fo vector dim entryNode level m rest acc
      else (\<lambda>s.
        if nb \<ge> RelationGetNumberOfBlocks s
        then hnswInsertNode_entry_neighbors fo vector dim entryNode level m rest acc s
        else
          bindE (ReadBuffer nb) (\<lambda>neighborPage.
            if PageIsNew neighborPage \<or> PageIsEmpty neighborPage
            then hnswInsertNode_entry_neighbors fo vector dim entryNode level m rest acc
            else
              bindE (PageGetFirstItem neighborPage) (\<lambda>neighbor.
              bindE (hnswComputeDistance fo vector (node_vector neighbor) dim 1)
                (\<lambda>neighborDist.
                  if neighborDist < fst (snd acc)
                  then hnswInsertNode_entry_neighbors fo vector dim entryNode level m rest
                         (nb, neighborDist, True)
                  else hnswInsertNode_entry_neighbors fo vector dim entryNode level m rest
                         acc))) s))"

text \<open>
  \<open>while (improved && iterations < maxIterations)\<close> with \<open>maxIterations = 10\<close>; the
  function is entered with \<open>improved\<close> true and returns \<open>bestEntry\<close> and
  \<open>bestDist\<close>, which the source does not use afterwards.
\<close>

function hnswInsertNode_greedy ::
  "('v, 'f, 'd::ord) float_ops \<Rightarrow> 'v \<Rightarrow> int \<Rightarrow> int \<Rightarrow> int \<Rightarrow> nat \<Rightarrow> nat \<times> 'd
   \<Rightarrow> ('v, 'f) hnsw_state \<Rightarrow> (error + nat \<times> 'd) \<times> ('v, 'f) hnsw_state"
where
  "hnswInsertNode_greedy fo vector dim level m iterations best s =
    (if iterations < 10 then
       if \<not> hnswValidateBlockNumber (fst best) s then (Inr best, s)
       else
         (case ReadBuffer (fst best) s of
            (Inl e, s1) \<Rightarrow> (Inl e, s1)
          | (Inr entryPage, s1) \<Rightarrow>
             if PageIsNew entryPage \<or> PageIsEmpty entryPage then (Inr best, s1)
             else
               (case PageGetFirstItem entryPage s1 of
                  (Inl e, s2) \<Rightarrow> (Inl e, s2)
                | (Inr entryNode, s2) \<Rightarrow>
                   if \<not> hnswValidateLevelSafe (node_level entryNode) then (Inr best, s2)
                   else if node_level entryNode \<ge> level then
                     (case hnswComputeDistance fo vector (node_vector entryNode) dim 1 s2 of
                        (Inl e, s3) \<Rightarrow> (Inl e, s3)
                      | (Inr bestDist, s3) \<Rightarrow>
                         (case hnswInsertNode_entry_neighbors fo vector dim entryNode level m
                                 [0 .. hnswValidateNeighborCount
                                         (neighborCount entryNode (nat level)) m level - 1]
                                 (fst best, bestDist, False) s3 of
                            (Inl e, s4) \<Rightarrow> (Inl e, s4)
                          | (Inr r, s4) \<Rightarrow>
                             if snd (snd r)
                             then hnswInsertNode_greedy fo vector dim level m (Suc iterations)
                                    (fst r, fst (snd r)) s4
                             else (Inr (fst r, fst (snd r)), s4)))
                   else (Inr best, s2)))
     else (Inr best, s))"
  by pat_completeness auto
termination
  by (relation "measure (\<lambda>(fo, vector, dim, level, m, iterations, best, s). 10 - iterations)")
     auto

declare hnswInsertNode_greedy.simps [simp del]

text \<open>
  Step 5a, the selection of the nearest candidates: for each \<open>idx < selectedCount\<close> the
  closest of the candidates from \<open>idx\<close> on is swapped into place. The parallel arrays
  \<open>candidates\<close> and \<open>candidateDistances\<close> are one list of pairs.
\<close>

fun hnswInsertNode_best :: "(nat \<times> 'd::ord) list \<Rightarrow> nat list \<Rightarrow> nat \<times> 'd \<Rightarrow> nat \<times> 'd" where
  "hnswInsertNode_best cands [] acc = acc"
| "hnswInsertNode_best cands (j # js) acc =
     (if snd (cands ! j) < snd acc
      then hnswInsertNode_best cands js (j, snd (cands ! j))
      else hnswInsertNode_best cands js acc)"

fun hnswInsertNode_select ::
  "nat \<Rightarrow> nat list \<Rightarrow> (nat \<times> 'd::ord) list \<Rightarrow> (nat \<times> 'd) list"
where
  "hnswInsertNode_select candidateCount [] cands = cands"
| "hnswInsertNode_select candidateCount (idx # rest) cands =
     (let bestIdx = fst (hnswInsertNode_best cands [Suc idx ..< candidateCount]
                           (idx, snd (cands ! idx)));
          cands' = (if bestIdx \<noteq> idx
                    then cands[idx := cands ! bestIdx, bestIdx := cands ! idx]
                    else cands)
      in hnswInsertNode_select candidateCount rest cands')"

text \<open>
  The search for the first free slot of the neighbour's list,
  \<open>for (j = 0; j < neighborNeighborCount; j++)\<close> with its \<open>break\<close>; the last argument
  is the initial \<open>insertPos\<close>.
\<close>

fun hnswInsertNode_insertPos ::
  "'v HnswNodeData \<Rightarrow> int \<Rightarrow> int \<Rightarrow> int list \<Rightarrow> int \<Rightarrow> 's \<Rightarrow> (error + int) \<times> 's"
where
  "hnswInsertNode_insertPos neighborNode currentLevel m [] insertPos = returnE insertPos"
| "hnswInsertNode_insertPos neighborNode currentLevel m (j # rest) insertPos =
    bindE (get_neighbor neighborNode currentLevel m j) (\<lambda>nb.
      if nb = InvalidBlockNumber then returnE j
      else hnswInsertNode_insertPos neighborNode currentLevel m rest insertPos)"

text \<open>
  Pruning. The first loop fills \<open>neighborDists\<close> and \<open>neighborIndices\<close>, here one list
  of pairs. Its \<open>break\<close> at an empty slot leaves the rest of both fresh arrays
  unwritten, and the loops after it read them.
\<close>

fun hnswInsertNode_prune_dists ::
  "('v, 'f, 'd::ord) float_ops \<Rightarrow> int \<Rightarrow> nat \<Rightarrow> 'd \<Rightarrow> nat \<Rightarrow> int \<Rightarrow> int \<Rightarrow> int list
   \<Rightarrow> ('d \<times> nat) list
   \<Rightarrow> ('v, 'f) hnsw_state \<Rightarrow> (error + ('d \<times> nat) list) \<times> ('v, 'f) hnsw_state"
where
  "hnswInsertNode_prune_dists fo dim blkno selectedDistance neighborBlkno currentLevel m [] acc =
     returnE acc"
| "hnswInsertNode_prune_dists fo dim blkno selectedDistance neighborBlkno currentLevel m
     (j # rest) acc =
    bindE (deref_node neighborBlkno) (\<lambda>neighborNode.
    bindE (get_neighbor neighborNode currentLevel m j) (\<lambda>nb.
      if nb = InvalidBlockNumber
      then raiseE (Undefined ''read of neighborDists and neighborIndices never written'')
      else if nb = blkno
      then hnswInsertNode_prune_dists fo dim blkno selectedDistance neighborBlkno currentLevel m
             rest (acc @ [(selectedDistance, nat j)])
      else (\<lambda>s.
        if \<not> hnswValidateBlockNumber nb s
        then hnswInsertNode_prune_dists fo dim blkno selectedDistance neighborBlkno currentLevel
               m rest (acc @ [(FLT_MAX fo, nat j)]) s
        else
          bindE (ReadBuffer nb) (\<lambda>otherPage.
            if PageIsNew otherPage \<or> PageIsEmpty otherPage
            then hnswInsertNode_prune_dists fo dim blkno selectedDistance neighborBlkno
                   currentLevel m rest (acc @ [(FLT_MAX fo, nat j)])
            else
              bindE (PageGetFirstItem otherPage) (\<lambda>otherNode.
              bindE (hnswComputeDistance fo (node_vector neighborNode) (node_vector otherNode)
                       dim 1) (\<lambda>d.
                hnswInsertNode_prune_dists fo dim blkno selectedDistance neighborBlkno
                  currentLevel m rest (acc @ [(d, nat j)])))) s)))"

fun hnswInsertNode_prune_sort_inner ::
  "nat \<Rightarrow> nat list \<Rightarrow> ('d::ord \<times> nat) list \<Rightarrow> ('d \<times> nat) list"
where
  "hnswInsertNode_prune_sort_inner j [] xs = xs"
| "hnswInsertNode_prune_sort_inner j (k # ks) xs =
     (if fst (xs ! k) < fst (xs ! j)
      then hnswInsertNode_prune_sort_inner j ks (xs[j := xs ! k, k := xs ! j])
      else hnswInsertNode_prune_sort_inner j ks xs)"

fun hnswInsertNode_prune_sort ::
  "nat \<Rightarrow> nat list \<Rightarrow> ('d::ord \<times> nat) list \<Rightarrow> ('d \<times> nat) list"
where
  "hnswInsertNode_prune_sort pruneCount [] xs = xs"
| "hnswInsertNode_prune_sort pruneCount (j # js) xs =
     hnswInsertNode_prune_sort pruneCount js
       (hnswInsertNode_prune_sort_inner j [Suc j ..< pruneCount] xs)"

text \<open>
  \<open>for (j = 0; j < m * 2; j++) neighborNeighbors[j] = neighborNeighbors[neighborIndices[j]]\<close>,
  one assignment after the other on the node in the page.
\<close>

fun hnswInsertNode_prune_write ::
  "nat \<Rightarrow> int \<Rightarrow> int \<Rightarrow> nat list \<Rightarrow> nat list
   \<Rightarrow> ('v, 'f) hnsw_state \<Rightarrow> (error + unit) \<times> ('v, 'f) hnsw_state"
where
  "hnswInsertNode_prune_write neighborBlkno currentLevel m neighborIndices [] = returnE ()"
| "hnswInsertNode_prune_write neighborBlkno currentLevel m neighborIndices (j # rest) =
    (if \<not> j < length neighborIndices
     then raiseE (Undefined ''read outside neighborIndices'')
     else
       bindE (deref_node neighborBlkno) (\<lambda>neighborNode.
       bindE (get_neighbor neighborNode currentLevel m (int (neighborIndices ! j))) (\<lambda>b.
       bindE (set_neighbor neighborNode currentLevel m (int j) b) (\<lambda>neighborNode'.
       bindE (modifyE (write_node neighborBlkno neighborNode')) (\<lambda>_.
         hnswInsertNode_prune_write neighborBlkno currentLevel m neighborIndices rest)))))"

text \<open>
  The pruning of the neighbour in block \<open>neighborBlkno\<close>, entered when its stored count
  exceeds \<open>m * 2\<close>.
\<close>

definition hnswInsertNode_prune ::
  "('v, 'f, 'd::ord) float_ops \<Rightarrow> int \<Rightarrow> nat \<Rightarrow> 'd \<Rightarrow> nat \<Rightarrow> int \<Rightarrow> int
   \<Rightarrow> ('v, 'f) hnsw_state \<Rightarrow> (error + unit) \<times> ('v, 'f) hnsw_state"
where
  "hnswInsertNode_prune fo dim blkno selectedDistance neighborBlkno currentLevel m =
    bindE (deref_node neighborBlkno) (\<lambda>neighborNode.
      let pruneCount = neighborCount neighborNode (nat currentLevel);
          pruneCount = (if pruneCount > m * 2 then int16 (m * 2) else pruneCount);
          pruneCount = (if pruneCount < 0 then 0 else pruneCount)
      in
      bindE (hnswInsertNode_prune_dists fo dim blkno selectedDistance neighborBlkno currentLevel
               m [0 .. pruneCount - 1] []) (\<lambda>filled.
        let sorted = hnswInsertNode_prune_sort (nat pruneCount) [0 ..< nat (pruneCount - 1)]
                       filled
        in
        bindE (deref_node neighborBlkno) (\<lambda>neighborNode.
        bindE (modifyE
                 (write_node neighborBlkno
                    (neighborNode\<lparr>neighborCount :=
                       (neighborCount neighborNode)(nat currentLevel := int16 (m * 2))\<rparr>)))
          (\<lambda>_.
          hnswInsertNode_prune_write neighborBlkno currentLevel m (map snd sorted)
            [0 ..< nat (m * 2)]))))"

text \<open>
  The body of the linking loop for \<open>selectedNeighbors[idx]\<close> and
  \<open>selectedDistances[idx]\<close>: the new node in block \<open>blkno\<close> takes the neighbour
  (for \<open>idx < m\<close>), and the neighbour takes the new node in its first free slot below
  \<open>m * 2\<close>. The source reads the neighbour's first item without testing the page for
  emptiness.
\<close>

definition hnswInsertNode_link_one ::
  "('v, 'f, 'd::ord) float_ops \<Rightarrow> int \<Rightarrow> nat \<Rightarrow> int \<Rightarrow> int \<Rightarrow> nat \<times> 'd \<Rightarrow> nat
   \<Rightarrow> ('v, 'f) hnsw_state \<Rightarrow> (error + unit) \<times> ('v, 'f) hnsw_state"
where
  "hnswInsertNode_link_one fo dim blkno currentLevel m sel idx =
    bindE
      (if int idx < m then
         bindE (deref_node blkno) (\<lambda>newNode.
         bindE (set_neighbor newNode currentLevel m (int idx) (fst sel)) (\<lambda>newNode'.
           modifyE
             (write_node blkno
                (newNode'\<lparr>neighborCount :=
                   (neighborCount newNode')(nat currentLevel := int16 (int idx + 1))\<rparr>))))
       else returnE ())
      (\<lambda>_.
    bindE (ReadBuffer (fst sel)) (\<lambda>neighborPage.
    bindE (PageGetFirstItem neighborPage) (\<lambda>neighborNode.
      if \<not> hnswValidateLevelSafe (node_level neighborNode) then returnE ()
      else
        let neighborNeighborCount =
              hnswValidateNeighborCount (neighborCount neighborNode (nat currentLevel)) m
                currentLevel
        in
        bindE (hnswInsertNode_insertPos neighborNode currentLevel m
                 [0 .. neighborNeighborCount - 1] neighborNeighborCount) (\<lambda>insertPos.
        bindE
          (if insertPos < m * 2 then
             bindE (set_neighbor neighborNode currentLevel m insertPos blkno) (\<lambda>n1.
               let n2 = (if insertPos \<ge> neighborNeighborCount
                         then n1\<lparr>neighborCount :=
                                (neighborCount n1)(nat currentLevel := int16 (insertPos + 1))\<rparr>
                         else n1)
               in bindE (modifyE (write_node (fst sel) n2)) (\<lambda>_. returnE n2))
           else returnE neighborNode)
          (\<lambda>neighborNode'.
            if neighborCount neighborNode' (nat currentLevel) > m * 2
            then hnswInsertNode_prune fo dim blkno (snd sel) (fst sel) currentLevel m
            else returnE ())))))"

text \<open>\<open>for (idx = 0; idx < selectedCount; idx++)\<close> over the indices still to link.\<close>

fun hnswInsertNode_link ::
  "('v, 'f, 'd::ord) float_ops \<Rightarrow> int \<Rightarrow> nat \<Rightarrow> int \<Rightarrow> int \<Rightarrow> (nat \<times> 'd) list \<Rightarrow> nat list
   \<Rightarrow> ('v, 'f) hnsw_state \<Rightarrow> (error + unit) \<times> ('v, 'f) hnsw_state"
where
  "hnswInsertNode_link fo dim blkno currentLevel m selected [] = returnE ()"
| "hnswInsertNode_link fo dim blkno currentLevel m selected (idx # rest) =
    bindE (hnswInsertNode_link_one fo dim blkno currentLevel m (selected ! idx) idx)
      (\<lambda>_. hnswInsertNode_link fo dim blkno currentLevel m selected rest)"

text \<open>
  Step 5, \<open>for (currentLevel = maxLevel; currentLevel >= 0; currentLevel--)\<close>: every
  level runs the full search with strategy 1 and \<open>ef = k = efConstruction\<close>, selects
  \<open>min(m, candidateCount)\<close> candidates and links them. The meta page is read through
  the pointer the caller passed, its current contents.
\<close>

fun hnswInsertNode_levels ::
  "nat \<Rightarrow> ('v, 'f, 'd::ord) float_ops \<Rightarrow> 'v \<Rightarrow> int \<Rightarrow> nat \<Rightarrow> int \<Rightarrow> int \<Rightarrow> int list
   \<Rightarrow> ('v, 'f) hnsw_state \<Rightarrow> (error + unit) \<times> ('v, 'f) hnsw_state"
where
  "hnswInsertNode_levels fuel fo vector dim blkno m efConstructionv [] = returnE ()"
| "hnswInsertNode_levels fuel fo vector dim blkno m efConstructionv (currentLevel # rest) =
    bindE (getE metap) (\<lambda>metaPage.
      bindE (hnswSearch fuel fo metaPage vector dim 1 efConstructionv efConstructionv)
        (\<lambda>r.
          let candidateCount = snd (snd r);
              cands = (case (fst r, fst (snd r)) of
                         (Some bs, Some ds) \<Rightarrow> zip bs ds
                       | _ \<Rightarrow> []);
              selectedCount = min m candidateCount;
              sorted = hnswInsertNode_select (nat candidateCount) [0 ..< nat selectedCount] cands;
              selected = take (nat selectedCount) sorted
          in
          bindE (ReadBuffer blkno) (\<lambda>newNodePage.
            if PageIsNew newNodePage \<or> PageIsEmpty newNodePage
            then raiseE (Ereport ERRCODE_INTERNAL_ERROR ''hnsw: newly inserted page is empty'')
            else
              bindE (hnswInsertNode_link fo dim blkno currentLevel m selected
                       [0 ..< nat selectedCount])
                (\<lambda>_. hnswInsertNode_levels fuel fo vector dim blkno m efConstructionv
                       rest))))"

text \<open>
  Modelled from the spec: the free space of a freshly initialised page without special
  area, the page size less the host's page header (24 bytes) and one line pointer
  (4 bytes).
\<close>

definition PageGetFreeSpace_empty :: int where
  "PageGetFreeSpace_empty = BLCKSZ - 24 - 4"

text \<open>
  \<open>hnswInsertNode\<close>, in the steps its comments number. Step 3 is the greedy walk
  from the entry point; its result is not used.
\<close>

definition hnswInsertNode_step3 ::
  "('v, 'f, 'd::ord) float_ops \<Rightarrow> 'v \<Rightarrow> int \<Rightarrow> int
   \<Rightarrow> ('v, 'f) hnsw_state \<Rightarrow> (error + unit) \<times> ('v, 'f) hnsw_state"
where
  "hnswInsertNode_step3 fo vector dim level =
    bindE (getE metap) (\<lambda>metaPage.
      if entryPoint metaPage \<noteq> InvalidBlockNumber \<and> level > 0
      then bindE (hnswInsertNode_greedy fo vector dim level (meta_m metaPage) 0
                    (entryPoint metaPage, FLT_MAX fo)) (\<lambda>_. returnE ())
      else returnE ())"

text \<open>
  Step 4 returns \<open>blkno\<close>. \<open>ReadBuffer(index, P_NEW)\<close> extends the relation by one
  page, which \<open>PageInit\<close> makes an empty page; \<open>P_NEW\<close> is \<open>InvalidBlockNumber\<close>.
  A fresh page has no item, and \<open>PageAddItem\<close> succeeds once the free space
  suffices, so the two other errors of the step cannot arise.
\<close>

definition hnswInsertNode_step4 ::
  "'v HnswNodeData \<Rightarrow> int \<Rightarrow> ('v, 'f) hnsw_state \<Rightarrow> (error + nat) \<times> ('v, 'f) hnsw_state"
where
  "hnswInsertNode_step4 node nodeSize s =
    (let blkno = RelationGetNumberOfBlocks s;
         s1 = s\<lparr>node_pages := node_pages s @ [PageItems []],
                rd_log := rd_log s @ [InvalidBlockNumber]\<rparr>
     in
     if PageGetFreeSpace_empty < nodeSize
     then raiseE (Ereport ERRCODE_INSUFFICIENT_RESOURCES
                    ''hnsw: not enough space for new node'') s1
     else returnE blkno
            (s1\<lparr>node_pages := (node_pages s1)[blkno - 1 := PageItems [(LP_NORMAL, node)]]\<rparr>))"

definition hnswInsertNode_step5 ::
  "nat \<Rightarrow> ('v, 'f, 'd::ord) float_ops \<Rightarrow> 'v \<Rightarrow> int \<Rightarrow> int \<Rightarrow> nat
   \<Rightarrow> ('v, 'f) hnsw_state \<Rightarrow> (error + unit) \<times> ('v, 'f) hnsw_state"
where
  "hnswInsertNode_step5 fuel fo vector dim level blkno =
    bindE (getE metap) (\<lambda>metaPage.
      if entryPoint metaPage \<noteq> InvalidBlockNumber \<and> entryLevel metaPage \<ge> 0
      then
        bindE (getE RelationGetNumberOfBlocks) (\<lambda>numBlocks.
          if blkno = InvalidBlockNumber \<or> blkno \<ge> numBlocks
          then raiseE (Ereport ERRCODE_INTERNAL_ERROR
                         ''hnsw: invalid block number after insert'')
          else hnswInsertNode_levels fuel fo vector dim blkno (meta_m metaPage)
                 (efConstruction metaPage)
                 (rev [0 .. min level (entryLevel metaPage)]))
      else returnE ())"

text \<open>
  Step 6, the update of the meta page. \<open>insertedVectors\<close> is a 64-bit counter of
  insertions and is incremented without wrap-around here.
\<close>

definition hnswInsertNode_step6 ::
  "int \<Rightarrow> nat \<Rightarrow> ('v, 'f) hnsw_state \<Rightarrow> (error + unit) \<times> ('v, 'f) hnsw_state"
where
  "hnswInsertNode_step6 level blkno =
    bindE
      (\<lambda>s.
        if entryPoint (metap s) = InvalidBlockNumber \<or> level > entryLevel (metap s)
        then
          if hnswValidateBlockNumber blkno s
          then returnE ()
                 (s\<lparr>metap := (metap s)\<lparr>entryPoint := blkno, entryLevel := level\<rparr>\<rparr>)
          else raiseE (Ereport ERRCODE_INTERNAL_ERROR
                         ''hnsw: invalid block number for entry point'') s
        else returnE () s)
      (\<lambda>_. \<lambda>s.
        let meta1 = (metap s)\<lparr>insertedVectors := insertedVectors (metap s) + 1\<rparr>;
            meta2 = (if level > maxLevel meta1 then meta1\<lparr>maxLevel := level\<rparr> else meta1)
        in returnE () (s\<lparr>metap := meta2\<rparr>))"

text \<open>
  The whole function. \<open>node->dim\<close> is an \<open>int16\<close>: a dimension that does not fit
  moves the neighbour table off its place.
\<close>

definition hnswInsertNode ::
  "nat \<Rightarrow> ('v, 'f, 'd::ord) float_ops \<Rightarrow> 'v \<Rightarrow> int \<Rightarrow> nat \<times> nat
   \<Rightarrow> ('v, 'f) hnsw_state \<Rightarrow> (error + unit) \<times> ('v, 'f) hnsw_state"
where
  "hnswInsertNode fuel fo vector dim heapPtrv =
    bindE (getE metap) (\<lambda>metaPage.
    bindE (hnswGetRandomLevel fo (ml metaPage)) (\<lambda>level.
      let level = (if level \<ge> HNSW_MAX_LEVEL then HNSW_MAX_LEVEL - 1 else level) in
      if \<not> hnswValidateLevelSafe level
      then raiseE (Ereport ERRCODE_INTERNAL_ERROR ''hnsw: failed to generate valid level'')
      else
        bindE (getE metap) (\<lambda>metaPage.
        let m = meta_m metaPage;
            nodeSize = fst (hnswComputeNodeSizeSafe dim level m);
            overflow = snd (hnswComputeNodeSizeSafe dim level m)
        in
        if overflow \<or> nodeSize = 0
        then raiseE (Ereport ERRCODE_NUMERIC_VALUE_OUT_OF_RANGE
                       ''hnsw: node size calculation overflow'')
        else if int16 dim \<noteq> dim
        then raiseE (Undefined ''neighbor table placed with a truncated node->dim'')
        else
          let node = \<lparr>heapPtr = heapPtrv, node_level = level, node_dim = int16 dim,
                      neighborCount = (\<lambda>_. 0), node_vector = vector,
                      node_neighbors = replicate (nat ((level + 1) * (m * 2))) InvalidBlockNumber,
                      node_beyond = (\<lambda>_. None)\<rparr>
          in
          bindE (hnswInsertNode_step3 fo vector dim level) (\<lambda>_.
          bindE (hnswInsertNode_step4 node nodeSize) (\<lambda>blkno.
          bindE (hnswInsertNode_step5 fuel fo vector dim level blkno) (\<lambda>_.
          hnswInsertNode_step6 level blkno))))))"

section \<open>Deletion: \<open>hnswRemoveNodeFromNeighbor\<close> and \<open>hnswbulkdelete\<close>\<close>

text \<open>
  The search of \<open>hnswRemoveNodeFromNeighbor\<close> for the first \<open>i\<close> with
  \<open>neighbors[i] == nodeBlkno\<close>.
\<close>

fun hnswRemoveNodeFromNeighbor_find ::
  "'v HnswNodeData \<Rightarrow> int \<Rightarrow> int \<Rightarrow> nat \<Rightarrow> int list \<Rightarrow> 's \<Rightarrow> (error + int option) \<times> 's"
where
  "hnswRemoveNodeFromNeighbor_find neighbor level m nodeBlkno [] = returnE None"
| "hnswRemoveNodeFromNeighbor_find neighbor level m nodeBlkno (i # rest) =
    bindE (get_neighbor neighbor level m i) (\<lambda>nb.
      if nb = nodeBlkno then returnE (Some i)
      else hnswRemoveNodeFromNeighbor_find neighbor level m nodeBlkno rest)"

text \<open>\<open>for (j = i; j < neighborCount - 1; j++) neighbors[j] = neighbors[j + 1]\<close>.\<close>

fun hnswRemoveNodeFromNeighbor_shift ::
  "int \<Rightarrow> int \<Rightarrow> int list \<Rightarrow> 'v HnswNodeData \<Rightarrow> 's \<Rightarrow> (error + 'v HnswNodeData) \<times> 's"
where
  "hnswRemoveNodeFromNeighbor_shift level m [] neighbor = returnE neighbor"
| "hnswRemoveNodeFromNeighbor_shift level m (j # rest) neighbor =
    bindE (get_neighbor neighbor level m (j + 1)) (\<lambda>b.
    bindE (set_neighbor neighbor level m j b)
      (hnswRemoveNodeFromNeighbor_shift level m rest))"

definition hnswRemoveNodeFromNeighbor ::
  "nat \<Rightarrow> nat \<Rightarrow> int \<Rightarrow> ('v, 'f) hnsw_state \<Rightarrow> (error + unit) \<times> ('v, 'f) hnsw_state"
where
  "hnswRemoveNodeFromNeighbor neighborBlkno nodeBlkno level s =
    (if \<not> hnswValidateBlockNumber neighborBlkno s then returnE () s
     else if \<not> hnswValidateLevelSafe level then returnE () s
     else
       bindE (ReadBuffer neighborBlkno) (\<lambda>page.
         if PageIsEmpty page then returnE ()
         else
           bindE (PageGetFirstItem page) (\<lambda>neighbor.
             if \<not> hnswValidateLevelSafe (node_level neighbor) then returnE ()
             else
               bindE ReadMetaPage (\<lambda>meta.
                 let m = meta_m meta;
                     neighborCnt = hnswValidateNeighborCount (neighborCount neighbor (nat level))
                                     m level
                 in
                 bindE (hnswRemoveNodeFromNeighbor_find neighbor level m nodeBlkno
                          [0 .. neighborCnt - 1]) (\<lambda>found.
                   case found of
                     None \<Rightarrow> returnE ()
                   | Some i \<Rightarrow>
                       bindE (hnswRemoveNodeFromNeighbor_shift level m [i .. neighborCnt - 2]
                                neighbor) (\<lambda>n1.
                       bindE (set_neighbor n1 level m (neighborCnt - 1) InvalidBlockNumber)
                         (\<lambda>n2.
                           modifyE
                             (write_node neighborBlkno
                                (n2\<lparr>neighborCount :=
                                   (neighborCount n2)(nat level :=
                                      int16 (neighborCount n2 (nat level) - 1))\<rparr>)))))))) s)"

text \<open>
  A read through the pointer \<open>node\<close> of \<open>hnswbulkdelete\<close>, the item at offset
  \<open>offnum\<close> of block \<open>blkno\<close>, as the page is at the time of the read.
\<close>

definition deref_item ::
  "nat \<Rightarrow> nat \<Rightarrow> ('v, 'f) hnsw_state \<Rightarrow> (error + lp_flags \<times> 'v HnswNodeData) \<times> ('v, 'f) hnsw_state"
where
  "deref_item blkno offnum s =
    (if 1 \<le> blkno \<and> blkno < RelationGetNumberOfBlocks s then
       (case node_pages s ! (blkno - 1) of
          PageNew \<Rightarrow> (Inl (Undefined ''PageGetItem on a page without items''), s)
        | PageItems its \<Rightarrow>
           if 1 \<le> offnum \<and> offnum \<le> length its then (Inr (its ! (offnum - 1)), s)
           else (Inl (Undefined ''PageGetItem outside the line pointers''), s))
     else (Inl (Undefined ''PageGetItem on a page without items''), s))"

text \<open>
  \<open>ItemIdSetDead\<close> on the line pointer \<open>offnum\<close> of block \<open>blkno\<close>. The host macro sets
  \<open>lp_flags = LP_DEAD\<close>, \<open>lp_off = 0\<close> and \<open>lp_len = 0\<close>. What a later
  \<open>PageGetItem\<close> through the pointer reads, the page header taken for a
  \<open>HnswNodeData\<close>, depends on the host's page layout: it is the parameter
  \<open>page_header\<close>, a function of the page.
\<close>

definition ItemIdSetDead ::
  "('v Page \<Rightarrow> 'v HnswNodeData) \<Rightarrow> nat \<Rightarrow> nat \<Rightarrow> ('v, 'f) hnsw_state \<Rightarrow> ('v, 'f) hnsw_state"
where
  "ItemIdSetDead page_header blkno offnum s =
    (if 1 \<le> blkno \<and> blkno < RelationGetNumberOfBlocks s then
       (case node_pages s ! (blkno - 1) of
          PageNew \<Rightarrow> s
        | PageItems its \<Rightarrow>
           if 1 \<le> offnum \<and> offnum \<le> length its
           then s\<lparr>node_pages := (node_pages s)[blkno - 1 :=
                    PageItems (its[offnum - 1 := (LP_DEAD, page_header (PageItems its))])]\<rparr>
           else s)
     else s)"

text \<open>
  The first loop nest of the deletion: for every level of the node and every valid
  neighbour in its list, \<open>hnswRemoveNodeFromNeighbor\<close>.
\<close>

fun hnswbulkdelete_unlink_level ::
  "nat \<Rightarrow> nat \<Rightarrow> int \<Rightarrow> int \<Rightarrow> int list
   \<Rightarrow> ('v, 'f) hnsw_state \<Rightarrow> (error + unit) \<times> ('v, 'f) hnsw_state"
where
  "hnswbulkdelete_unlink_level blkno offnum level m [] = returnE ()"
| "hnswbulkdelete_unlink_level blkno offnum level m (i # rest) =
    bindE (deref_item blkno offnum) (\<lambda>it.
    bindE (get_neighbor (snd it) level m i) (\<lambda>nb. \<lambda>s.
      if nb \<noteq> InvalidBlockNumber \<and> hnswValidateBlockNumber nb s
      then bindE (hnswRemoveNodeFromNeighbor nb blkno level)
             (\<lambda>_. hnswbulkdelete_unlink_level blkno offnum level m rest) s
      else hnswbulkdelete_unlink_level blkno offnum level m rest s))"

fun hnswbulkdelete_unlink ::
  "nat \<Rightarrow> nat \<Rightarrow> int list \<Rightarrow> ('v, 'f) hnsw_state \<Rightarrow> (error + unit) \<times> ('v, 'f) hnsw_state"
where
  "hnswbulkdelete_unlink blkno offnum [] = returnE ()"
| "hnswbulkdelete_unlink blkno offnum (level # levels) =
    bindE (deref_item blkno offnum) (\<lambda>it.
    bindE (getE metap) (\<lambda>meta.
      bindE (hnswbulkdelete_unlink_level blkno offnum level (meta_m meta)
               [0 .. hnswValidateNeighborCount (neighborCount (snd it) (nat level))
                       (meta_m meta) level - 1])
        (\<lambda>_. hnswbulkdelete_unlink blkno offnum levels)))"

text \<open>
  The replacement of the entry point in \<open>hnswbulkdelete\<close>: the loops run from the
  node's level down and stop at the first neighbour that is valid, on a page that is
  not empty and of a valid level (\<open>foundNewEntry\<close>). The result is that neighbour and
  its level, which the source stores in the meta page inside the loop.
\<close>

fun hnswbulkdelete_entry_level ::
  "nat \<Rightarrow> nat \<Rightarrow> int \<Rightarrow> int \<Rightarrow> int list
   \<Rightarrow> ('v, 'f) hnsw_state \<Rightarrow> (error + (nat \<times> int) option) \<times> ('v, 'f) hnsw_state"
where
  "hnswbulkdelete_entry_level blkno offnum level m [] = returnE None"
| "hnswbulkdelete_entry_level blkno offnum level m (i # rest) =
    bindE (deref_item blkno offnum) (\<lambda>it.
    bindE (get_neighbor (snd it) level m i) (\<lambda>nb. \<lambda>s.
      if nb \<noteq> InvalidBlockNumber \<and> hnswValidateBlockNumber nb s then
        bindE (ReadBuffer nb) (\<lambda>tmpPage.
          if \<not> PageIsEmpty tmpPage then
            bindE (PageGetFirstItem tmpPage) (\<lambda>tmpNode.
              if hnswValidateLevelSafe (node_level tmpNode)
              then returnE (Some (nb, node_level tmpNode))
              else hnswbulkdelete_entry_level blkno offnum level m rest)
          else hnswbulkdelete_entry_level blkno offnum level m rest) s
      else hnswbulkdelete_entry_level blkno offnum level m rest s))"

fun hnswbulkdelete_entry ::
  "nat \<Rightarrow> nat \<Rightarrow> int list
   \<Rightarrow> ('v, 'f) hnsw_state \<Rightarrow> (error + (nat \<times> int) option) \<times> ('v, 'f) hnsw_state"
where
  "hnswbulkdelete_entry blkno offnum [] = returnE None"
| "hnswbulkdelete_entry blkno offnum (level # levels) =
    bindE (deref_item blkno offnum) (\<lambda>it.
    bindE (getE metap) (\<lambda>meta.
      bindE (hnswbulkdelete_entry_level blkno offnum level (meta_m meta)
               [0 .. hnswValidateNeighborCount (neighborCount (snd it) (nat level))
                       (meta_m meta) level - 1])
        (\<lambda>r. case r of
                Some e \<Rightarrow> returnE (Some e)
              | None \<Rightarrow> hnswbulkdelete_entry blkno offnum levels)))"

text \<open>
  The block \<open>if (meta->entryPoint == blkno) { ... }\<close> for the node at
  \<open>(blkno, offnum)\<close>.
\<close>

definition hnswbulkdelete_replace_entry ::
  "nat \<Rightarrow> nat \<Rightarrow> ('v, 'f) hnsw_state \<Rightarrow> (error + unit) \<times> ('v, 'f) hnsw_state"
where
  "hnswbulkdelete_replace_entry blkno offnum s =
    (if entryPoint (metap s) = blkno then
       bindE (deref_item blkno offnum) (\<lambda>it.
       bindE (hnswbulkdelete_entry blkno offnum (rev [0 .. node_level (snd it)])) (\<lambda>r.
         case r of
           Some e \<Rightarrow>
             modifyE (\<lambda>s. s\<lparr>metap := (metap s)\<lparr>entryPoint := fst e, entryLevel := snd e\<rparr>\<rparr>)
         | None \<Rightarrow>
             modifyE (\<lambda>s. s\<lparr>metap := (metap s)\<lparr>entryPoint := InvalidBlockNumber,
                                              entryLevel := - 1\<rparr>\<rparr>)))
         s
     else returnE () s)"

text \<open>
  The same block in \<open>hnswdelete\<close>, the single-tuple delete (declared
  \<open>__attribute__((unused))\<close>; its only caller is \<open>hnswupdate\<close>): its loops run over all
  the levels and all the neighbours and keep in \<open>bestLevel\<close>, \<open>bestEntry\<close> and
  \<open>foundNewEntry\<close> the neighbour of the highest level, the first one among equals.
  \<open>ItemIdIsValid\<close> is the host's test that the pointer is not \<open>NULL\<close>.
\<close>

fun hnswdelete_entry_level ::
  "nat \<Rightarrow> nat \<Rightarrow> int \<Rightarrow> int \<Rightarrow> int list \<Rightarrow> int \<times> nat \<times> bool
   \<Rightarrow> ('v, 'f) hnsw_state \<Rightarrow> (error + int \<times> nat \<times> bool) \<times> ('v, 'f) hnsw_state"
where
  "hnswdelete_entry_level blkno offnum level m [] best = returnE best"
| "hnswdelete_entry_level blkno offnum level m (i # rest) best =
    bindE (deref_item blkno offnum) (\<lambda>it.
    bindE (get_neighbor (snd it) level m i) (\<lambda>nb. \<lambda>s.
      if nb \<noteq> InvalidBlockNumber \<and> hnswValidateBlockNumber nb s then
        bindE (ReadBuffer nb) (\<lambda>neighborPage.
          if \<not> PageIsEmpty neighborPage then
            bindE (PageGetFirstItem neighborPage) (\<lambda>neighborNode.
              if hnswValidateLevelSafe (node_level neighborNode)
                 \<and> node_level neighborNode > fst best
              then hnswdelete_entry_level blkno offnum level m rest
                     (node_level neighborNode, nb, True)
              else hnswdelete_entry_level blkno offnum level m rest best)
          else hnswdelete_entry_level blkno offnum level m rest best) s
      else hnswdelete_entry_level blkno offnum level m rest best s))"

fun hnswdelete_entry ::
  "nat \<Rightarrow> nat \<Rightarrow> int list \<Rightarrow> int \<times> nat \<times> bool
   \<Rightarrow> ('v, 'f) hnsw_state \<Rightarrow> (error + int \<times> nat \<times> bool) \<times> ('v, 'f) hnsw_state"
where
  "hnswdelete_entry blkno offnum [] best = returnE best"
| "hnswdelete_entry blkno offnum (level # levels) best =
    bindE (deref_item blkno offnum) (\<lambda>it.
    bindE (getE metap) (\<lambda>meta.
      bindE (hnswdelete_entry_level blkno offnum level (meta_m meta)
               [0 .. hnswValidateNeighborCount (neighborCount (snd it) (nat level))
                       (meta_m meta) level - 1] best)
        (hnswdelete_entry blkno offnum levels)))"

definition hnswdelete_replace_entry ::
  "nat \<Rightarrow> nat \<Rightarrow> ('v, 'f) hnsw_state \<Rightarrow> (error + unit) \<times> ('v, 'f) hnsw_state"
where
  "hnswdelete_replace_entry blkno offnum s =
    (if entryPoint (metap s) = blkno then
       bindE (deref_item blkno offnum) (\<lambda>it.
       bindE (hnswdelete_entry blkno offnum (rev [0 .. node_level (snd it)])
                (- 1, InvalidBlockNumber, False)) (\<lambda>best.
         if snd (snd best) then
           modifyE (\<lambda>s. s\<lparr>metap := (metap s)\<lparr>entryPoint := fst (snd best),
                                                entryLevel := fst best\<rparr>\<rparr>)
         else
           modifyE (\<lambda>s. s\<lparr>metap := (metap s)\<lparr>entryPoint := InvalidBlockNumber,
                                                entryLevel := - 1\<rparr>\<rparr>)))
         s
     else returnE () s)"

text \<open>
  The body of \<open>if (callback(&node->heapPtr, callback_state))\<close> for the item at
  \<open>(blkno, offnum)\<close>: unlink, replace the entry point if the node was it, mark the item
  dead, and decrement \<open>insertedVectors\<close>, not below 0.
\<close>

definition hnswbulkdelete_node ::
  "('v Page \<Rightarrow> 'v HnswNodeData) \<Rightarrow> nat \<Rightarrow> nat
     \<Rightarrow> ('v, 'f) hnsw_state \<Rightarrow> (error + unit) \<times> ('v, 'f) hnsw_state"
where
  "hnswbulkdelete_node page_header blkno offnum =
    bindE (deref_item blkno offnum) (\<lambda>it.
    bindE (hnswbulkdelete_unlink blkno offnum [0 .. node_level (snd it)]) (\<lambda>_.
    bindE (hnswbulkdelete_replace_entry blkno offnum) (\<lambda>_.
    bindE (modifyE (ItemIdSetDead page_header blkno offnum)) (\<lambda>_.
      modifyE (\<lambda>s.
        let n = insertedVectors (metap s) - 1
        in s\<lparr>metap := (metap s)\<lparr>insertedVectors := (if n < 0 then 0 else n)\<rparr>\<rparr>)))))"

text \<open>
  \<open>hnswbulkdelete\<close>: the loop over the line pointers of a page and the loop over the
  blocks from 1 on. \<open>callback\<close> is the host's predicate, true for a row to delete;
  \<open>page_header\<close> is passed on to \<open>ItemIdSetDead\<close>.
  The result counts \<open>stats->tuples_removed\<close>.
\<close>

fun hnswbulkdelete_items ::
  "('v Page \<Rightarrow> 'v HnswNodeData) \<Rightarrow> (nat \<times> nat \<Rightarrow> bool) \<Rightarrow> nat \<Rightarrow> nat list \<Rightarrow> nat
   \<Rightarrow> ('v, 'f) hnsw_state \<Rightarrow> (error + nat) \<times> ('v, 'f) hnsw_state"
where
  "hnswbulkdelete_items page_header callback blkno [] removed = returnE removed"
| "hnswbulkdelete_items page_header callback blkno (offnum # rest) removed =
    bindE (deref_item blkno offnum) (\<lambda>it.
      if fst it = LP_DEAD then hnswbulkdelete_items page_header callback blkno rest removed
      else if \<not> hnswValidateLevelSafe (node_level (snd it))
      then hnswbulkdelete_items page_header callback blkno rest removed
      else if callback (heapPtr (snd it))
      then bindE (hnswbulkdelete_node page_header blkno offnum)
             (\<lambda>_. hnswbulkdelete_items page_header callback blkno rest (removed + 1))
      else hnswbulkdelete_items page_header callback blkno rest removed)"

fun hnswbulkdelete_blocks ::
  "('v Page \<Rightarrow> 'v HnswNodeData) \<Rightarrow> (nat \<times> nat \<Rightarrow> bool) \<Rightarrow> nat list \<Rightarrow> nat
   \<Rightarrow> ('v, 'f) hnsw_state \<Rightarrow> (error + nat) \<times> ('v, 'f) hnsw_state"
where
  "hnswbulkdelete_blocks page_header callback [] removed = returnE removed"
| "hnswbulkdelete_blocks page_header callback (blkno # rest) removed =
    bindE (ReadBuffer blkno) (\<lambda>nodePage.
      if PageIsNew nodePage \<or> PageIsEmpty nodePage
      then hnswbulkdelete_blocks page_header callback rest removed
      else
        bindE (hnswbulkdelete_items page_header callback blkno
                 [1 ..< Suc (PageGetMaxOffsetNumber nodePage)] removed)
          (hnswbulkdelete_blocks page_header callback rest))"

definition hnswbulkdelete ::
  "('v Page \<Rightarrow> 'v HnswNodeData) \<Rightarrow> (nat \<times> nat \<Rightarrow> bool) \<Rightarrow> nat
     \<Rightarrow> ('v, 'f) hnsw_state \<Rightarrow> (error + nat) \<times> ('v, 'f) hnsw_state"
where
  "hnswbulkdelete page_header callback tuples_removed =
    bindE ReadMetaPage (\<lambda>_.
    bindE (getE RelationGetNumberOfBlocks) (\<lambda>numBlocks.
      hnswbulkdelete_blocks page_header callback [1 ..< numBlocks] tuples_removed))"

section \<open>Invariants of a run, and an example index\<close>

text \<open>
  \<open>preserves P f\<close>: the step \<open>f\<close> leaves a state satisfying \<open>P\<close> in one
  satisfying \<open>P\<close>, whether it returns or raises. The three conditions on \<open>P\<close> say
  that it does not depend on the log of reads, that it admits one more distance
  computation with strategy \<open>k\<close>, and that it admits a write to a node.
\<close>

definition preserves :: "('s \<Rightarrow> bool) \<Rightarrow> ('s \<Rightarrow> (error + 'a) \<times> 's) \<Rightarrow> bool" where
  "preserves P f = (\<forall>s. P s \<longrightarrow> P (snd (f s)))"

definition log_stable :: "(('v, 'f) hnsw_state \<Rightarrow> bool) \<Rightarrow> bool" where
  "log_stable P = (\<forall>s x. P s \<longrightarrow> P (s\<lparr>rd_log := x\<rparr>))"

definition dist_ok :: "int \<Rightarrow> (('v, 'f) hnsw_state \<Rightarrow> bool) \<Rightarrow> bool" where
  "dist_ok k P = (\<forall>s. P s \<longrightarrow> P (s\<lparr>dist_log := dist_log s @ [k]\<rparr>))"

definition write_ok :: "(('v, 'f) hnsw_state \<Rightarrow> bool) \<Rightarrow> bool" where
  "write_ok P = (\<forall>s b n. P s \<longrightarrow> P (write_node b n s))"

named_theorems pres

text \<open>
  Since the log of distance computations was \<open>log0\<close>, only strategy 1 has been used;
  and: the meta page is \<open>M\<close> and the relation has \<open>n\<close> node pages.
\<close>

definition L2_only_since :: "int list \<Rightarrow> ('v, 'f) hnsw_state \<Rightarrow> bool" where
  "L2_only_since log0 s = (\<exists>ds. dist_log s = log0 @ ds \<and> (\<forall>x\<in>set ds. x = 1))"

definition meta_kept :: "'f HnswMetaPageData \<Rightarrow> nat \<Rightarrow> ('v, 'f) hnsw_state \<Rightarrow> bool" where
  "meta_kept M n s = (metap s = M \<and> length (node_pages s) = n)"

text \<open>
  An instance to run the model on: vectors of integers with the squared Euclidean
  distance for strategy 1, and the level \<open>r - 1\<close> for the draw \<open>r\<close>. \<open>ex_state0\<close> is
  an index just built with \<open>m = 2\<close> and \<open>ef_construction = ef_search = 4\<close>;
  \<open>ex_state1\<close> holds the node of \<open>[10, 0, 0]\<close> in block 1.
\<close>

definition ex_float_ops :: "(int list, unit, int) float_ops" where
  "ex_float_ops =
    \<lparr>l2_distance = (\<lambda>a b d. sum_list (map2 (\<lambda>x y. (x - y) * (x - y)) a b)),
     cosine_distance = (\<lambda>a b d. 0),
     negative_inner_product = (\<lambda>a b d. - sum_list (map2 (\<lambda>x y. x * y) a b)),
     FLT_MAX = 1000000,
     neg_log_times_ml = (\<lambda>r mlv. int r - 1)\<rparr>"

definition ex_node ::
  "nat \<times> nat \<Rightarrow> int \<Rightarrow> int list \<Rightarrow> (nat \<Rightarrow> int) \<Rightarrow> nat list \<Rightarrow> int list HnswNodeData"
where
  "ex_node tid lev v cnt nbs =
    \<lparr>heapPtr = tid, node_level = lev, node_dim = 3, neighborCount = cnt, node_vector = v,
     node_neighbors = nbs, node_beyond = (\<lambda>_. None)\<rparr>"

text \<open>
  For the examples the page header reads as a node of level 0 without neighbours.
\<close>

definition ex_page_header :: "int list Page \<Rightarrow> int list HnswNodeData" where
  "ex_page_header page = ex_node (0, 0) 0 [] (\<lambda>_. 0) []"

definition ex_state0 :: "(int list, unit) hnsw_state" where
  "ex_state0 =
    \<lparr>metap = hnswInitMetaPage 2 4 4 (), node_pages = [], prng = [0, 1], rd_log = [],
     dist_log = []\<rparr>"

definition ex_state1 :: "(int list, unit) hnsw_state" where
  "ex_state1 =
    \<lparr>metap = (hnswInitMetaPage 2 4 4 ())\<lparr>entryPoint := 1, entryLevel := 0, maxLevel := 0,
                                            insertedVectors := 1\<rparr>,
     node_pages = [PageItems [(LP_NORMAL, ex_node (1, 1) 0 [10, 0, 0] (\<lambda>_. 0)
                     (replicate 4 InvalidBlockNumber))]],
     prng = [1], rd_log = [], dist_log = []\<rparr>"

text \<open>
  The scan state after \<open>hnswbeginscan\<close> and a rescan of \<open>ex_state1\<close> ordered by the
  distance to \<open>[10, 0, 0]\<close>, with both session settings unset.
\<close>

definition ex_scan_vector :: "(int list, int) HnswScanOpaqueData" where
  "ex_scan_vector =
    hnswbeginscan\<lparr>so_efSearch := 4, so_queryVector := Some ([10, 0, 0], 3), so_k := 10\<rparr>"

text \<open>
  \<open>ex_state3\<close> holds three nodes with \<open>m = 2\<close>: the entry point in block 1 with level 1
  and the level-0 neighbours 2 and 3, a node of level 0 in block 2 and a node of level 1 in
  block 3, both linked back to block 1.
\<close>

definition ex_state3 :: "(int list, unit) hnsw_state" where
  "ex_state3 =
    \<lparr>metap = (hnswInitMetaPage 2 4 4 ())\<lparr>entryPoint := 1, entryLevel := 1, maxLevel := 1,
                                            insertedVectors := 3\<rparr>,
     node_pages =
       [PageItems [(LP_NORMAL, ex_node (1, 1) 1 [10, 0, 0] ((\<lambda>_. 0)(0 := 2))
                     [2, 3, 4294967295, 4294967295, 4294967295, 4294967295, 4294967295,
                      4294967295])],
        PageItems [(LP_NORMAL, ex_node (1, 2) 0 [0, 10, 0] ((\<lambda>_. 0)(0 := 1))
                     [1, 4294967295, 4294967295, 4294967295])],
        PageItems [(LP_NORMAL, ex_node (1, 3) 1 [0, 0, 10] ((\<lambda>_. 0)(0 := 1))
                     [1, 4294967295, 4294967295, 4294967295, 4294967295, 4294967295, 4294967295,
                      4294967295])]],
     prng = [], rd_log = [], dist_log = []\<rparr>"

text \<open>
  A larger example, with \<open>m = 2\<close> and all nodes of level 0. \<open>ex_chain k\<close> is the index
  after \<open>k\<close> of the six insertions \<open>ex_insert_all\<close> runs from the empty index
  \<open>ex_chain 0\<close>, with empty logs; the vectors are the origin and five unit vectors. In
  \<open>ex_chain 5\<close> the neighbour list of block 1 is full, so that the sixth node, in block 6,
  lists block 1 and is not listed by it.
\<close>

definition ex_page :: "nat \<Rightarrow> int list \<Rightarrow> int \<Rightarrow> nat list \<Rightarrow> int list Page" where
  "ex_page k v cnt nbs = PageItems [(LP_NORMAL, ex_node (1, k) 0 v ((\<lambda>_. 0)(0 := cnt)) nbs)]"

definition ex_level0 :: "int \<Rightarrow> int list Page list \<Rightarrow> nat list \<Rightarrow> (int list, unit) hnsw_state" where
  "ex_level0 k pages rs =
    \<lparr>metap = (hnswInitMetaPage 2 4 4 ())\<lparr>entryPoint := 1, entryLevel := 0, maxLevel := 0,
                                            insertedVectors := k\<rparr>,
     node_pages = pages, prng = rs, rd_log = [], dist_log = []\<rparr>"

definition ex_chain :: "nat \<Rightarrow> (int list, unit) hnsw_state" where
  "ex_chain k =
    (if k = 0 then ex_state0\<lparr>prng := [1, 1, 1, 1, 1, 1]\<rparr>
     else if k = 1 then
       ex_level0 1
         [ex_page 1 [0, 0, 0] 0 [4294967295, 4294967295, 4294967295, 4294967295]]
         [1, 1, 1, 1, 1]
     else if k = 2 then
       ex_level0 2
         [ex_page 1 [0, 0, 0] 1 [2, 4294967295, 4294967295, 4294967295],
          ex_page 2 [1, 0, 0] 1 [1, 4294967295, 4294967295, 4294967295]]
         [1, 1, 1, 1]
     else if k = 3 then
       ex_level0 3
         [ex_page 1 [0, 0, 0] 2 [2, 3, 4294967295, 4294967295],
          ex_page 2 [1, 0, 0] 2 [1, 3, 4294967295, 4294967295],
          ex_page 3 [0, 1, 0] 2 [1, 2, 4294967295, 4294967295]]
         [1, 1, 1]
     else if k = 4 then
       ex_level0 4
         [ex_page 1 [0, 0, 0] 3 [2, 3, 4, 4294967295],
          ex_page 2 [1, 0, 0] 3 [1, 3, 4, 4294967295],
          ex_page 3 [0, 1, 0] 2 [1, 2, 4294967295, 4294967295],
          ex_page 4 [0, 0, 1] 2 [1, 2, 4294967295, 4294967295]]
         [1, 1]
     else if k = 5 then
       ex_level0 5
         [ex_page 1 [0, 0, 0] 4 [2, 3, 4, 5],
          ex_page 2 [1, 0, 0] 3 [1, 3, 4, 4294967295],
          ex_page 3 [0, 1, 0] 3 [1, 2, 5, 4294967295],
          ex_page 4 [0, 0, 1] 2 [1, 2, 4294967295, 4294967295],
          ex_page 5 [- 1, 0, 0] 2 [1, 3, 4294967295, 4294967295]]
         [1]
     else
       ex_level0 6
         [ex_page 1 [0, 0, 0] 4 [2, 3, 4, 5],
          ex_page 2 [1, 0, 0] 4 [1, 3, 4, 6],
          ex_page 3 [0, 1, 0] 3 [1, 2, 5, 4294967295],
          ex_page 4 [0, 0, 1] 2 [1, 2, 4294967295, 4294967295],
          ex_page 5 [- 1, 0, 0] 2 [1, 3, 4294967295, 4294967295],
          ex_page 6 [0, - 1, 0] 2 [1, 2, 4294967295, 4294967295]]
         [])"

fun ex_insert_all ::
  "(int list \<times> nat \<times> nat) list \<Rightarrow> (int list, unit) hnsw_state
     \<Rightarrow> (error + unit) \<times> (int list, unit) hnsw_state"
where
  "ex_insert_all [] = returnE ()"
| "ex_insert_all (x # rest) =
     bindE (hnswInsertNode 5 ex_float_ops (fst x) 3 (snd x)) (\<lambda>_. ex_insert_all rest)"

section \<open>Reading the graph off the pages\<close>

text \<open>
  What the deletion code sees of the graph, as functions of the state, to state its effect
  with. \<open>first_node s b\<close> is the node the code reads from block \<open>b\<close>: the first item of
  the page, of a block inside the relation. \<open>listed_neighbors n m level\<close> are the entries of
  the level's run of slots below the clamped count, in slot order; a slot without a value
  lists nothing.
\<close>

definition page_of :: "('v, 'f) hnsw_state \<Rightarrow> nat \<Rightarrow> 'v Page" where
  "page_of s blkno = (if blkno = 0 then PageItems [] else node_pages s ! (blkno - 1))"

definition first_node :: "('v, 'f) hnsw_state \<Rightarrow> nat \<Rightarrow> 'v HnswNodeData option" where
  "first_node s blkno =
    (if blkno < RelationGetNumberOfBlocks s then
       (case page_of s blkno of
          PageNew \<Rightarrow> None
        | PageItems its \<Rightarrow> (case its of [] \<Rightarrow> None | it # _ \<Rightarrow> Some (snd it)))
     else None)"

definition listed_neighbors :: "'v HnswNodeData \<Rightarrow> int \<Rightarrow> int \<Rightarrow> nat list" where
  "listed_neighbors n m level =
    List.map_filter (\<lambda>i. neighbor_slot n (nat (level * m * 2 + i)))
      [0 .. hnswValidateNeighborCount (neighborCount n (nat level)) m level - 1]"

section \<open>Properties\<close>

subsection \<open>Option validation\<close>

text \<open>
  C9 does not hold of the code. The five checks of \<open>hnswoptions\<close> are the ones the claim
  lists, but they are made on \<open>VARDATA(result)\<close>, four bytes into the struct: the test
  on \<open>m\<close> reads \<open>ef_construction\<close>, the test on \<open>ef_construction\<close> reads
  \<open>ef_search\<close>, and the test on \<open>ef_search\<close> reads the word behind the struct. For the
  defaults \<open>m = 16\<close>, \<open>ef_construction = 200\<close>, \<open>ef_search = 64\<close>, all inside their
  ranges, validation raises the error on \<open>m\<close>, whatever lies behind the struct, while
  \<open>hnswLoadOptions\<close> reads the three values of the same struct as they are.
\<close>

theorem hnswoptions_rejects_defaults:
  "hnswoptions (\<lambda>r v. Inr (Some r)) past
      \<lparr>vl_len_ = 16, opt_m = 16, opt_ef_construction = 200, opt_ef_search = 64\<rparr> True
     = Inl (Ereport ERRCODE_INVALID_PARAMETER_VALUE ''hnsw: parameter m must be between'')
   \<and> hnswLoadOptions (\<lambda>r v. Inr (Some r))
      \<lparr>vl_len_ = 16, opt_m = 16, opt_ef_construction = 200, opt_ef_search = 64\<rparr>
     = Inr (16, 200, 64)"
  by (simp add: hnswoptions_def hnswLoadOptions_def VARDATA_def Let_def HNSW_MIN_M_def
      HNSW_MAX_M_def)

subsection \<open>Node size\<close>

lemma size_t_id: "0 \<le> x \<Longrightarrow> x < 2 ^ 64 \<Longrightarrow> size_t x = x"
  by (simp add: size_t_def)

lemma int32_id: "- (2 ^ 31) \<le> x \<Longrightarrow> x < 2 ^ 31 \<Longrightarrow> int32 x = x"
  by (simp add: int32_def)

lemma neighbor_slots_bound:
  fixes level m :: int
  assumes "0 \<le> level" "level \<le> 15" "2 \<le> m" "m \<le> 128"
  shows "0 \<le> (level + 1) * m \<and> (level + 1) * m \<le> 2048"
proof -
  have "(level + 1) * m \<le> 16 * 128"
    using assms by (intro mult_mono) auto
  then show ?thesis using assms by simp
qed

text \<open>
  C3, as the code has it. For every \<open>dim\<close> in \<open>[1, 32767]\<close>, \<open>level\<close> in \<open>[0, 15]\<close>
  and \<open>m\<close> in \<open>[2, 128]\<close> the computation leaves the overflow flag clear and returns
  exactly the mathematical size, the header plus \<open>4 * dim\<close> plus \<open>8 * (level + 1) * m\<close>
  rounded up to a multiple of 8: never a wrapped-around value. The function does not
  compare the size with the page size.
\<close>

theorem hnswComputeNodeSizeSafe_exact:
  assumes "1 \<le> dim" "dim \<le> 32767" "0 \<le> level" "level \<le> 15" "2 \<le> m" "m \<le> 128"
  shows "hnswComputeNodeSizeSafe dim level m =
           ((48 + 4 * dim + 8 * ((level + 1) * m) + 7) div 8 * 8, False)"
proof -
  define p where "p = (level + 1) * m"
  have p: "0 \<le> p" "p \<le> 2048"
    using neighbor_slots_bound [OF assms(3-6)] by (simp_all add: p_def)
  have l1: "int32 (level + 1) = level + 1" using assms by (simp add: int32_id)
  have sd: "size_t dim = dim" using assms by (simp add: size_t_id)
  have sl: "size_t (level + 1) = level + 1" using assms by (simp add: size_t_id)
  have sm: "size_t m = m" using assms by (simp add: size_t_id)
  have vsz: "size_t (size_t dim * sizeof_float4) = 4 * dim"
    using assms by (simp add: sd sizeof_float4_def size_t_id)
  have nsz2: "size_t (size_t (int32 (level + 1)) * size_t m * 2) = 2 * p"
    unfolding l1 sl sm p_def [symmetric] using p by (simp add: size_t_id)
  have nsz: "size_t (size_t (int32 (level + 1)) * size_t m * 2 * sizeof_BlockNumber) = 8 * p"
    unfolding l1 sl sm p_def [symmetric]
    using p by (simp add: size_t_id sizeof_BlockNumber_def)
  have tsz: "size_t (sizeof_HnswNodeData + 4 * dim + 8 * p) = 48 + 4 * dim + 8 * p"
    using assms p by (simp add: size_t_id sizeof_HnswNodeData_def)
  have mal: "MAXALIGN (48 + 4 * dim + 8 * p) = (48 + 4 * dim + 8 * p + 7) div 8 * 8"
    using assms p by (simp add: MAXALIGN_def size_t_id)
  have le: "48 + 4 * dim + 8 * p \<le> (48 + 4 * dim + 8 * p + 7) div 8 * 8"
    by presburger
  have c1: "\<not> (m < HNSW_MIN_M \<or> m > HNSW_MAX_M)"
    using assms by (simp add: HNSW_MIN_M_def HNSW_MAX_M_def)
  have c2: "4 * dim div sizeof_float4 = size_t dim"
    by (simp add: sd sizeof_float4_def)
  have c3: "8 * p div sizeof_BlockNumber = 2 * p"
    by (simp add: sizeof_BlockNumber_def)
  have c4: "\<not> (48 + 4 * dim + 8 * p < sizeof_HnswNodeData \<or> 48 + 4 * dim + 8 * p < 4 * dim
      \<or> 48 + 4 * dim + 8 * p < 8 * p)"
    using assms p by (simp add: sizeof_HnswNodeData_def)
  show ?thesis
    unfolding hnswComputeNodeSizeSafe_def Let_def vsz nsz nsz2 tsz mal c2 c3
    using c1 c4 le by (simp add: p_def)
qed

theorem hnswComputeNodeSizeSafe_exact_witness:
  "hnswComputeNodeSizeSafe 3 0 16 = (192, False)"
  using hnswComputeNodeSizeSafe_exact [of 3 0 16] by simp

text \<open>
  C3, as stated, fails: at \<open>dim = 32767\<close>, \<open>level = 15\<close>, \<open>m = 128\<close> the computation
  returns 147504 bytes with the overflow flag clear, more than any page the host can be
  built with.
\<close>

theorem hnswComputeNodeSizeSafe_page_counterexample:
  "\<not> (snd (hnswComputeNodeSizeSafe 32767 15 128)
       \<or> fst (hnswComputeNodeSizeSafe 32767 15 128) \<le> MAX_BLCKSZ)"
  by (simp add: hnswComputeNodeSizeSafe_def Let_def HNSW_MIN_M_def HNSW_MAX_M_def
      sizeof_float4_def sizeof_BlockNumber_def sizeof_HnswNodeData_def MAXALIGN_def
      size_t_def int32_def MAX_BLCKSZ_def)

subsection \<open>Evaluating the model on the example index\<close>

lemmas ex_defs = ex_float_ops_def ex_node_def ex_state0_def ex_state1_def ex_page_header_def
  hnswInitMetaPage_def
  HNSW_MAGIC_NUMBER_def HNSW_VERSION_def InvalidBlockNumber_def int16_def

lemmas step_defs = bindE_def getE_def returnE_def raiseE_def modifyE_def Let_def
  ReadBuffer_def ReadMetaPage_def PageGetFirstItem_def PageIsNew_def PageIsEmpty_def
  PageGetMaxOffsetNumber_def RelationGetNumberOfBlocks_def write_node_def get_neighbor_def
  set_neighbor_def deref_node_def deref_item_def ItemIdSetDead_def NDB_ALLOC_def
  hnswValidateNeighborCount_def hnswValidateLevelSafe_def hnswValidateBlockNumber_def
  hnswComputeDistance_def hnswGetRandomLevel_def HNSW_MAX_LEVEL_def
  HNSW_MAX_VISITED_CAPACITY_def

lemmas search_defs = hnswSearch_def hnswSearch_expand_def hnswSearch_admit_def
  hnswSearch_layer0.simps

lemmas insert_defs = hnswInsertNode_def hnswInsertNode_step3_def hnswInsertNode_step4_def
  hnswInsertNode_step5_def hnswInsertNode_step6_def hnswInsertNode_link_one_def
  hnswInsertNode_prune_def hnswInsertNode_greedy.simps hnswComputeNodeSizeSafe_def
  size_t_def int32_def MAXALIGN_def sizeof_float4_def sizeof_BlockNumber_def
  sizeof_HnswNodeData_def HNSW_MIN_M_def HNSW_MAX_M_def PageGetFreeSpace_empty_def BLCKSZ_def

lemma replicate_4: "replicate 4 x = [x, x, x, x]"
  by (simp add: eval_nat_numeral)

lemma replicate_8: "replicate 8 x = [x, x, x, x, x, x, x, x]"
  by (simp add: eval_nat_numeral)

lemmas eval_defs = upto.simps upt_conv_Cons fun_eq_iff neighbor_slot_def

lemma ex_state0_level:
  "hnswGetRandomLevel ex_float_ops (ml (metap ex_state0)) ex_state0
     = (Inr 0, ex_state0\<lparr>prng := []\<rparr>)"
  by (simp add: ex_defs step_defs)

lemma ex_state1_level:
  "hnswGetRandomLevel ex_float_ops (ml (metap ex_state1)) ex_state1
     = (Inr 0, ex_state1\<lparr>prng := []\<rparr>)"
  by (simp add: ex_defs step_defs)

lemma ex_state0_insert:
  "fst (hnswInsertNode 5 ex_float_ops [10, 0, 0] 3 (1, 1) ex_state0) = Inr ()"
  by (simp add: ex_defs step_defs search_defs insert_defs)

lemma ex_state1_insert:
  "fst (hnswInsertNode 5 ex_float_ops [0, 10, 0] 3 (1, 2) ex_state1) = Inr ()"
  by (simp add: ex_defs step_defs search_defs insert_defs)

lemma ex_state1_insert_dist_log:
  "dist_log (snd (hnswInsertNode 5 ex_float_ops [0, 10, 0] 3 (1, 2) ex_state1)) = [1]"
  by (simp add: ex_defs step_defs search_defs insert_defs)

text \<open>
  Two insertions of a node of level 1: into \<open>ex_state1\<close>, whose entry level is 0, and
  into \<open>ex_state3\<close>, where the new node is linked at level 1 to the node of level 0 in
  block 2; the back-link is stored behind that node's table, in slot 4, and the insertion
  returns.
\<close>

lemma ex_state1_level1:
  "hnswGetRandomLevel ex_float_ops (ml (metap (ex_state1\<lparr>prng := [2]\<rparr>)))
     (ex_state1\<lparr>prng := [2]\<rparr>) = (Inr 1, ex_state1\<lparr>prng := []\<rparr>)"
  by (simp add: ex_defs step_defs)

lemma ex_state3_level1:
  "hnswGetRandomLevel ex_float_ops (ml (metap (ex_state3\<lparr>prng := [2]\<rparr>)))
     (ex_state3\<lparr>prng := [2]\<rparr>) = (Inr 1, ex_state3\<lparr>prng := []\<rparr>)"
  by (simp add: ex_defs ex_state3_def step_defs)

lemma ex_state1_insert_level1:
  "fst (hnswInsertNode 1 ex_float_ops [0, 10, 0] 3 (1, 2) (ex_state1\<lparr>prng := [2]\<rparr>)) = Inr ()"
  by (simp add: ex_defs step_defs search_defs insert_defs eval_defs replicate_4)

lemma ex_state3_insert_level1:
  "fst (hnswInsertNode 1 ex_float_ops [0, 5, 5] 3 (1, 4) (ex_state3\<lparr>prng := [2]\<rparr>)) = Inr ()"
  by (simp add: ex_defs ex_state3_def step_defs search_defs insert_defs eval_defs replicate_8)

lemma ex_state3_insert_beyond:
  "node_beyond (snd (hd (case node_pages (snd (hnswInsertNode 1 ex_float_ops [0, 5, 5] 3 (1, 4)
       (ex_state3\<lparr>prng := [2]\<rparr>))) ! 1 of PageItems its \<Rightarrow> its))) 4 = Some 4"
  by (simp add: ex_defs ex_state3_def step_defs search_defs insert_defs eval_defs replicate_8)

subsection \<open>Search on an index without entry point\<close>

text \<open>
  C8. For every query, dimension, strategy, ef and k: if the meta page's entry point is
  the none sentinel, \<open>hnswSearch\<close> returns the empty result (no result array, no
  distance array, count 0) and leaves the state as it was: in particular the log of
  \<open>ReadBuffer\<close> calls is unchanged, no page has been read.
\<close>

theorem hnswSearch_without_entry_point:
  assumes "entryPoint metaPage = InvalidBlockNumber"
  shows "hnswSearch fuel fo metaPage query dim strategy efSearchv k s = (Inr (None, None, 0), s)"
  using assms by (simp add: hnswSearch_def returnE_def)

theorem hnswSearch_without_entry_point_witness:
  "hnswSearch 0 ex_float_ops (metap ex_state0) [1, 0, 0] 3 1 64 10 ex_state0
     = (Inr (None, None, 0), ex_state0)"
  by (rule hnswSearch_without_entry_point) (simp add: ex_defs)

subsection \<open>A scan without query vector\<close>

text \<open>
  C10, as the code has it. For a scan whose state holds no query vector (as
  \<open>hnswbeginscan\<close> leaves it, and as long as no rescan has stored one)
  and a rescan without order-by key, or with the datum 0 as its argument: the rescan
  returns, still no query vector is stored, and the first \<open>hnswgettuple\<close> returns
  false without raising; it has read the meta page (block 0) and nothing else, so no
  search has run.
\<close>

theorem hnswgettuple_without_query_vector:
  assumes "so_queryVector so = None"
      and "orderbys = [] \<or> snd (hd orderbys) = None"
  shows "\<exists>so' s'. hnswrescan ef_guc k_guc extract orderbys so s = (Inr so', s')
           \<and> so_queryVector so' = None
           \<and> hnswgettuple fuel fo so' s' = (Inr (False, so'), s'\<lparr>rd_log := rd_log s' @ [0]\<rparr>)"
  using assms
  by (auto simp: hnswrescan_def hnswgettuple_def Let_def bindE_def returnE_def ReadMetaPage_def)

theorem hnswgettuple_without_query_vector_witness:
  "\<exists>so' s'. hnswrescan 0 0 (\<lambda>x. Inr (Some (x, 3))) ([] :: (int \<times> int list option) list)
               hnswbeginscan ex_state1 = (Inr so', s')
           \<and> so_queryVector so' = None
           \<and> hnswgettuple 5 ex_float_ops so' s' = (Inr (False, so'), s'\<lparr>rd_log := rd_log s' @ [0]\<rparr>)"
  by (rule hnswgettuple_without_query_vector) (simp_all add: hnswbeginscan_def)

lemma ex_rescan_vector:
  "hnswrescan 0 0 (\<lambda>x. Inr (Some (x, 3))) [(1, Some [10, 0, 0])] hnswbeginscan ex_state1
     = (Inr ex_scan_vector, ex_state1\<lparr>rd_log := [0]\<rparr>)"
  by (simp add: ex_scan_vector_def hnswbeginscan_def hnswrescan_def ex_defs step_defs
        HNSW_DEFAULT_EF_SEARCH_def)

text \<open>
  C10, as the specification has it, fails: \<open>hnswrescan\<close> stores a query vector when a
  key brings one and at no point clears it. After \<open>hnswbeginscan\<close>, a rescan ordered by the
  distance to \<open>[10, 0, 0]\<close> and a second rescan without order-by key, the scan state is
  \<open>ex_scan_vector\<close>, still holding the vector, and the first \<open>hnswgettuple\<close> runs the
  search (one distance is computed) and returns true with the heap pointer \<open>(1, 1)\<close>.
\<close>

theorem hnswgettuple_stale_vector_counterexample:
  "hnswrescan 0 0 (\<lambda>x. Inr (Some (x, 3))) [(1, Some [10, 0, 0])] hnswbeginscan ex_state1
     = (Inr ex_scan_vector, ex_state1\<lparr>rd_log := [0]\<rparr>)
   \<and> hnswrescan 0 0 (\<lambda>x. Inr (Some (x, 3))) [] ex_scan_vector (ex_state1\<lparr>rd_log := [0]\<rparr>)
     = (Inr ex_scan_vector, ex_state1\<lparr>rd_log := [0, 0]\<rparr>)
   \<and> map_sum id fst
        (fst (hnswgettuple 5 ex_float_ops ex_scan_vector (ex_state1\<lparr>rd_log := [0, 0]\<rparr>)))
     = Inr True
   \<and> map_sum id (\<lambda>r. xs_heaptid (snd r))
        (fst (hnswgettuple 5 ex_float_ops ex_scan_vector (ex_state1\<lparr>rd_log := [0, 0]\<rparr>)))
     = Inr (Some (1, 1))
   \<and> dist_log (snd (hnswgettuple 5 ex_float_ops ex_scan_vector (ex_state1\<lparr>rd_log := [0, 0]\<rparr>)))
     = [1]"
proof -
  have b: "hnswrescan 0 0 (\<lambda>x. Inr (Some (x, 3))) [] ex_scan_vector (ex_state1\<lparr>rd_log := [0]\<rparr>)
     = (Inr ex_scan_vector, ex_state1\<lparr>rd_log := [0, 0]\<rparr>)"
    by (simp add: ex_scan_vector_def hnswbeginscan_def hnswrescan_def ex_defs step_defs
        HNSW_DEFAULT_EF_SEARCH_def)
  have c: "map_sum id fst
        (fst (hnswgettuple 5 ex_float_ops ex_scan_vector (ex_state1\<lparr>rd_log := [0, 0]\<rparr>)))
     = Inr True"
    by (simp add: ex_scan_vector_def hnswbeginscan_def hnswgettuple_def hnswgettuple_next_def
        ex_defs step_defs search_defs eval_defs HNSW_DEFAULT_EF_SEARCH_def)
  have d: "map_sum id (\<lambda>r. xs_heaptid (snd r))
        (fst (hnswgettuple 5 ex_float_ops ex_scan_vector (ex_state1\<lparr>rd_log := [0, 0]\<rparr>)))
     = Inr (Some (1, 1))"
    by (simp add: ex_scan_vector_def hnswbeginscan_def hnswgettuple_def hnswgettuple_next_def
        ex_defs step_defs search_defs eval_defs HNSW_DEFAULT_EF_SEARCH_def)
  have e: "dist_log (snd (hnswgettuple 5 ex_float_ops ex_scan_vector (ex_state1\<lparr>rd_log := [0, 0]\<rparr>)))
     = [1]"
    by (simp add: ex_scan_vector_def hnswbeginscan_def hnswgettuple_def hnswgettuple_next_def
        ex_defs step_defs search_defs eval_defs HNSW_DEFAULT_EF_SEARCH_def)
  show ?thesis using ex_rescan_vector b c d e by simp
qed

subsection \<open>What a run preserves\<close>

lemma preservesD: "preserves P f \<Longrightarrow> P s \<Longrightarrow> P (snd (f s))"
  by (simp add: preserves_def)

lemma preserves_returnE [pres]: "preserves P (returnE x)"
  by (simp add: preserves_def returnE_def)

lemma preserves_raiseE [pres]: "preserves P (raiseE e)"
  by (simp add: preserves_def raiseE_def)

lemma preserves_bindE [pres]:
  "preserves P f \<Longrightarrow> (\<And>x. preserves P (g x)) \<Longrightarrow> preserves P (bindE f g)"
  by (auto simp: preserves_def bindE_def split: prod.splits sum.splits)

lemma preserves_if [pres]:
  "(c \<Longrightarrow> preserves P f) \<Longrightarrow> (\<not> c \<Longrightarrow> preserves P g) \<Longrightarrow> preserves P (if c then f else g)"
  by simp

lemma preserves_state_if [pres]:
  "preserves P f \<Longrightarrow> preserves P g \<Longrightarrow> preserves P (\<lambda>s. if c s then f s else g s)"
  by (simp add: preserves_def)

lemma preserves_case_option [pres]:
  "preserves P f \<Longrightarrow> (\<And>y. preserves P (g y)) \<Longrightarrow>
     preserves P (case x of None \<Rightarrow> f | Some y \<Rightarrow> g y)"
  by (cases x) simp_all

lemma preserves_get_neighbor [pres]: "preserves P (get_neighbor n l m i)"
  by (auto simp: preserves_def get_neighbor_def Let_def split: option.splits)

lemma preserves_set_neighbor [pres]: "preserves P (set_neighbor n l m i b)"
  by (simp add: preserves_def set_neighbor_def Let_def)

lemma preserves_PageGetFirstItem [pres]: "preserves P (PageGetFirstItem page)"
  by (simp add: preserves_def PageGetFirstItem_def split: Page.splits list.splits)

lemma preserves_NDB_ALLOC [pres]: "preserves P (NDB_ALLOC n)"
  by (simp add: preserves_def NDB_ALLOC_def)

lemma preserves_deref_node [pres]: "preserves P (deref_node b)"
  by (simp add: preserves_def deref_node_def PageGetFirstItem_def split: Page.splits list.splits)

lemma preserves_deref_item [pres]: "preserves P (deref_item b off)"
  by (simp add: preserves_def deref_item_def split: Page.splits)

lemma preserves_ReadBuffer [pres]: "log_stable P \<Longrightarrow> preserves P (ReadBuffer b)"
  by (simp add: preserves_def log_stable_def ReadBuffer_def Let_def)

lemma preserves_ReadMetaPage [pres]: "log_stable P \<Longrightarrow> preserves P ReadMetaPage"
  by (simp add: preserves_def log_stable_def ReadMetaPage_def)

lemma preserves_hnswComputeDistance [pres]:
  "dist_ok k P \<Longrightarrow> preserves P (hnswComputeDistance fo a b d k)"
  by (auto simp: preserves_def dist_ok_def hnswComputeDistance_def Let_def)

lemma preserves_getE [pres]: "preserves P (getE f)"
  by (simp add: preserves_def getE_def)

lemma preserves_modifyE_write [pres]: "write_ok P \<Longrightarrow> preserves P (modifyE (write_node b n))"
  by (simp add: preserves_def modifyE_def write_ok_def)

lemma preserves_hnswSearch_greedy_neighbors [pres]:
  "log_stable P \<Longrightarrow> dist_ok strategy P \<Longrightarrow>
   preserves P (hnswSearch_greedy_neighbors fo query dim strategy node level m is acc)"
  by (induction "is" arbitrary: acc) (auto intro!: pres)

lemma preserves_hnswSearch_greedy_level [pres]:
  "log_stable P \<Longrightarrow> dist_ok strategy P \<Longrightarrow>
   preserves P (hnswSearch_greedy_level fuel fo query dim strategy m level current)"
  by (induction fuel arbitrary: current) (auto intro!: pres)

lemma preserves_hnswSearch_descend [pres]:
  "log_stable P \<Longrightarrow> dist_ok strategy P \<Longrightarrow>
   preserves P (hnswSearch_descend fuel fo query dim strategy m levels current)"
  by (induction levels arbitrary: current) (auto intro!: pres)


lemma preserves_hnswSearch_admit [pres]: "preserves P (hnswSearch_admit ef nblocks nb d st)"
  by (simp add: preserves_def hnswSearch_admit_def Let_def split: list.splits)

lemma preserves_hnswSearch_layer0_neighbors [pres]:
  "log_stable P \<Longrightarrow> dist_ok strategy P \<Longrightarrow>
   preserves P (hnswSearch_layer0_neighbors fo query dim strategy ef nblocks node m js st)"
  by (induction js arbitrary: st) (auto intro!: pres)

lemma preserves_hnswSearch_expand [pres]:
  "log_stable P \<Longrightarrow> dist_ok strategy P \<Longrightarrow>
   preserves P (hnswSearch_expand fo query dim strategy ef nblocks m i st)"
  unfolding hnswSearch_expand_def Let_def by (auto intro!: pres)

lemma hnswSearch_layer0_pointwise:
  "log_stable P \<Longrightarrow> dist_ok strategy P \<Longrightarrow> P s \<Longrightarrow>
   P (snd (hnswSearch_layer0 fo query dim strategy ef nblocks m i st s))"
proof (induction fo query dim strategy ef nblocks m i st s rule: hnswSearch_layer0.induct)
  case (1 fo query dim strategy ef nblocks m i st s)
  have ex: "P (snd (hnswSearch_expand fo query dim strategy ef nblocks m i st s))"
    by (rule preservesD [OF preserves_hnswSearch_expand [OF "1.prems"(1,2)] "1.prems"(3)])
  show ?case
  proof (cases "i < length (candidates st) \<and> int (length (candidates st)) < ef")
    case False
    then show ?thesis using "1.prems" by (subst hnswSearch_layer0.simps) auto
  next
    case True
    show ?thesis
    proof (cases "hnswSearch_expand fo query dim strategy ef nblocks m i st s")
      case (Pair r s')
      have Ps': "P s'" using ex unfolding Pair by simp
      show ?thesis
      proof (cases r)
        case (Inl e)
        then show ?thesis using True Pair Ps' by (subst hnswSearch_layer0.simps) simp
      next
        case (Inr st')
        have "P (snd (hnswSearch_layer0 fo query dim strategy ef nblocks m (Suc i) st' s'))"
          using "1.IH" True Pair Inr "1.prems"(1,2) Ps' by auto
        then show ?thesis using True Pair Inr by (subst hnswSearch_layer0.simps) simp
      qed
    qed
  qed
qed

lemma preserves_hnswSearch_layer0 [pres]:
  "log_stable P \<Longrightarrow> dist_ok strategy P \<Longrightarrow>
   preserves P (hnswSearch_layer0 fo query dim strategy ef nblocks m i st)"
  by (simp add: preserves_def hnswSearch_layer0_pointwise)

lemma preserves_hnswSearch [pres]:
  "log_stable P \<Longrightarrow> dist_ok strategy P \<Longrightarrow>
   preserves P (hnswSearch fuel fo metaPage query dim strategy ef k)"
  unfolding hnswSearch_def Let_def by (auto intro!: pres)

lemma preserves_hnswInsertNode_entry_neighbors [pres]:
  "log_stable P \<Longrightarrow> dist_ok 1 P \<Longrightarrow>
   preserves P (hnswInsertNode_entry_neighbors fo vector dim node level m is acc)"
  by (induction "is" arbitrary: acc) (auto intro!: pres)


lemma hnswInsertNode_greedy_pointwise:
  "log_stable P \<Longrightarrow> dist_ok 1 P \<Longrightarrow> P s \<Longrightarrow>
   P (snd (hnswInsertNode_greedy fo vector dim level m iterations best s))"
proof (induction fo vector dim level m iterations best s rule: hnswInsertNode_greedy.induct)
  case (1 fo vector dim level m iterations best s)
  note ls = "1.prems"(1) and dk = "1.prems"(2)
  have rb: "P (snd (ReadBuffer (fst best) s))"
    using preserves_ReadBuffer [OF ls, unfolded preserves_def, rule_format, OF "1.prems"(3)] .
  show ?case
  proof (cases "iterations < 10 \<and> hnswValidateBlockNumber (fst best) s")
    case False
    then show ?thesis using "1.prems" by (subst hnswInsertNode_greedy.simps) auto
  next
    case True
    obtain r1 s1 where r1: "ReadBuffer (fst best) s = (r1, s1)" by (cases "ReadBuffer (fst best) s")
    have P1: "P s1" using rb r1 by simp
    show ?thesis
    proof (cases r1)
      case (Inl e)
      then show ?thesis using True r1 P1 by (subst hnswInsertNode_greedy.simps) simp
    next
      case (Inr entryPage)
      note page = this
      show ?thesis
      proof (cases "PageIsNew entryPage \<or> PageIsEmpty entryPage")
        case True
        then show ?thesis using \<open>iterations < 10 \<and> _\<close> r1 page P1
          by (subst hnswInsertNode_greedy.simps) simp
      next
        case False
        note nonempty = this
        obtain r2 s2 where r2: "PageGetFirstItem entryPage s1 = (r2, s2)"
          by (cases "PageGetFirstItem entryPage s1")
        have P2: "P s2"
          using preserves_PageGetFirstItem [of P entryPage, unfolded preserves_def, rule_format, OF P1]
            r2 by simp
        show ?thesis
        proof (cases r2)
          case (Inl e)
          then show ?thesis using True r1 page nonempty r2 P2
            by (subst hnswInsertNode_greedy.simps) simp
        next
          case (Inr entryNode)
          note node = this
          show ?thesis
          proof (cases "hnswValidateLevelSafe (node_level entryNode) \<and> node_level entryNode \<ge> level")
            case False
            then show ?thesis using True r1 page nonempty r2 node P2
              by (subst hnswInsertNode_greedy.simps) auto
          next
            case True
            note lev = this
            obtain r3 s3 where
              r3: "hnswComputeDistance fo vector (node_vector entryNode) dim 1 s2 = (r3, s3)"
              by (cases "hnswComputeDistance fo vector (node_vector entryNode) dim 1 s2")
            have P3: "P s3"
              using preserves_hnswComputeDistance [OF dk, of fo vector "node_vector entryNode" dim,
                      unfolded preserves_def, rule_format, OF P2] r3 by simp
            show ?thesis
            proof (cases r3)
              case (Inl e)
              then show ?thesis
                using \<open>iterations < 10 \<and> _\<close> r1 page nonempty r2 node lev r3 P3
                by (subst hnswInsertNode_greedy.simps) simp
            next
              case (Inr bestDist)
              note bd = this
              let ?loop = "hnswInsertNode_entry_neighbors fo vector dim entryNode level m
                     [0 .. hnswValidateNeighborCount (neighborCount entryNode (nat level)) m level - 1]
                     (fst best, bestDist, False)"
              obtain r4 s4 where r4: "?loop s3 = (r4, s4)" by (cases "?loop s3")
              have P4: "P s4"
                using preserves_hnswInsertNode_entry_neighbors [OF ls dk,
                    of fo vector dim entryNode level m
                      "[0 .. hnswValidateNeighborCount (neighborCount entryNode (nat level)) m level - 1]"
                      "(fst best, bestDist, False)",
                    unfolded preserves_def, rule_format, OF P3] r4
                by simp
              show ?thesis
              proof (cases r4)
                case (Inl e)
                then show ?thesis
                  using \<open>iterations < 10 \<and> _\<close> r1 page nonempty r2 node lev r3 bd r4 P4
                  by (subst hnswInsertNode_greedy.simps) simp
              next
                case (Inr r)
                show ?thesis
                proof (cases "snd (snd r)")
                  case False
                  then show ?thesis
                    using \<open>iterations < 10 \<and> _\<close> r1 page nonempty r2 node lev r3 bd r4 Inr P4
                    by (subst hnswInsertNode_greedy.simps) simp
                next
                  case True
                  have "P (snd (hnswInsertNode_greedy fo vector dim level m (Suc iterations)
                                  (fst r, fst (snd r)) s4))"
                    using "1.IH" \<open>iterations < 10 \<and> _\<close> r1 page nonempty r2 node lev r3 bd
                      r4 Inr True ls dk P4
                    by auto
                  then show ?thesis
                    using \<open>iterations < 10 \<and> _\<close> r1 page nonempty r2 node lev r3 bd r4 Inr True
                    by (subst hnswInsertNode_greedy.simps) simp
                qed
              qed
            qed
          qed
        qed
      qed
    qed
  qed
qed

lemma preserves_hnswInsertNode_greedy [pres]:
  "log_stable P \<Longrightarrow> dist_ok 1 P \<Longrightarrow>
   preserves P (hnswInsertNode_greedy fo vector dim level m iterations best)"
  by (simp add: preserves_def hnswInsertNode_greedy_pointwise)

lemma preserves_hnswInsertNode_insertPos [pres]:
  "preserves P (hnswInsertNode_insertPos node level m js pos)"
  by (induction js) (auto intro!: pres)

lemma preserves_hnswInsertNode_prune_dists [pres]:
  "log_stable P \<Longrightarrow> dist_ok 1 P \<Longrightarrow>
   preserves P (hnswInsertNode_prune_dists fo dim blkno sd nb level m js acc)"
  by (induction js arbitrary: acc) (auto intro!: pres)

lemma preserves_hnswInsertNode_prune_write [pres]:
  "write_ok P \<Longrightarrow> preserves P (hnswInsertNode_prune_write nb level m idxs js)"
  by (induction js) (auto intro!: pres)

lemma preserves_hnswInsertNode_prune [pres]:
  "log_stable P \<Longrightarrow> dist_ok 1 P \<Longrightarrow> write_ok P \<Longrightarrow>
   preserves P (hnswInsertNode_prune fo dim blkno sd nb level m)"
  unfolding hnswInsertNode_prune_def Let_def by (auto intro!: pres)

lemma preserves_hnswInsertNode_link_one [pres]:
  "log_stable P \<Longrightarrow> dist_ok 1 P \<Longrightarrow> write_ok P \<Longrightarrow>
   preserves P (hnswInsertNode_link_one fo dim blkno level m sel idx)"
  unfolding hnswInsertNode_link_one_def Let_def by (auto intro!: pres)

lemma preserves_hnswInsertNode_link [pres]:
  "log_stable P \<Longrightarrow> dist_ok 1 P \<Longrightarrow> write_ok P \<Longrightarrow>
   preserves P (hnswInsertNode_link fo dim blkno level m selected idxs)"
  by (induction idxs) (auto intro!: pres)

lemma preserves_hnswInsertNode_levels [pres]:
  "log_stable P \<Longrightarrow> dist_ok 1 P \<Longrightarrow> write_ok P \<Longrightarrow>
   preserves P (hnswInsertNode_levels fuel fo vector dim blkno m efc levels)"
  by (induction levels) (auto simp: Let_def intro!: pres)

lemma preserves_hnswInsertNode_step3 [pres]:
  "log_stable P \<Longrightarrow> dist_ok 1 P \<Longrightarrow>
   preserves P (hnswInsertNode_step3 fo vector dim level)"
  unfolding hnswInsertNode_step3_def by (auto intro!: pres)

lemma preserves_hnswInsertNode_step5 [pres]:
  "log_stable P \<Longrightarrow> dist_ok 1 P \<Longrightarrow> write_ok P \<Longrightarrow>
   preserves P (hnswInsertNode_step5 fuel fo vector dim level blkno)"
  unfolding hnswInsertNode_step5_def by (auto intro!: pres)

lemma bindE_Inr:
  "bindE f g s = (Inr y, s') \<Longrightarrow> \<exists>x s1. f s = (Inr x, s1) \<and> g x s1 = (Inr y, s')"
  by (auto simp: bindE_def split: prod.splits sum.splits)

lemma write_node_frame:
  "metap (write_node b n s) = metap s" "dist_log (write_node b n s) = dist_log s"
  "rd_log (write_node b n s) = rd_log s" "prng (write_node b n s) = prng s"
  "length (node_pages (write_node b n s)) = length (node_pages s)"
  by (auto simp: write_node_def split: Page.splits list.splits)

lemma hnswGetRandomLevel_result:
  assumes "hnswGetRandomLevel fo mlv s = (Inr L, s0)"
  shows "0 \<le> L \<and> L \<le> 15 \<and> metap s0 = metap s \<and> node_pages s0 = node_pages s
         \<and> rd_log s0 = rd_log s \<and> dist_log s0 = dist_log s"
  using assms
  by (auto simp: hnswGetRandomLevel_def Let_def HNSW_MAX_LEVEL_def
           split: list.splits option.splits if_splits)

lemma L2_only_since_stable:
  "log_stable (L2_only_since l)" "dist_ok 1 (L2_only_since l)" "write_ok (L2_only_since l)"
  by (auto simp: log_stable_def dist_ok_def write_ok_def L2_only_since_def write_node_frame)

lemma L2_only_since_frame:
  "L2_only_since l s \<Longrightarrow> dist_log s' = dist_log s \<Longrightarrow> L2_only_since l s'"
  by (simp add: L2_only_since_def)

lemma preserves_L2_hnswGetRandomLevel:
  "preserves (L2_only_since l) (hnswGetRandomLevel fo mlv)"
  by (auto simp: preserves_def hnswGetRandomLevel_def Let_def L2_only_since_def
           split: list.splits option.splits)

lemma preserves_L2_step4: "preserves (L2_only_since l) (hnswInsertNode_step4 node sz)"
  by (auto simp: preserves_def hnswInsertNode_step4_def Let_def L2_only_since_def
                 raiseE_def returnE_def)

lemma preserves_L2_step6: "preserves (L2_only_since l) (hnswInsertNode_step6 level blkno)"
  by (auto simp: preserves_def hnswInsertNode_step6_def Let_def L2_only_since_def
                 raiseE_def returnE_def bindE_def)

lemma preserves_L2_hnswInsertNode:
  "preserves (L2_only_since l) (hnswInsertNode fuel fo vector dim heapPtrv)"
  unfolding hnswInsertNode_def Let_def
  by (auto intro!: pres L2_only_since_stable preserves_L2_hnswGetRandomLevel preserves_L2_step4
    preserves_L2_step6)

subsection \<open>Distances computed during an insertion\<close>

text \<open>
  C5. For every insertion, whether it returns or raises, every distance computation it
  performs (in the greedy walk of step 3, in the searches of step 5 and in the pruning
  of a neighbour's list) is made with strategy 1, the L2 distance: the log of
  strategies grows by a list of ones. \<open>hnswInsertNode\<close> takes no strategy from its
  caller.
\<close>

theorem hnswInsertNode_distances_L2:
  "\<exists>ds. dist_log (snd (hnswInsertNode fuel fo vector dim heapPtrv s)) = dist_log s @ ds
        \<and> (\<forall>x\<in>set ds. x = 1)"
proof -
  have "L2_only_since (dist_log s) s" by (simp add: L2_only_since_def)
  then have "L2_only_since (dist_log s) (snd (hnswInsertNode fuel fo vector dim heapPtrv s))"
    using preserves_L2_hnswInsertNode [of "dist_log s" fuel fo vector dim heapPtrv]
    by (simp add: preserves_def)
  then show ?thesis by (simp add: L2_only_since_def)
qed


theorem hnswInsertNode_distances_L2_witness:
  "\<exists>ds. dist_log (snd (hnswInsertNode 5 ex_float_ops [0, 10, 0] 3 (1, 2) ex_state1))
           = dist_log ex_state1 @ ds
        \<and> (\<forall>x\<in>set ds. x = 1) \<and> ds = [1]"
  using hnswInsertNode_distances_L2 [of 5 ex_float_ops "[0, 10, 0]" 3 "(1, 2)" ex_state1]
    ex_state1_insert_dist_log
  by (simp add: ex_state1_def)

subsection \<open>The meta page after an insertion\<close>

lemma meta_kept_stable:
  "log_stable (meta_kept M n)" "dist_ok k (meta_kept M n)" "write_ok (meta_kept M n)"
  by (auto simp: log_stable_def dist_ok_def write_ok_def meta_kept_def write_node_frame)

lemma hnswInsertNode_step3_meta:
  assumes "hnswInsertNode_step3 fo vector dim level s = (r, s')"
  shows "metap s' = metap s \<and> length (node_pages s') = length (node_pages s)"
proof -
  have "meta_kept (metap s) (length (node_pages s)) s" by (simp add: meta_kept_def)
  then have "meta_kept (metap s) (length (node_pages s))
               (snd (hnswInsertNode_step3 fo vector dim level s))"
    using preserves_hnswInsertNode_step3 [OF meta_kept_stable(1,2),
            of "metap s" "length (node_pages s)" fo vector dim level]
    by (simp add: preserves_def)
  then show ?thesis using assms by (simp add: meta_kept_def)
qed

lemma hnswInsertNode_step5_meta:
  assumes "hnswInsertNode_step5 fuel fo vector dim level blkno s = (r, s')"
  shows "metap s' = metap s \<and> length (node_pages s') = length (node_pages s)"
proof -
  have "meta_kept (metap s) (length (node_pages s)) s" by (simp add: meta_kept_def)
  then have "meta_kept (metap s) (length (node_pages s))
               (snd (hnswInsertNode_step5 fuel fo vector dim level blkno s))"
    using preserves_hnswInsertNode_step5 [OF meta_kept_stable,
            of "metap s" "length (node_pages s)" fuel fo vector dim level blkno]
    by (simp add: preserves_def)
  then show ?thesis using assms by (simp add: meta_kept_def)
qed

lemma hnswInsertNode_step4_result:
  assumes "hnswInsertNode_step4 node sz s = (Inr blkno, s')"
  shows "blkno = RelationGetNumberOfBlocks s \<and> metap s' = metap s
         \<and> length (node_pages s') = Suc (length (node_pages s))"
  using assms
  by (auto simp: hnswInsertNode_step4_def Let_def raiseE_def returnE_def split: if_splits)

lemma hnswInsertNode_step6_result:
  assumes "hnswInsertNode_step6 level blkno s = (Inr (), s')"
  shows "insertedVectors (metap s') = insertedVectors (metap s) + 1
         \<and> (if entryPoint (metap s) = InvalidBlockNumber \<or> level > entryLevel (metap s)
             then entryPoint (metap s') = blkno \<and> entryLevel (metap s') = level
             else entryPoint (metap s') = entryPoint (metap s)
                  \<and> entryLevel (metap s') = entryLevel (metap s))
         \<and> maxLevel (metap s') = max (maxLevel (metap s)) level
         \<and> node_pages s' = node_pages s"
  using assms
  by (auto simp: hnswInsertNode_step6_def Let_def raiseE_def returnE_def bindE_def
           split: if_splits)

text \<open>
  C4. For every insertion that returns, with \<open>L\<close> the level drawn for the new node:
  \<open>insertedVectors\<close> has grown by exactly 1; if the entry point was the none sentinel
  or \<open>L\<close> exceeds the entry level, the entry point is the newly allocated page (the
  block appended to the relation) and the entry level is \<open>L\<close>, otherwise both are
  unchanged; and \<open>maxLevel\<close> is the maximum of its previous value and \<open>L\<close>.
\<close>

theorem hnswInsertNode_meta_update:
  assumes ins: "hnswInsertNode fuel fo vector dim heapPtrv s = (Inr (), s')"
      and lev: "hnswGetRandomLevel fo (ml (metap s)) s = (Inr L, s0)"
  shows "insertedVectors (metap s') = insertedVectors (metap s) + 1
         \<and> (if entryPoint (metap s) = InvalidBlockNumber \<or> L > entryLevel (metap s)
             then entryPoint (metap s') = RelationGetNumberOfBlocks s
                  \<and> entryLevel (metap s') = L
             else entryPoint (metap s') = entryPoint (metap s)
                  \<and> entryLevel (metap s') = entryLevel (metap s))
         \<and> maxLevel (metap s') = max (maxLevel (metap s)) L
         \<and> RelationGetNumberOfBlocks s' = Suc (RelationGetNumberOfBlocks s)"
proof -
  from hnswGetRandomLevel_result [OF lev]
  have L: "0 \<le> L" "L \<le> 15" and m0: "metap s0 = metap s" and p0: "node_pages s0 = node_pages s"
    by simp_all
  have Lc: "(if L \<ge> HNSW_MAX_LEVEL then HNSW_MAX_LEVEL - 1 else L) = L"
    using L by (simp add: HNSW_MAX_LEVEL_def)
  have Lv: "hnswValidateLevelSafe L"
    using L by (simp add: hnswValidateLevelSafe_def HNSW_MAX_LEVEL_def)
  define node where "node = \<lparr>heapPtr = heapPtrv, node_level = L, node_dim = dim,
      neighborCount = (\<lambda>_. 0), node_vector = vector,
      node_neighbors = replicate (nat ((L + 1) * (meta_m (metap s) * 2))) InvalidBlockNumber,
      node_beyond = (\<lambda>_. None)\<rparr>"
  define sz where "sz = fst (hnswComputeNodeSizeSafe dim L (meta_m (metap s)))"
  have rest: "bindE (hnswInsertNode_step3 fo vector dim L) (\<lambda>_.
          bindE (hnswInsertNode_step4 node sz) (\<lambda>blkno.
          bindE (hnswInsertNode_step5 fuel fo vector dim L blkno) (\<lambda>_.
          hnswInsertNode_step6 L blkno))) s0 = (Inr (), s')"
    using ins lev Lc Lv m0
    by (auto simp: hnswInsertNode_def bindE_def getE_def Let_def raiseE_def node_def sz_def
             split: if_splits)
  from bindE_Inr [OF rest] obtain u3 s3 where
    s3: "hnswInsertNode_step3 fo vector dim L s0 = (Inr u3, s3)" and
    rest4: "bindE (hnswInsertNode_step4 node sz) (\<lambda>blkno.
          bindE (hnswInsertNode_step5 fuel fo vector dim L blkno) (\<lambda>_.
          hnswInsertNode_step6 L blkno)) s3 = (Inr (), s')"
    by blast
  from bindE_Inr [OF rest4] obtain blkno s4 where
    s4: "hnswInsertNode_step4 node sz s3 = (Inr blkno, s4)" and
    rest5: "bindE (hnswInsertNode_step5 fuel fo vector dim L blkno) (\<lambda>_.
          hnswInsertNode_step6 L blkno) s4 = (Inr (), s')"
    by blast
  from bindE_Inr [OF rest5] obtain u5 s5 where
    s5: "hnswInsertNode_step5 fuel fo vector dim L blkno s4 = (Inr u5, s5)" and
    s6: "hnswInsertNode_step6 L blkno s5 = (Inr (), s')"
    by blast
  note k3 = hnswInsertNode_step3_meta [OF s3]
  note k4 = hnswInsertNode_step4_result [OF s4]
  note k5 = hnswInsertNode_step5_meta [OF s5]
  note k6 = hnswInsertNode_step6_result [OF s6]
  have meta5: "metap s5 = metap s" using k3 k4 k5 m0 by simp
  have blk: "blkno = RelationGetNumberOfBlocks s"
    using k3 k4 p0 by (simp add: RelationGetNumberOfBlocks_def)
  have len: "length (node_pages s') = Suc (length (node_pages s))"
    using k3 k4 k5 k6 p0 by simp
  show ?thesis
    using k6 meta5 blk len by (simp add: RelationGetNumberOfBlocks_def)
qed

theorem hnswInsertNode_meta_update_witness:
  "(insertedVectors (metap (snd (hnswInsertNode 5 ex_float_ops [10, 0, 0] 3 (1, 1) ex_state0))) = 1
    \<and> entryPoint (metap (snd (hnswInsertNode 5 ex_float_ops [10, 0, 0] 3 (1, 1) ex_state0))) = 1
    \<and> entryLevel (metap (snd (hnswInsertNode 5 ex_float_ops [10, 0, 0] 3 (1, 1) ex_state0))) = 0
    \<and> maxLevel (metap (snd (hnswInsertNode 5 ex_float_ops [10, 0, 0] 3 (1, 1) ex_state0))) = 0)
   \<and> (insertedVectors (metap (snd (hnswInsertNode 5 ex_float_ops [0, 10, 0] 3 (1, 2) ex_state1))) = 2
    \<and> entryPoint (metap (snd (hnswInsertNode 5 ex_float_ops [0, 10, 0] 3 (1, 2) ex_state1))) = 1
    \<and> entryLevel (metap (snd (hnswInsertNode 5 ex_float_ops [0, 10, 0] 3 (1, 2) ex_state1))) = 0
    \<and> maxLevel (metap (snd (hnswInsertNode 5 ex_float_ops [0, 10, 0] 3 (1, 2) ex_state1))) = 0)
   \<and> (insertedVectors (metap (snd (hnswInsertNode 1 ex_float_ops [0, 10, 0] 3 (1, 2) (ex_state1\<lparr>prng := [2]\<rparr>)))) = 2
    \<and> entryPoint (metap (snd (hnswInsertNode 1 ex_float_ops [0, 10, 0] 3 (1, 2) (ex_state1\<lparr>prng := [2]\<rparr>)))) = 2
    \<and> entryLevel (metap (snd (hnswInsertNode 1 ex_float_ops [0, 10, 0] 3 (1, 2) (ex_state1\<lparr>prng := [2]\<rparr>)))) = 1
    \<and> maxLevel (metap (snd (hnswInsertNode 1 ex_float_ops [0, 10, 0] 3 (1, 2) (ex_state1\<lparr>prng := [2]\<rparr>)))) = 1)
   \<and> (insertedVectors (metap (snd (hnswInsertNode 1 ex_float_ops [0, 5, 5] 3 (1, 4) (ex_state3\<lparr>prng := [2]\<rparr>)))) = 4
    \<and> entryPoint (metap (snd (hnswInsertNode 1 ex_float_ops [0, 5, 5] 3 (1, 4) (ex_state3\<lparr>prng := [2]\<rparr>)))) = 1
    \<and> entryLevel (metap (snd (hnswInsertNode 1 ex_float_ops [0, 5, 5] 3 (1, 4) (ex_state3\<lparr>prng := [2]\<rparr>)))) = 1
    \<and> maxLevel (metap (snd (hnswInsertNode 1 ex_float_ops [0, 5, 5] 3 (1, 4) (ex_state3\<lparr>prng := [2]\<rparr>)))) = 1)"
proof -
  have a0: "hnswInsertNode 5 ex_float_ops [10, 0, 0] 3 (1, 1) ex_state0
              = (Inr (), snd (hnswInsertNode 5 ex_float_ops [10, 0, 0] 3 (1, 1) ex_state0))"
    using ex_state0_insert by (simp add: prod_eq_iff)
  have a1: "hnswInsertNode 5 ex_float_ops [0, 10, 0] 3 (1, 2) ex_state1
              = (Inr (), snd (hnswInsertNode 5 ex_float_ops [0, 10, 0] 3 (1, 2) ex_state1))"
    using ex_state1_insert by (simp add: prod_eq_iff)
  have a2: "hnswInsertNode 1 ex_float_ops [0, 10, 0] 3 (1, 2) (ex_state1\<lparr>prng := [2]\<rparr>)
              = (Inr (), snd (hnswInsertNode 1 ex_float_ops [0, 10, 0] 3 (1, 2) (ex_state1\<lparr>prng := [2]\<rparr>)))"
    using ex_state1_insert_level1 by (simp add: prod_eq_iff)
  have a3: "hnswInsertNode 1 ex_float_ops [0, 5, 5] 3 (1, 4) (ex_state3\<lparr>prng := [2]\<rparr>)
              = (Inr (), snd (hnswInsertNode 1 ex_float_ops [0, 5, 5] 3 (1, 4) (ex_state3\<lparr>prng := [2]\<rparr>)))"
    using ex_state3_insert_level1 by (simp add: prod_eq_iff)
  show ?thesis
    using hnswInsertNode_meta_update [OF a0 ex_state0_level]
      hnswInsertNode_meta_update [OF a1 ex_state1_level]
      hnswInsertNode_meta_update [OF a2 ex_state1_level1]
      hnswInsertNode_meta_update [OF a3 ex_state3_level1]
    by (simp add: ex_defs ex_state3_def RelationGetNumberOfBlocks_def)
qed

subsection \<open>The entry point after a deletion\<close>

lemmas delete_defs = hnswbulkdelete_def hnswbulkdelete_node_def hnswbulkdelete_replace_entry_def
  hnswdelete_replace_entry_def hnswRemoveNodeFromNeighbor_def

lemmas graph_defs = listed_neighbors_def first_node_def page_of_def neighbor_slot_def
  List.map_filter_simps

text \<open>
  C1 does not hold of the code. In \<open>ex_state3\<close> the entry point, block 1, lists nobody at
  level 1 and the blocks 2 and 3 at level 0; the node of block 2 has level 0, the node of
  block 3 level 1. The bulk deletion of the node of block 1 makes block 2 the entry point,
  with entry level 0: its scan stops at the first neighbour that passes the checks. On the
  same state the scan of \<open>hnswdelete\<close> chooses block 3, of level 1, as the claim says.
\<close>

theorem hnswbulkdelete_entry_first_valid_ex:
  "entryPoint (metap ex_state3) = 1
   \<and> heapPtr (the (first_node ex_state3 1)) = (1, 1)
   \<and> listed_neighbors (the (first_node ex_state3 1)) (meta_m (metap ex_state3)) 1 = []
   \<and> listed_neighbors (the (first_node ex_state3 1)) (meta_m (metap ex_state3)) 0 = [2, 3]
   \<and> node_level (the (first_node ex_state3 2)) = 0
   \<and> node_level (the (first_node ex_state3 3)) = 1
   \<and> fst (hnswbulkdelete ex_page_header (\<lambda>tid. tid = (1, 1)) 0 ex_state3) = Inr 1
   \<and> entryPoint (metap (snd (hnswbulkdelete ex_page_header (\<lambda>tid. tid = (1, 1)) 0 ex_state3))) = 2
   \<and> entryLevel (metap (snd (hnswbulkdelete ex_page_header (\<lambda>tid. tid = (1, 1)) 0 ex_state3))) = 0
   \<and> fst (hnswdelete_replace_entry 1 1 ex_state3) = Inr ()
   \<and> entryPoint (metap (snd (hnswdelete_replace_entry 1 1 ex_state3))) = 3
   \<and> entryLevel (metap (snd (hnswdelete_replace_entry 1 1 ex_state3))) = 1"
proof -
  have a: "fst (hnswbulkdelete ex_page_header (\<lambda>tid. tid = (1, 1)) 0 ex_state3) = Inr 1"
    by (simp add: ex_defs ex_state3_def step_defs delete_defs eval_defs)
  have b: "entryPoint (metap (snd (hnswbulkdelete ex_page_header (\<lambda>tid. tid = (1, 1)) 0 ex_state3))) = 2"
    by (simp add: ex_defs ex_state3_def step_defs delete_defs eval_defs)
  have c: "entryLevel (metap (snd (hnswbulkdelete ex_page_header (\<lambda>tid. tid = (1, 1)) 0 ex_state3))) = 0"
    by (simp add: ex_defs ex_state3_def step_defs delete_defs eval_defs)
  have d: "entryPoint (metap ex_state3) = 1
     \<and> heapPtr (the (first_node ex_state3 1)) = (1, 1)
     \<and> listed_neighbors (the (first_node ex_state3 1)) (meta_m (metap ex_state3)) 1 = []
     \<and> listed_neighbors (the (first_node ex_state3 1)) (meta_m (metap ex_state3)) 0 = [2, 3]
     \<and> node_level (the (first_node ex_state3 2)) = 0
     \<and> node_level (the (first_node ex_state3 3)) = 1"
    by (simp add: ex_defs ex_state3_def step_defs graph_defs eval_defs)
  have e: "fst (hnswdelete_replace_entry 1 1 ex_state3) = Inr ()
     \<and> entryPoint (metap (snd (hnswdelete_replace_entry 1 1 ex_state3))) = 3
     \<and> entryLevel (metap (snd (hnswdelete_replace_entry 1 1 ex_state3))) = 1"
    by (simp add: ex_defs ex_state3_def step_defs delete_defs eval_defs)
  show ?thesis using a b c d e by simp
qed

subsection \<open>Links to a deleted node\<close>

lemma first_node_rd_log [simp]: "first_node (s\<lparr>rd_log := x\<rparr>) = first_node s"
  by (auto simp: first_node_def page_of_def RelationGetNumberOfBlocks_def fun_eq_iff)

lemma deref_item_state: "deref_item b off s = (r, s') \<Longrightarrow> s' = s"
  by (auto simp: deref_item_def split: if_splits Page.splits)

lemma ReadBuffer_valid:
  "hnswValidateBlockNumber nb s \<Longrightarrow>
     ReadBuffer nb s = (Inr (page_of s nb), s\<lparr>rd_log := rd_log s @ [nb]\<rparr>)"
  by (auto simp: hnswValidateBlockNumber_def ReadBuffer_def page_of_def Let_def
           split: if_splits)

lemma PageGetFirstItem_first_node:
  "hnswValidateBlockNumber nb s \<Longrightarrow> \<not> PageIsEmpty (page_of s nb) \<Longrightarrow>
     \<exists>n. first_node s nb = Some n \<and> PageGetFirstItem (page_of s nb) t = (Inr n, t)"
  by (auto simp: first_node_def hnswValidateBlockNumber_def Let_def PageIsEmpty_def
        PageGetFirstItem_def split: option.splits Page.splits list.splits if_splits)

text \<open>A read returns the value of the slot; a write changes that slot and no other.\<close>

lemma get_neighbor_InrD:
  "get_neighbor n level m i s = (Inr b, s') \<Longrightarrow>
     s' = s \<and> 0 \<le> level * m * 2 + i \<and> neighbor_slot n (nat (level * m * 2 + i)) = Some b"
  by (auto simp: get_neighbor_def Let_def split: if_splits option.splits)

lemma get_neighbor_cases:
  "(\<exists>e. get_neighbor n level m i s = (Inl e, s))
   \<or> (\<exists>b. get_neighbor n level m i s = (Inr b, s)
          \<and> neighbor_slot n (nat (level * m * 2 + i)) = Some b)"
  by (auto simp: get_neighbor_def Let_def split: option.splits)

lemma set_neighbor_InrD:
  assumes "set_neighbor n level m i b s = (Inr n', s')"
  shows "s' = s \<and> 0 \<le> level * m * 2 + i
         \<and> length (node_neighbors n') = length (node_neighbors n)
         \<and> neighborCount n' = neighborCount n \<and> node_level n' = node_level n
         \<and> (\<forall>p. neighbor_slot n' p =
               (if p = nat (level * m * 2 + i) then Some b else neighbor_slot n p))"
proof -
  let ?k = "level * m * 2 + i"
  have k: "0 \<le> ?k" using assms by (auto simp: set_neighbor_def Let_def split: if_splits)
  show ?thesis
  proof (cases "nat ?k < length (node_neighbors n)")
    case True
    then have "n' = n\<lparr>node_neighbors := (node_neighbors n)[nat ?k := b]\<rparr>" and "s' = s"
      using assms k by (auto simp: set_neighbor_def Let_def)
    then show ?thesis using True k by (auto simp: neighbor_slot_def nth_list_update)
  next
    case False
    then have "n' = n\<lparr>node_beyond := (node_beyond n)(nat ?k := Some b)\<rparr>" and "s' = s"
      using assms k by (auto simp: set_neighbor_def Let_def)
    then show ?thesis using False k by (auto simp: neighbor_slot_def)
  qed
qed

text \<open>
  The search of \<open>hnswRemoveNodeFromNeighbor\<close> returns the first index of the list whose
  slot holds the block, and the shift moves every slot from \<open>i\<close> to \<open>k\<close> one place to
  the left.
\<close>

lemma hnswRemoveNodeFromNeighbor_find_result:
  assumes "hnswRemoveNodeFromNeighbor_find n level m u is s = (Inr r, s')"
  shows "s' = s \<and> r = find (\<lambda>i. neighbor_slot n (nat (level * m * 2 + i)) = Some u) is"
  using assms
proof (induction "is")
  case Nil
  then show ?case by (simp add: returnE_def)
next
  case (Cons i rest)
  from get_neighbor_cases [of n level m i s]
  show ?case
  proof (elim disjE exE conjE)
    fix e assume "get_neighbor n level m i s = (Inl e, s)"
    then show ?thesis using Cons.prems by (simp add: bindE_def)
  next
    fix b assume g: "get_neighbor n level m i s = (Inr b, s)"
      and sl: "neighbor_slot n (nat (level * m * 2 + i)) = Some b"
    show ?thesis
    proof (cases "b = u")
      case True
      then show ?thesis using Cons.prems g sl by (simp add: bindE_def returnE_def)
    next
      case False
      then have "hnswRemoveNodeFromNeighbor_find n level m u rest s = (Inr r, s')"
        using Cons.prems g by (simp add: bindE_def)
      from Cons.IH [OF this] False sl show ?thesis by simp
    qed
  qed
qed

lemma hnswRemoveNodeFromNeighbor_shift_state:
  "hnswRemoveNodeFromNeighbor_shift level m js n s = (Inr n', s') \<Longrightarrow> s' = s"
proof (induction js arbitrary: n)
  case Nil
  then show ?case by (simp add: returnE_def)
next
  case (Cons j rest)
  from Cons.prems
  have run: "bindE (get_neighbor n level m (j + 1)) (\<lambda>b.
    bindE (set_neighbor n level m j b)
      (hnswRemoveNodeFromNeighbor_shift level m rest)) s = (Inr n', s')"
    by simp
  from bindE_Inr [OF run] obtain b s1 where
    g: "get_neighbor n level m (j + 1) s = (Inr b, s1)" and
    run2: "bindE (set_neighbor n level m j b)
      (hnswRemoveNodeFromNeighbor_shift level m rest) s1 = (Inr n', s')"
    by blast
  from bindE_Inr [OF run2] obtain n1 s2 where
    st: "set_neighbor n level m j b s1 = (Inr n1, s2)" and
    run3: "hnswRemoveNodeFromNeighbor_shift level m rest n1 s2 = (Inr n', s')"
    by blast
  have s1: "s1 = s" using get_neighbor_InrD [OF g] by simp
  have s2: "s2 = s1" using set_neighbor_InrD [OF st] by simp
  have "hnswRemoveNodeFromNeighbor_shift level m rest n1 s = (Inr n', s')"
    using run3 s1 s2 by simp
  then show ?case by (rule Cons.IH)
qed

lemma hnswRemoveNodeFromNeighbor_shift_result:
  assumes "hnswRemoveNodeFromNeighbor_shift level m [i .. k] n s = (Inr n', s')"
      and "0 \<le> level * m * 2 + i"
  shows "s' = s \<and> length (node_neighbors n') = length (node_neighbors n)
         \<and> neighborCount n' = neighborCount n \<and> node_level n' = node_level n
         \<and> (\<forall>p. neighbor_slot n' p =
               (if level * m * 2 + i \<le> int p \<and> int p \<le> level * m * 2 + k
                then neighbor_slot n (Suc p) else neighbor_slot n p))"
  using assms
proof (induction "nat (k + 1 - i)" arbitrary: i n)
  case 0
  then have "[i .. k] = []" by simp
  with 0 show ?case by (auto simp: returnE_def)
next
  case (Suc d)
  then have ik: "i \<le> k" by linarith
  then have up: "[i .. k] = i # [i + 1 .. k]" by (simp add: upto_rec1)
  let ?b = "level * m * 2"
  from Suc.prems(1) up
  have run: "bindE (get_neighbor n level m (i + 1)) (\<lambda>b.
    bindE (set_neighbor n level m i b)
      (hnswRemoveNodeFromNeighbor_shift level m [i + 1 .. k])) s = (Inr n', s')"
    by simp
  from bindE_Inr [OF run] obtain b s1 where
    g: "get_neighbor n level m (i + 1) s = (Inr b, s1)" and
    run2: "bindE (set_neighbor n level m i b)
      (hnswRemoveNodeFromNeighbor_shift level m [i + 1 .. k]) s1 = (Inr n', s')"
    by blast
  from bindE_Inr [OF run2] obtain n1 s2 where
    st: "set_neighbor n level m i b s1 = (Inr n1, s2)" and
    run3: "hnswRemoveNodeFromNeighbor_shift level m [i + 1 .. k] n1 s2 = (Inr n', s')"
    by blast
  from get_neighbor_InrD [OF g] have s1: "s1 = s"
    and b: "neighbor_slot n (nat (?b + (i + 1))) = Some b"
    by simp_all
  from set_neighbor_InrD [OF st] have s2: "s2 = s1"
    and n1: "length (node_neighbors n1) = length (node_neighbors n)"
      "neighborCount n1 = neighborCount n" "node_level n1 = node_level n"
    and n1s: "\<And>p. neighbor_slot n1 p = (if p = nat (?b + i) then Some b else neighbor_slot n p)"
    by simp_all
  have d: "d = nat (k + 1 - (i + 1))" using Suc.hyps(2) by linarith
  have pos: "0 \<le> ?b + (i + 1)" using Suc.prems(2) by linarith
  have run3': "hnswRemoveNodeFromNeighbor_shift level m [i + 1 .. k] n1 s = (Inr n', s')"
    using run3 s1 s2 by simp
  note IH = Suc.hyps(1) [OF d run3' pos]
  have nth: "neighbor_slot n' p =
               (if ?b + i \<le> int p \<and> int p \<le> ?b + k
                then neighbor_slot n (Suc p) else neighbor_slot n p)" for p
  proof -
    have e1: "neighbor_slot n' p =
        (if ?b + (i + 1) \<le> int p \<and> int p \<le> ?b + k
         then neighbor_slot n1 (Suc p) else neighbor_slot n1 p)"
      using IH by simp
    show ?thesis
    proof (cases "int p = ?b + i")
      case True
      then have p: "p = nat (?b + i)" by linarith
      have "neighbor_slot n1 p = Some b" using n1s p by simp
      moreover have "Suc p = nat (?b + (i + 1))" using p Suc.prems(2) by linarith
      ultimately show ?thesis using e1 True b ik by simp
    next
      case False
      then have pn: "p \<noteq> nat (?b + i)" using Suc.prems(2) by linarith
      show ?thesis
      proof (cases "?b + (i + 1) \<le> int p \<and> int p \<le> ?b + k")
        case True
        then have "Suc p \<noteq> nat (?b + i)" by linarith
        then show ?thesis using e1 True n1s by simp
      next
        case f: False
        then show ?thesis using e1 n1s pn False by auto
      qed
    qed
  qed
  show ?case using IH s1 s2 n1 nth by simp
qed

lemma upto_as_upt: "0 \<le> c \<Longrightarrow> [0 .. c - 1] = map int [0 ..< nat c]"
  by (rule nth_equalityI) auto

lemma count_list_take_le: "count_list (take k xs) x \<le> count_list xs x"
proof -
  have "count_list (take k xs @ drop k xs) x = count_list (take k xs) x + count_list (drop k xs) x"
    by (rule count_list_append)
  then show ?thesis by simp
qed

lemma count_list_remove_nth:
  assumes "i < length xs" and "xs ! i = x"
  shows "count_list (take i xs @ drop (Suc i) xs) x = count_list xs x - 1"
proof -
  have "xs = take i xs @ xs ! i # drop (Suc i) xs" using assms(1) by (rule id_take_nth_drop)
  then have "count_list xs x = count_list (take i xs @ xs ! i # drop (Suc i) xs) x" by simp
  also have "\<dots> = count_list (take i xs) x + 1 + count_list (drop (Suc i) xs) x"
    using assms(2) by simp
  finally show ?thesis by simp
qed

lemma set_map_filter: "set (List.map_filter f xs) = {y. \<exists>x\<in>set xs. f x = Some y}"
  by (induction xs) (auto simp: List.map_filter_simps split: option.splits)

lemma count_list_map_filter:
  "count_list (List.map_filter f xs) y = count_list (map f xs) (Some y)"
  by (induction xs) (auto simp: List.map_filter_simps split: option.splits)

lemma map_filter_map: "List.map_filter f (map g xs) = List.map_filter (\<lambda>x. f (g x)) xs"
  by (induction xs) (auto simp: List.map_filter_simps split: option.splits)

lemma hnswValidateNeighborCount_range:
  "1 \<le> m \<Longrightarrow> m \<le> 16383 \<Longrightarrow>
     0 \<le> hnswValidateNeighborCount x m level \<and> hnswValidateNeighborCount x m level \<le> m * 2"
  by (auto simp: hnswValidateNeighborCount_def int16_def Let_def)

lemma hnswValidateNeighborCount_dec:
  assumes "1 \<le> m" "m \<le> 16383" "0 < hnswValidateNeighborCount x m level"
  shows "hnswValidateNeighborCount (int16 (x - 1)) m level \<le> hnswValidateNeighborCount x m level"
proof -
  have m2: "int16 (m * 2) = m * 2" using assms(1,2) by (simp add: int16_def)
  have x: "0 < x" using assms(3) m2 by (auto simp: hnswValidateNeighborCount_def Let_def split: if_splits)
  show ?thesis
  proof (cases "x \<le> m * 2")
    case True
    then have "int16 (x - 1) = x - 1" using x assms(2) by (simp add: int16_def)
    then show ?thesis using True x m2 by (auto simp: hnswValidateNeighborCount_def Let_def)
  next
    case False
    then have "hnswValidateNeighborCount x m level = m * 2"
      using m2 x by (auto simp: hnswValidateNeighborCount_def Let_def)
    then show ?thesis using hnswValidateNeighborCount_range [OF assms(1,2)] by simp
  qed
qed

text \<open>
  The neighbours a node lists at a level, by slots counted from the start of the level's
  run.
\<close>

lemma listed_neighbors_upt:
  assumes "1 \<le> m" "m \<le> 16383" "0 \<le> level"
  shows "listed_neighbors n m level =
           List.map_filter (\<lambda>k. neighbor_slot n (nat (level * m * 2) + k))
             [0 ..< nat (hnswValidateNeighborCount (neighborCount n (nat level)) m level)]"
proof -
  let ?c = "hnswValidateNeighborCount (neighborCount n (nat level)) m level"
  have c: "0 \<le> ?c" using hnswValidateNeighborCount_range [OF assms(1,2)] by simp
  have b: "0 \<le> level * m * 2" using assms by simp
  have "nat (level * m * 2 + int k) = nat (level * m * 2) + k" for k
    using b by linarith
  then show ?thesis
    by (simp add: listed_neighbors_def upto_as_upt [OF c] map_filter_map)
qed

lemma count_listed_neighbors:
  assumes "1 \<le> m" "m \<le> 16383" "0 \<le> level"
  shows "count_list (listed_neighbors n m level) u =
           count_list (map (\<lambda>k. neighbor_slot n (nat (level * m * 2) + k))
             [0 ..< nat (hnswValidateNeighborCount (neighborCount n (nat level)) m level)])
             (Some u)"
  by (simp add: listed_neighbors_upt [OF assms] count_list_map_filter)

lemma map_filter_eqI:
  "(\<And>x. x \<in> set xs \<Longrightarrow> f x = g x) \<Longrightarrow> List.map_filter f xs = List.map_filter g xs"
  by (induction xs) (auto simp: List.map_filter_simps split: option.splits)

lemma removed_same_level:
  fixes N N' :: "'v HnswNodeData"
  assumes m: "1 \<le> m" "m \<le> 16383" and lev: "0 \<le> lev"
    and c: "c = hnswValidateNeighborCount (neighborCount N (nat lev)) m lev"
    and i: "0 \<le> i" "i < c" and hit: "neighbor_slot N (nat (lev * m * 2 + i)) = Some u"
    and ux: "u \<noteq> X"
    and nth: "\<forall>p. neighbor_slot N' p =
               (if int p = lev * m * 2 + c - 1 then Some X
                else if lev * m * 2 + i \<le> int p \<and> int p \<le> lev * m * 2 + c - 2
                     then neighbor_slot N (Suc p) else neighbor_slot N p)"
    and cnt: "neighborCount N' (nat lev) = int16 (neighborCount N (nat lev) - 1)"
  shows "count_list (listed_neighbors N' m lev) u \<le> count_list (listed_neighbors N m lev) u - 1"
proof -
  let ?T = "neighbor_slot N" and ?T' = "neighbor_slot N'"
  define b where "b = nat (lev * m * 2)"
  define C where "C = nat c"
  define I where "I = nat i"
  define C' where "C' = nat (hnswValidateNeighborCount (neighborCount N' (nat lev)) m lev)"
  define L where "L = map (\<lambda>k. ?T (b + k)) [0 ..< C]"
  define M where "M = map (\<lambda>k. ?T' (b + k)) [0 ..< C]"
  have b0: "0 \<le> lev * m * 2" using m lev by simp
  have bi: "int b = lev * m * 2" using b0 by (simp add: b_def)
  have IC: "I < C" using i by (simp add: I_def C_def)
  have ci: "int C = c" using i by (simp add: C_def)
  have ii: "int I = i" using i by (simp add: I_def)
  have cpos: "0 < hnswValidateNeighborCount (neighborCount N (nat lev)) m lev"
    using i c by simp
  have C'C: "C' \<le> C"
    using hnswValidateNeighborCount_dec [OF m cpos] cnt c by (simp add: C'_def C_def)
  have L: "count_list (listed_neighbors N m lev) u = count_list L (Some u)"
    by (simp add: count_listed_neighbors [OF m lev] L_def b_def C_def c)
  have L': "count_list (listed_neighbors N' m lev) u = count_list (take C' M) (Some u)"
    using C'C by (simp add: count_listed_neighbors [OF m lev] M_def b_def C'_def take_map)
  have nth': "?T' (b + k) =
               (if k = C - 1 then Some X
                else if I \<le> k \<and> k + 2 \<le> C then ?T (b + Suc k) else ?T (b + k))"
    if "k < C" for k
  proof -
    have e1: "(int (b + k) = lev * m * 2 + c - 1) = (k = C - 1)"
      using bi ci that by linarith
    have e2: "(lev * m * 2 + i \<le> int (b + k) \<and> int (b + k) \<le> lev * m * 2 + c - 2)
                = (I \<le> k \<and> k + 2 \<le> C)"
      using bi ci ii by linarith
    show ?thesis using nth [rule_format, of "b + k"] e1 e2 by simp
  qed
  have M: "M = take I L @ drop (Suc I) L @ [Some X]"
  proof (rule nth_equalityI)
    show "length M = length (take I L @ drop (Suc I) L @ [Some X])"
      using IC by (simp add: M_def L_def)
  next
    fix k assume "k < length M"
    then have k: "k < C" by (simp add: M_def)
    show "M ! k = (take I L @ drop (Suc I) L @ [Some X]) ! k"
    proof (cases "k < I")
      case True
      then have "k \<noteq> C - 1" "\<not> I \<le> k" using IC by linarith+
      then show ?thesis using True k IC nth' [OF k] by (simp add: M_def L_def nth_append)
    next
      case False
      show ?thesis
      proof (cases "k = C - 1")
        case True
        have "length (take I L @ drop (Suc I) L) = k"
          using True IC by (simp add: L_def)
        then have "(take I L @ drop (Suc I) L @ [Some X]) ! k = Some X"
          using nth_append_length [of "take I L @ drop (Suc I) L" "Some X" "[]"] by simp
        then show ?thesis using k True nth' [OF k] by (simp add: M_def)
      next
        case nl: False
        then have k2: "k + 2 \<le> C" using k by linarith
        have ik: "I \<le> k" using False by simp
        have "(take I L @ drop (Suc I) L @ [Some X]) ! k = (drop (Suc I) L @ [Some X]) ! (k - I)"
          using ik IC by (simp add: nth_append L_def)
        also have "\<dots> = drop (Suc I) L ! (k - I)"
        proof -
          have "k - I < length (drop (Suc I) L)" using ik k2 IC by (simp add: L_def)
          then show ?thesis by (simp add: nth_append)
        qed
        also have "\<dots> = L ! Suc k"
        proof -
          have "Suc I + (k - I) = Suc k" using ik by simp
          moreover have "Suc k < length L" using k2 by (simp add: L_def)
          ultimately show ?thesis by simp
        qed
        finally show ?thesis using k k2 ik nl nth' [OF k] by (simp add: M_def L_def)
      qed
    qed
  qed
  have hitL: "L ! I = Some u" using IC hit bi ii b0 i
    by (simp add: L_def b_def I_def nat_add_distrib)
  have "count_list (take C' M) (Some u) \<le> count_list M (Some u)" by (rule count_list_take_le)
  also have "\<dots> = count_list (take I L @ drop (Suc I) L) (Some u)"
    using ux by (simp add: M)
  also have "\<dots> = count_list L (Some u) - 1"
    using IC hitL by (intro count_list_remove_nth) (simp_all add: L_def)
  finally show ?thesis by (simp add: L L')
qed

lemma removed_other_level:
  fixes N N' :: "'v HnswNodeData"
  assumes m: "1 \<le> m" "m \<le> 16383" and lev: "0 \<le> lev" "0 \<le> lev'" "lev' \<noteq> lev"
    and c: "c = hnswValidateNeighborCount (neighborCount N (nat lev)) m lev"
    and i: "0 \<le> i" "i < c"
    and nth: "\<forall>p. neighbor_slot N' p =
               (if int p = lev * m * 2 + c - 1 then Some X
                else if lev * m * 2 + i \<le> int p \<and> int p \<le> lev * m * 2 + c - 2
                     then neighbor_slot N (Suc p) else neighbor_slot N p)"
    and cnt: "neighborCount N' (nat lev') = neighborCount N (nat lev')"
  shows "listed_neighbors N' m lev' = listed_neighbors N m lev'"
proof -
  let ?c' = "hnswValidateNeighborCount (neighborCount N (nat lev')) m lev'"
  have c2: "c \<le> m * 2" using hnswValidateNeighborCount_range [OF m] c by simp
  have c'2: "?c' \<le> m * 2" using hnswValidateNeighborCount_range [OF m] by simp
  have b': "0 \<le> lev' * m * 2" using m lev by simp
  have same: "neighbor_slot N' (nat (lev' * m * 2) + k) = neighbor_slot N (nat (lev' * m * 2) + k)"
    if "k < nat ?c'" for k
  proof -
    let ?p = "nat (lev' * m * 2) + k"
    have p: "int ?p = lev' * m * 2 + int k" using b' by simp
    have kk: "int k < m * 2" using that c'2 by linarith
    have out: "int ?p < lev * m * 2 + i \<or> lev * m * 2 + c - 1 < int ?p"
    proof (cases "lev' < lev")
      case True
      then have "lev' + 1 \<le> lev" by simp
      then have "(lev' + 1) * (m * 2) \<le> lev * (m * 2)"
        using m by (intro mult_right_mono) simp_all
      then have "lev' * m * 2 + m * 2 \<le> lev * m * 2" by (simp add: algebra_simps)
      then show ?thesis using p kk i by linarith
    next
      case False
      then have "lev + 1 \<le> lev'" using lev by simp
      then have "(lev + 1) * (m * 2) \<le> lev' * (m * 2)"
        using m by (intro mult_right_mono) simp_all
      then have "lev * m * 2 + m * 2 \<le> lev' * m * 2" by (simp add: algebra_simps)
      then show ?thesis using p c2 by linarith
    qed
    then show ?thesis using nth [rule_format, of ?p] i by auto
  qed
  have "List.map_filter (\<lambda>k. neighbor_slot N' (nat (lev' * m * 2) + k)) [0 ..< nat ?c']
          = List.map_filter (\<lambda>k. neighbor_slot N (nat (lev' * m * 2) + k)) [0 ..< nat ?c']"
    by (rule map_filter_eqI) (simp add: same)
  then show ?thesis
    by (simp add: listed_neighbors_upt [OF m lev(2)] cnt)
qed

lemma first_node_SomeD:
  "first_node t b = Some n \<Longrightarrow>
     1 \<le> b \<and> b < RelationGetNumberOfBlocks t
     \<and> (\<exists>fl its. node_pages t ! (b - 1) = PageItems ((fl, n) # its))"
  by (auto simp: first_node_def page_of_def split: if_splits Page.splits list.splits)

lemma write_node_frame2:
  "metap (write_node nb new t) = metap t"
  "length (node_pages (write_node nb new t)) = length (node_pages t)"
  "Suc k \<noteq> nb \<Longrightarrow> node_pages (write_node nb new t) ! k = node_pages t ! k"
  by (auto simp: write_node_def split: Page.splits list.splits)

lemma first_node_write_node:
  assumes "first_node t nb = Some old"
  shows "first_node (write_node nb new t) b = (if b = nb then Some new else first_node t b)"
proof -
  from first_node_SomeD [OF assms] obtain fl its where
    nb: "1 \<le> nb" "nb < RelationGetNumberOfBlocks t"
    and pg: "node_pages t ! (nb - 1) = PageItems ((fl, old) # its)" by blast
  have w: "write_node nb new t
             = t\<lparr>node_pages := (node_pages t)[nb - 1 := PageItems ((fl, new) # its)]\<rparr>"
    using nb pg by (simp add: write_node_def)
  have len: "nb - 1 < length (node_pages t)"
    using nb by (auto simp: RelationGetNumberOfBlocks_def)
  show ?thesis
  proof (cases "b = nb")
    case True
    then show ?thesis using nb len
      by (simp add: w first_node_def page_of_def RelationGetNumberOfBlocks_def)
  next
    case False
    then have "b - 1 \<noteq> nb - 1 \<or> b = 0" using nb by linarith
    then show ?thesis using False
      by (auto simp: w first_node_def page_of_def RelationGetNumberOfBlocks_def)
  qed
qed

lemma first_node_valid_block:
  "first_node t b = Some n \<Longrightarrow> b \<noteq> InvalidBlockNumber \<Longrightarrow> hnswValidateBlockNumber b t"
  by (auto simp: first_node_def hnswValidateBlockNumber_def Let_def split: if_splits)

lemma first_node_not_empty:
  "first_node t b = Some n \<Longrightarrow> \<not> PageIsEmpty (page_of t b)"
  by (auto simp: first_node_def PageIsEmpty_def split: if_splits Page.splits list.splits)

text \<open>
  \<open>hnswRemoveNodeFromNeighbor\<close> returns in one of two ways: without a write, when a check
  fails or the block is not in the list, or after the write of the shifted list.
\<close>

lemma hnswRemoveNodeFromNeighbor_cases:
  assumes run: "hnswRemoveNodeFromNeighbor nb u lev t = (Inr (), t')"
  shows "(\<exists>l. t' = t\<lparr>rd_log := l\<rparr>
          \<and> \<not> (hnswValidateBlockNumber nb t \<and> hnswValidateLevelSafe lev
               \<and> (\<exists>old. first_node t nb = Some old \<and> hnswValidateLevelSafe (node_level old)
                     \<and> u \<in> set (listed_neighbors old (meta_m (metap t)) lev))))
       \<or> (\<exists>old i n1 n2 l.
            hnswValidateBlockNumber nb t \<and> hnswValidateLevelSafe lev
          \<and> first_node t nb = Some old \<and> hnswValidateLevelSafe (node_level old)
          \<and> find (\<lambda>i. neighbor_slot old (nat (lev * meta_m (metap t) * 2 + i)) = Some u)
               [0 .. hnswValidateNeighborCount (neighborCount old (nat lev)) (meta_m (metap t)) lev - 1]
              = Some i
          \<and> hnswRemoveNodeFromNeighbor_shift lev (meta_m (metap t))
               [i .. hnswValidateNeighborCount (neighborCount old (nat lev)) (meta_m (metap t)) lev - 2]
               old (t\<lparr>rd_log := l\<rparr>) = (Inr n1, t\<lparr>rd_log := l\<rparr>)
          \<and> set_neighbor n1 lev (meta_m (metap t))
               (hnswValidateNeighborCount (neighborCount old (nat lev)) (meta_m (metap t)) lev - 1)
               InvalidBlockNumber (t\<lparr>rd_log := l\<rparr>) = (Inr n2, t\<lparr>rd_log := l\<rparr>)
          \<and> t' = write_node nb
                   (n2\<lparr>neighborCount := (neighborCount n2)(nat lev :=
                          int16 (neighborCount n2 (nat lev) - 1))\<rparr>) (t\<lparr>rd_log := l\<rparr>))"
proof (cases "hnswValidateBlockNumber nb t \<and> hnswValidateLevelSafe lev")
  case False
  then have "t' = t" using run
    by (auto simp: hnswRemoveNodeFromNeighbor_def returnE_def split: if_splits)
  then have "t' = t\<lparr>rd_log := rd_log t\<rparr>" by simp
  then show ?thesis using False by blast
next
  case G: True
  let ?t1 = "t\<lparr>rd_log := rd_log t @ [nb]\<rparr>"
  let ?t2 = "t\<lparr>rd_log := rd_log t @ [nb] @ [0]\<rparr>"
  let ?m = "meta_m (metap t)"
  have rb: "ReadBuffer nb t = (Inr (page_of t nb), ?t1)"
    using G by (simp add: ReadBuffer_valid)
  show ?thesis
  proof (cases "PageIsEmpty (page_of t nb)")
    case True
    then have "t' = ?t1" using run G rb
      by (simp add: hnswRemoveNodeFromNeighbor_def bindE_def returnE_def)
    moreover have "\<not> (\<exists>old. first_node t nb = Some old)"
      using True first_node_not_empty by blast
    ultimately show ?thesis by blast
  next
    case ne: False
    from PageGetFirstItem_first_node [of nb t ?t1] G ne obtain old where
      fn: "first_node t nb = Some old" and
      pg: "PageGetFirstItem (page_of t nb) ?t1 = (Inr old, ?t1)" by blast
    show ?thesis
    proof (cases "hnswValidateLevelSafe (node_level old)")
      case False
      then have "t' = ?t1" using run G rb ne pg
        by (simp add: hnswRemoveNodeFromNeighbor_def bindE_def returnE_def)
      then show ?thesis using False fn by auto
    next
      case lv: True
      let ?c = "hnswValidateNeighborCount (neighborCount old (nat lev)) ?m lev"
      have rest: "bindE (hnswRemoveNodeFromNeighbor_find old lev ?m u [0 .. ?c - 1]) (\<lambda>found.
                   case found of
                     None \<Rightarrow> returnE ()
                   | Some i \<Rightarrow>
                       bindE (hnswRemoveNodeFromNeighbor_shift lev ?m [i .. ?c - 2] old) (\<lambda>n1.
                       bindE (set_neighbor n1 lev ?m (?c - 1) InvalidBlockNumber)
                         (\<lambda>n2.
                           modifyE
                             (write_node nb
                                (n2\<lparr>neighborCount :=
                                   (neighborCount n2)(nat lev :=
                                      int16 (neighborCount n2 (nat lev) - 1))\<rparr>))))) ?t2
                   = (Inr (), t')"
        using run G rb ne pg lv
        by (simp add: hnswRemoveNodeFromNeighbor_def bindE_def ReadMetaPage_def Let_def
                 cong: option.case_cong prod.case_cong sum.case_cong)
      from bindE_Inr [OF rest] obtain found s1 where
        f: "hnswRemoveNodeFromNeighbor_find old lev ?m u [0 .. ?c - 1] ?t2 = (Inr found, s1)" and
        k: "(case found of
                     None \<Rightarrow> returnE ()
                   | Some i \<Rightarrow>
                       bindE (hnswRemoveNodeFromNeighbor_shift lev ?m [i .. ?c - 2] old) (\<lambda>n1.
                       bindE (set_neighbor n1 lev ?m (?c - 1) InvalidBlockNumber)
                         (\<lambda>n2.
                           modifyE
                             (write_node nb
                                (n2\<lparr>neighborCount :=
                                   (neighborCount n2)(nat lev :=
                                      int16 (neighborCount n2 (nat lev) - 1))\<rparr>))))) s1
                = (Inr (), t')"
        by blast
      from hnswRemoveNodeFromNeighbor_find_result [OF f]
      have s1: "s1 = ?t2"
        and found: "found = find (\<lambda>i. neighbor_slot old (nat (lev * ?m * 2 + i)) = Some u) [0 .. ?c - 1]"
        by simp_all
      show ?thesis
      proof (cases found)
        case None
        then have "t' = ?t2" using k s1 by (simp add: returnE_def)
        moreover have "u \<notin> set (listed_neighbors old ?m lev)"
          using None found by (auto simp: listed_neighbors_def set_map_filter find_None_iff)
        ultimately show ?thesis using fn by auto
      next
        case (Some i)
        with k s1 have k2: "bindE (hnswRemoveNodeFromNeighbor_shift lev ?m [i .. ?c - 2] old) (\<lambda>n1.
                       bindE (set_neighbor n1 lev ?m (?c - 1) InvalidBlockNumber)
                         (\<lambda>n2.
                           modifyE
                             (write_node nb
                                (n2\<lparr>neighborCount :=
                                   (neighborCount n2)(nat lev :=
                                      int16 (neighborCount n2 (nat lev) - 1))\<rparr>)))) ?t2
                = (Inr (), t')" by simp
        from bindE_Inr [OF k2] obtain n1 s2 where
          sh: "hnswRemoveNodeFromNeighbor_shift lev ?m [i .. ?c - 2] old ?t2 = (Inr n1, s2)" and
          k3: "bindE (set_neighbor n1 lev ?m (?c - 1) InvalidBlockNumber)
                         (\<lambda>n2.
                           modifyE
                             (write_node nb
                                (n2\<lparr>neighborCount :=
                                   (neighborCount n2)(nat lev :=
                                      int16 (neighborCount n2 (nat lev) - 1))\<rparr>))) s2
                = (Inr (), t')" by blast
        from bindE_Inr [OF k3] obtain n2 s3 where
          st: "set_neighbor n1 lev ?m (?c - 1) InvalidBlockNumber s2 = (Inr n2, s3)" and
          k4: "modifyE (write_node nb
                                (n2\<lparr>neighborCount :=
                                   (neighborCount n2)(nat lev :=
                                      int16 (neighborCount n2 (nat lev) - 1))\<rparr>)) s3
                = (Inr (), t')" by blast
        have s2: "s2 = ?t2" using sh by (rule hnswRemoveNodeFromNeighbor_shift_state)
        have s3: "s3 = s2" using set_neighbor_InrD [OF st] by simp
        have t': "t' = write_node nb
                   (n2\<lparr>neighborCount := (neighborCount n2)(nat lev :=
                          int16 (neighborCount n2 (nat lev) - 1))\<rparr>) ?t2"
          using k4 s2 s3 by (simp add: modifyE_def)
        show ?thesis
          apply (rule disjI2)
          apply (rule exI [of _ old], rule exI [of _ i], rule exI [of _ n1], rule exI [of _ n2])
          apply (rule exI [of _ "rd_log t @ [nb] @ [0]"])
          using G fn lv found Some sh st s2 s3 t' by simp
      qed
    qed
  qed
qed

lemma find_SomeD: "find P xs = Some x \<Longrightarrow> P x \<and> x \<in> set xs"
  by (induction xs) (auto split: if_splits)

lemma count_list_notin: "x \<notin> set xs \<Longrightarrow> count_list xs x = 0"
  by (induction xs) auto

lemma count_list_0_notin: "count_list xs x = 0 \<Longrightarrow> x \<notin> set xs"
  by (induction xs) (auto split: if_splits)

lemma hnswRemoveNodeFromNeighbor_effect:
  fixes t :: "('v, 'f) hnsw_state"
  assumes run: "hnswRemoveNodeFromNeighbor nb u lev t = (Inr (), t')"
      and m: "1 \<le> meta_m (metap t)" "meta_m (metap t) \<le> 16383"
      and u: "u \<noteq> InvalidBlockNumber"
      and l: "0 \<le> l"
      and fn: "first_node t v = Some nv"
  shows "metap t' = metap t \<and> length (node_pages t') = length (node_pages t)
       \<and> (\<forall>k. Suc k \<noteq> nb \<longrightarrow> node_pages t' ! k = node_pages t ! k)
       \<and> (\<exists>nv'. first_node t' v = Some nv' \<and> node_level nv' = node_level nv
            \<and> count_list (listed_neighbors nv' (meta_m (metap t)) l) u
                \<le> count_list (listed_neighbors nv (meta_m (metap t)) l) u
            \<and> (nb = v \<and> lev = l \<and> v \<noteq> InvalidBlockNumber \<and> hnswValidateLevelSafe l
                 \<and> hnswValidateLevelSafe (node_level nv)
                 \<longrightarrow> count_list (listed_neighbors nv' (meta_m (metap t)) l) u
                       \<le> count_list (listed_neighbors nv (meta_m (metap t)) l) u - 1))"
proof -
  let ?m = "meta_m (metap t)"
  from hnswRemoveNodeFromNeighbor_cases [OF run]
  show ?thesis
  proof (elim disjE exE conjE)
    fix lg
    assume t': "t' = t\<lparr>rd_log := lg\<rparr>"
      and no: "\<not> (hnswValidateBlockNumber nb t \<and> hnswValidateLevelSafe lev
               \<and> (\<exists>old. first_node t nb = Some old \<and> hnswValidateLevelSafe (node_level old)
                     \<and> u \<in> set (listed_neighbors old ?m lev)))"
    have strict: "count_list (listed_neighbors nv ?m l) u = 0"
      if "nb = v \<and> lev = l \<and> v \<noteq> InvalidBlockNumber \<and> hnswValidateLevelSafe l
                 \<and> hnswValidateLevelSafe (node_level nv)"
    proof -
      have "hnswValidateBlockNumber nb t" using that fn first_node_valid_block by blast
      then have "u \<notin> set (listed_neighbors nv ?m l)" using no that fn by auto
      then show ?thesis by (rule count_list_notin)
    qed
    show ?thesis using t' fn strict by auto
  next
    fix old n1 n2 :: "'v HnswNodeData" and i :: int and lg :: "nat list"
    let ?t0 = "t\<lparr>rd_log := lg\<rparr>"
    let ?c = "hnswValidateNeighborCount (neighborCount old (nat lev)) ?m lev"
    let ?b = "lev * ?m * 2"
    let ?N = "n2\<lparr>neighborCount := (neighborCount n2)(nat lev :=
                          int16 (neighborCount n2 (nat lev) - 1))\<rparr>"
    assume vb: "hnswValidateBlockNumber nb t" and vl: "hnswValidateLevelSafe lev"
      and fo: "first_node t nb = Some old"
      and vo: "hnswValidateLevelSafe (node_level old)"
      and fi: "find (\<lambda>i. neighbor_slot old (nat (?b + i)) = Some u) [0 .. ?c - 1] = Some i"
      and sh: "hnswRemoveNodeFromNeighbor_shift lev ?m [i .. ?c - 2] old ?t0 = (Inr n1, ?t0)"
      and st: "set_neighbor n1 lev ?m (?c - 1) InvalidBlockNumber ?t0 = (Inr n2, ?t0)"
      and t': "t' = write_node nb ?N ?t0"
    have lev0: "0 \<le> lev" using vl by (simp add: hnswValidateLevelSafe_def)
    have b0: "0 \<le> ?b" using lev0 m by simp
    from find_SomeD [OF fi] have hit: "neighbor_slot old (nat (?b + i)) = Some u"
      and i: "0 \<le> i" "i < ?c" by auto
    from hnswRemoveNodeFromNeighbor_shift_result [OF sh] b0 i
    have n1: "neighborCount n1 = neighborCount old" "node_level n1 = node_level old"
      and n1nth: "\<forall>p. neighbor_slot n1 p =
               (if ?b + i \<le> int p \<and> int p \<le> ?b + (?c - 2)
                then neighbor_slot old (Suc p) else neighbor_slot old p)"
      by simp_all
    from set_neighbor_InrD [OF st]
    have n2: "neighborCount n2 = neighborCount n1" "node_level n2 = node_level n1"
      and n2nth: "\<forall>p. neighbor_slot n2 p =
               (if p = nat (?b + (?c - 1)) then Some InvalidBlockNumber else neighbor_slot n1 p)"
      by simp_all
    have nth: "\<forall>p. neighbor_slot ?N p =
               (if int p = ?b + ?c - 1 then Some InvalidBlockNumber
                else if ?b + i \<le> int p \<and> int p \<le> ?b + ?c - 2
                     then neighbor_slot old (Suc p) else neighbor_slot old p)"
    proof
      fix p
      have e: "(p = nat (?b + (?c - 1))) = (int p = ?b + ?c - 1)" using b0 i by linarith
      have "neighbor_slot ?N p = neighbor_slot n2 p" by (simp add: neighbor_slot_def)
      then show "neighbor_slot ?N p =
               (if int p = ?b + ?c - 1 then Some InvalidBlockNumber
                else if ?b + i \<le> int p \<and> int p \<le> ?b + ?c - 2
                     then neighbor_slot old (Suc p) else neighbor_slot old p)"
        using e n2nth [rule_format, of p] n1nth [rule_format, of p] by (simp add: algebra_simps)
    qed
    have cnt_same: "neighborCount ?N (nat lev) = int16 (neighborCount old (nat lev) - 1)"
      by (simp add: n2 n1)
    have cnt_other: "neighborCount ?N (nat lev') = neighborCount old (nat lev')"
      if "0 \<le> lev'" "lev' \<noteq> lev" for lev'
    proof -
      have "nat lev' \<noteq> nat lev" using that lev0 by linarith
      then show ?thesis by (simp add: n2 n1)
    qed
    have levN: "node_level ?N = node_level old" by (simp add: n2 n1)
    have same: "count_list (listed_neighbors ?N ?m lev) u
                  \<le> count_list (listed_neighbors old ?m lev) u - 1"
      by (rule removed_same_level [OF m lev0 refl i hit u nth cnt_same])
    have other: "listed_neighbors ?N ?m lev' = listed_neighbors old ?m lev'"
      if "0 \<le> lev'" "lev' \<noteq> lev" for lev'
      by (rule removed_other_level [OF m lev0 that refl i nth cnt_other [OF that]])
    have fo0: "first_node ?t0 nb = Some old" using fo by simp
    have fn': "first_node t' b = (if b = nb then Some ?N else first_node t b)" for b
      using first_node_write_node [OF fo0, of ?N b] by (simp add: t')
    have frame: "metap t' = metap t \<and> length (node_pages t') = length (node_pages t)
       \<and> (\<forall>k. Suc k \<noteq> nb \<longrightarrow> node_pages t' ! k = node_pages t ! k)"
      by (simp add: t' write_node_frame2)
    show ?thesis
    proof (cases "v = nb")
      case False
      then show ?thesis using frame fn' [of v] fn by auto
    next
      case True
      then have nv: "nv = old" using fn fo by simp
      show ?thesis
      proof (cases "l = lev")
        case True
        have "count_list (listed_neighbors ?N ?m l) u
                \<le> count_list (listed_neighbors nv ?m l) u - 1"
          using same True nv by simp
        then show ?thesis using frame fn' [of v] \<open>v = nb\<close> levN nv
          by auto
      next
        case False
        have "listed_neighbors ?N ?m l = listed_neighbors nv ?m l"
          using other [OF l False] nv by simp
        then show ?thesis using frame fn' [of v] \<open>v = nb\<close> levN nv False
          by auto
      qed
    qed
  qed
qed

lemma deref_item_frame:
  assumes "deref_item b off t = (Inr it, t)"
      and "length (node_pages t1) = length (node_pages t)"
      and "node_pages t1 ! (b - 1) = node_pages t ! (b - 1)"
  shows "deref_item b off t1 = (Inr it, t1)"
  using assms
  by (auto simp: deref_item_def RelationGetNumberOfBlocks_def split: if_splits Page.splits)

lemma deref_item_block: "deref_item b off t = (Inr it, t') \<Longrightarrow> 1 \<le> b"
  by (auto simp: deref_item_def split: if_splits)

lemma hnswbulkdelete_unlink_level_effect:
  fixes t :: "('v, 'f) hnsw_state"
  assumes run: "hnswbulkdelete_unlink_level u off lev m is t = (Inr (), t')"
      and d: "deref_item u off t = (Inr it, t)"
      and mm: "meta_m (metap t) = m" "1 \<le> m" "m \<le> 16383"
      and u: "u \<noteq> InvalidBlockNumber"
      and noself: "\<forall>i\<in>set is. neighbor_slot (snd it) (nat (lev * m * 2 + i)) \<noteq> Some u"
      and l: "0 \<le> l"
      and fn: "first_node t v = Some nv"
  shows "metap t' = metap t \<and> deref_item u off t' = (Inr it, t')
       \<and> (\<exists>nv'. first_node t' v = Some nv' \<and> node_level nv' = node_level nv
            \<and> count_list (listed_neighbors nv' m l) u \<le> count_list (listed_neighbors nv m l) u
            \<and> (lev = l \<and> v \<noteq> InvalidBlockNumber \<and> hnswValidateLevelSafe l
                 \<and> hnswValidateLevelSafe (node_level nv)
                 \<and> (\<exists>j\<in>set is. neighbor_slot (snd it) (nat (lev * m * 2 + j)) = Some v)
                 \<longrightarrow> count_list (listed_neighbors nv' m l) u
                       \<le> count_list (listed_neighbors nv m l) u - 1))"
  using run d mm(1) noself fn
proof (induction "is" arbitrary: t nv)
  case Nil
  then show ?case by (simp add: returnE_def)
next
  case (Cons i rest)
  note d = Cons.prems(2) and mt = Cons.prems(3) and fn = Cons.prems(5)
  from get_neighbor_cases [of "snd it" lev m i t]
  obtain nb where g: "get_neighbor (snd it) lev m i t = (Inr nb, t)"
    and sl: "neighbor_slot (snd it) (nat (lev * m * 2 + i)) = Some nb"
  proof (elim disjE exE conjE)
    fix e assume "get_neighbor (snd it) lev m i t = (Inl e, t)"
    then have False using Cons.prems(1) d by (auto simp: bindE_def)
    then show thesis ..
  next
    fix b assume "get_neighbor (snd it) lev m i t = (Inr b, t)"
      and "neighbor_slot (snd it) (nat (lev * m * 2 + i)) = Some b"
    then show thesis by (rule that)
  qed
  have nbu: "nb \<noteq> u" using Cons.prems(4) sl by auto
  have ns: "\<forall>i\<in>set rest. neighbor_slot (snd it) (nat (lev * m * 2 + i)) \<noteq> Some u"
    using Cons.prems(4) by simp
  show ?case
  proof (cases "nb \<noteq> InvalidBlockNumber \<and> hnswValidateBlockNumber nb t")
    case False
    then have run2: "hnswbulkdelete_unlink_level u off lev m rest t = (Inr (), t')"
      using Cons.prems(1) d g by (auto simp: bindE_def)
    note IH = Cons.IH [OF run2 d mt ns fn]
    have "nb \<noteq> v \<or> v = InvalidBlockNumber"
      using False fn first_node_valid_block by blast
    then have "v \<noteq> InvalidBlockNumber
        \<and> (\<exists>j\<in>set (i # rest). neighbor_slot (snd it) (nat (lev * m * 2 + j)) = Some v)
      \<longrightarrow> (\<exists>j\<in>set rest. neighbor_slot (snd it) (nat (lev * m * 2 + j)) = Some v)"
      using sl by auto
    then show ?thesis using IH by auto
  next
    case True
    then have run1: "bindE (hnswRemoveNodeFromNeighbor nb u lev)
             (\<lambda>_. hnswbulkdelete_unlink_level u off lev m rest) t = (Inr (), t')"
      using Cons.prems(1) d g by (simp add: bindE_def)
    from bindE_Inr [OF run1] obtain x t1 where
      r: "hnswRemoveNodeFromNeighbor nb u lev t = (Inr x, t1)" and
      run2: "hnswbulkdelete_unlink_level u off lev m rest t1 = (Inr (), t')" by blast
    have r': "hnswRemoveNodeFromNeighbor nb u lev t = (Inr (), t1)" using r by simp
    have m1: "1 \<le> meta_m (metap t)" "meta_m (metap t) \<le> 16383" using mt mm by simp_all
    from hnswRemoveNodeFromNeighbor_effect [OF r' m1 u l fn] mt
    obtain nv1 where
      mp1: "metap t1 = metap t" and len1: "length (node_pages t1) = length (node_pages t)"
      and fr1: "\<forall>k. Suc k \<noteq> nb \<longrightarrow> node_pages t1 ! k = node_pages t ! k"
      and fn1: "first_node t1 v = Some nv1" and lv1: "node_level nv1 = node_level nv"
      and le1: "count_list (listed_neighbors nv1 m l) u \<le> count_list (listed_neighbors nv m l) u"
      and st1: "nb = v \<and> lev = l \<and> v \<noteq> InvalidBlockNumber \<and> hnswValidateLevelSafe l
                 \<and> hnswValidateLevelSafe (node_level nv)
                 \<longrightarrow> count_list (listed_neighbors nv1 m l) u
                       \<le> count_list (listed_neighbors nv m l) u - 1"
      by auto
    have u1: "1 \<le> u" using d by (rule deref_item_block)
    then have "Suc (u - 1) \<noteq> nb" using nbu by simp
    then have "node_pages t1 ! (u - 1) = node_pages t ! (u - 1)" using fr1 by blast
    then have d1: "deref_item u off t1 = (Inr it, t1)"
      using deref_item_frame [OF d len1] by simp
    have mt1: "meta_m (metap t1) = m" using mp1 mt by simp
    from Cons.IH [OF run2 d1 mt1 ns fn1] obtain nv' where
      mp': "metap t' = metap t1" and d': "deref_item u off t' = (Inr it, t')"
      and fn': "first_node t' v = Some nv'" and lv': "node_level nv' = node_level nv1"
      and le': "count_list (listed_neighbors nv' m l) u \<le> count_list (listed_neighbors nv1 m l) u"
      and st': "lev = l \<and> v \<noteq> InvalidBlockNumber \<and> hnswValidateLevelSafe l
                 \<and> hnswValidateLevelSafe (node_level nv1)
                 \<and> (\<exists>j\<in>set rest. neighbor_slot (snd it) (nat (lev * m * 2 + j)) = Some v)
                 \<longrightarrow> count_list (listed_neighbors nv' m l) u
                       \<le> count_list (listed_neighbors nv1 m l) u - 1"
      by auto
    have strict: "count_list (listed_neighbors nv' m l) u
                    \<le> count_list (listed_neighbors nv m l) u - 1"
      if h: "lev = l \<and> v \<noteq> InvalidBlockNumber \<and> hnswValidateLevelSafe l
                 \<and> hnswValidateLevelSafe (node_level nv)
                 \<and> (\<exists>j\<in>set (i # rest). neighbor_slot (snd it) (nat (lev * m * 2 + j)) = Some v)"
    proof (cases "nb = v")
      case True
      then have "count_list (listed_neighbors nv1 m l) u
                       \<le> count_list (listed_neighbors nv m l) u - 1" using st1 h by simp
      then show ?thesis using le' by linarith
    next
      case False
      then have "(\<exists>j\<in>set rest. neighbor_slot (snd it) (nat (lev * m * 2 + j)) = Some v)"
        using h sl by auto
      then have "count_list (listed_neighbors nv' m l) u
                       \<le> count_list (listed_neighbors nv1 m l) u - 1" using st' h lv1 by simp
      then show ?thesis using le1 by linarith
    qed
    show ?thesis using mp' mp1 d' fn' lv' lv1 le' le1 strict by auto
  qed
qed

lemma set_listed_neighbors:
  "y \<in> set (listed_neighbors n m lev) \<longleftrightarrow>
     (\<exists>i\<in>set [0 .. hnswValidateNeighborCount (neighborCount n (nat lev)) m lev - 1].
        neighbor_slot n (nat (lev * m * 2 + i)) = Some y)"
  by (simp add: listed_neighbors_def set_map_filter)

lemma hnswbulkdelete_unlink_effect:
  fixes t :: "('v, 'f) hnsw_state"
  assumes run: "hnswbulkdelete_unlink u off levels t = (Inr (), t')"
      and d: "deref_item u off t = (Inr it, t)"
      and mm: "meta_m (metap t) = m" "1 \<le> m" "m \<le> 16383"
      and u: "u \<noteq> InvalidBlockNumber"
      and noself: "\<forall>lev\<in>set levels. u \<notin> set (listed_neighbors (snd it) m lev)"
      and l: "0 \<le> l"
      and fn: "first_node t v = Some nv"
  shows "metap t' = metap t \<and> deref_item u off t' = (Inr it, t')
       \<and> (\<exists>nv'. first_node t' v = Some nv' \<and> node_level nv' = node_level nv
            \<and> count_list (listed_neighbors nv' m l) u \<le> count_list (listed_neighbors nv m l) u
            \<and> (l \<in> set levels \<and> v \<noteq> InvalidBlockNumber \<and> hnswValidateLevelSafe l
                 \<and> hnswValidateLevelSafe (node_level nv)
                 \<and> v \<in> set (listed_neighbors (snd it) m l)
                 \<longrightarrow> count_list (listed_neighbors nv' m l) u
                       \<le> count_list (listed_neighbors nv m l) u - 1))"
  using run d mm(1) noself fn
proof (induction levels arbitrary: t nv)
  case Nil
  then show ?case by (simp add: returnE_def)
next
  case (Cons lev levels)
  note d = Cons.prems(2) and mt = Cons.prems(3) and fn = Cons.prems(5)
  let ?is = "[0 .. hnswValidateNeighborCount (neighborCount (snd it) (nat lev)) m lev - 1]"
  have ns: "\<forall>lev\<in>set levels. u \<notin> set (listed_neighbors (snd it) m lev)"
    using Cons.prems(4) by simp
  have ns1: "\<forall>i\<in>set ?is. neighbor_slot (snd it) (nat (lev * m * 2 + i)) \<noteq> Some u"
    using Cons.prems(4) by (auto simp: set_listed_neighbors)
  have run1: "bindE (hnswbulkdelete_unlink_level u off lev m ?is)
        (\<lambda>_. hnswbulkdelete_unlink u off levels) t = (Inr (), t')"
    using Cons.prems(1) d mt by (simp add: bindE_def getE_def)
  from bindE_Inr [OF run1] obtain x t1 where
    r: "hnswbulkdelete_unlink_level u off lev m ?is t = (Inr x, t1)" and
    run2: "hnswbulkdelete_unlink u off levels t1 = (Inr (), t')" by blast
  have r': "hnswbulkdelete_unlink_level u off lev m ?is t = (Inr (), t1)" using r by simp
  from hnswbulkdelete_unlink_level_effect [OF r' d mt mm(2,3) u ns1 l fn]
  obtain nv1 where
    mp1: "metap t1 = metap t" and d1: "deref_item u off t1 = (Inr it, t1)"
    and fn1: "first_node t1 v = Some nv1" and lv1: "node_level nv1 = node_level nv"
    and le1: "count_list (listed_neighbors nv1 m l) u \<le> count_list (listed_neighbors nv m l) u"
    and st1: "lev = l \<and> v \<noteq> InvalidBlockNumber \<and> hnswValidateLevelSafe l
                 \<and> hnswValidateLevelSafe (node_level nv)
                 \<and> (\<exists>j\<in>set ?is. neighbor_slot (snd it) (nat (lev * m * 2 + j)) = Some v)
                 \<longrightarrow> count_list (listed_neighbors nv1 m l) u
                       \<le> count_list (listed_neighbors nv m l) u - 1"
    by auto
  have mt1: "meta_m (metap t1) = m" using mp1 mt by simp
  from Cons.IH [OF run2 d1 mt1 ns fn1] obtain nv' where
    mp': "metap t' = metap t1" and d': "deref_item u off t' = (Inr it, t')"
    and fn': "first_node t' v = Some nv'" and lv': "node_level nv' = node_level nv1"
    and le': "count_list (listed_neighbors nv' m l) u \<le> count_list (listed_neighbors nv1 m l) u"
    and st': "l \<in> set levels \<and> v \<noteq> InvalidBlockNumber \<and> hnswValidateLevelSafe l
                 \<and> hnswValidateLevelSafe (node_level nv1)
                 \<and> v \<in> set (listed_neighbors (snd it) m l)
                 \<longrightarrow> count_list (listed_neighbors nv' m l) u
                       \<le> count_list (listed_neighbors nv1 m l) u - 1"
    by auto
  have strict: "count_list (listed_neighbors nv' m l) u
                    \<le> count_list (listed_neighbors nv m l) u - 1"
    if h: "l \<in> set (lev # levels) \<and> v \<noteq> InvalidBlockNumber \<and> hnswValidateLevelSafe l
                 \<and> hnswValidateLevelSafe (node_level nv)
                 \<and> v \<in> set (listed_neighbors (snd it) m l)"
  proof (cases "lev = l")
    case True
    then have "count_list (listed_neighbors nv1 m l) u
                       \<le> count_list (listed_neighbors nv m l) u - 1"
      using st1 h by (simp add: set_listed_neighbors)
    then show ?thesis using le' by linarith
  next
    case False
    then have "l \<in> set levels" using h by auto
    then have "count_list (listed_neighbors nv' m l) u
                       \<le> count_list (listed_neighbors nv1 m l) u - 1" using st' h lv1 by simp
    then show ?thesis using le1 by linarith
  qed
  show ?case using mp' mp1 d' fn' lv' lv1 le' le1 strict by auto
qed

lemma first_node_cong:
  "node_pages t' = node_pages t \<Longrightarrow> first_node t' = first_node t"
  by (auto simp: first_node_def page_of_def RelationGetNumberOfBlocks_def fun_eq_iff)

text \<open>The replacement of the entry point writes the meta page only.\<close>

lemma pages_kept_log_stable: "log_stable (\<lambda>s. node_pages s = N)"
  by (simp add: log_stable_def)

lemma preserves_hnswbulkdelete_entry_level:
  "log_stable P \<Longrightarrow> preserves P (hnswbulkdelete_entry_level b off lev m is)"
  by (induction "is") (auto intro!: pres)

lemma preserves_hnswbulkdelete_entry:
  "log_stable P \<Longrightarrow> preserves P (hnswbulkdelete_entry b off levels)"
  by (induction levels) (auto intro!: pres preserves_hnswbulkdelete_entry_level)

lemma hnswbulkdelete_replace_entry_frame:
  "node_pages (snd (hnswbulkdelete_replace_entry b off s)) = node_pages s"
proof (cases "entryPoint (metap s) = b")
  case False
  then show ?thesis by (simp add: hnswbulkdelete_replace_entry_def returnE_def)
next
  case True
  let ?P = "\<lambda>t :: ('a, 'b) hnsw_state. node_pages t = node_pages s"
  have "preserves ?P (bindE (deref_item b off) (\<lambda>it.
       bindE (hnswbulkdelete_entry b off (rev [0 .. node_level (snd it)])) (\<lambda>r.
         case r of
           Some e \<Rightarrow>
             modifyE (\<lambda>s. s\<lparr>metap := (metap s)\<lparr>entryPoint := fst e, entryLevel := snd e\<rparr>\<rparr>)
         | None \<Rightarrow>
             modifyE (\<lambda>s. s\<lparr>metap := (metap s)\<lparr>entryPoint := InvalidBlockNumber,
                                              entryLevel := - 1\<rparr>\<rparr>))))"
    by (intro pres preserves_hnswbulkdelete_entry pages_kept_log_stable)
       (auto simp: preserves_def modifyE_def)
  from preservesD [OF this, of s] True show ?thesis
    by (simp add: hnswbulkdelete_replace_entry_def)
qed

text \<open>Marking an item dead changes the page of the item only.\<close>

lemma first_node_ItemIdSetDead:
  "v \<noteq> b \<Longrightarrow> first_node (ItemIdSetDead h b off s) v = first_node s v"
proof -
  assume vb: "v \<noteq> b"
  show ?thesis
  proof (cases "1 \<le> b \<and> b < RelationGetNumberOfBlocks s")
    case False
    then show ?thesis by (auto simp: ItemIdSetDead_def)
  next
    case True
    show ?thesis
    proof (cases "node_pages s ! (b - 1)")
      case PageNew
      then show ?thesis using True by (simp add: ItemIdSetDead_def)
    next
      case (PageItems its)
      show ?thesis
      proof (cases "1 \<le> off \<and> off \<le> length its")
        case False
        then show ?thesis using True PageItems by (auto simp: ItemIdSetDead_def)
      next
        case o: True
        let ?its = "its[off - 1 := (LP_DEAD, h (PageItems its))]"
        have w: "ItemIdSetDead h b off s
                   = s\<lparr>node_pages := (node_pages s)[b - 1 := PageItems ?its]\<rparr>"
          using True PageItems o by (simp add: ItemIdSetDead_def)
        have "v - 1 \<noteq> b - 1 \<or> v = 0" using True vb by linarith
        then show ?thesis using vb
          by (auto simp: w first_node_def page_of_def RelationGetNumberOfBlocks_def)
      qed
    qed
  qed
qed

text \<open>
  C2, as the code has it. The deletion of the node \<open>u\<close> (the body of \<open>hnswbulkdelete\<close> for
  one item) visits the nodes that \<open>u\<close> itself lists and removes the first occurrence of
  \<open>u\<close> from the list of the same level of each. So a node \<open>v\<close> that \<open>u\<close> lists at level
  \<open>l\<close>, and that lists \<open>u\<close> at most once at that level, does not list \<open>u\<close> at level
  \<open>l\<close> afterwards. Here \<open>u\<close> lists no link to itself, \<open>v\<close> is a block of the relation
  whose first node has a valid level, and \<open>m\<close> is such that \<open>2 * m\<close> is an \<open>int16\<close>.
\<close>

theorem hnswbulkdelete_node_unlinks:
  fixes s :: "('v, 'f) hnsw_state"
  assumes run: "hnswbulkdelete_node page_header u offnum s = (Inr (), s')"
      and d: "deref_item u offnum s = (Inr it, s)"
      and m: "1 \<le> meta_m (metap s)" "meta_m (metap s) \<le> 16383"
      and u: "u \<noteq> InvalidBlockNumber"
      and noself: "\<forall>lev\<in>set [0 .. node_level (snd it)].
                     u \<notin> set (listed_neighbors (snd it) (meta_m (metap s)) lev)"
      and lv: "hnswValidateLevelSafe (node_level (snd it))"
      and l: "0 \<le> l" "l \<le> node_level (snd it)"
      and v: "v \<in> set (listed_neighbors (snd it) (meta_m (metap s)) l)"
             "v \<noteq> InvalidBlockNumber"
      and nv: "first_node s v = Some nv" "hnswValidateLevelSafe (node_level nv)"
      and once: "count_list (listed_neighbors nv (meta_m (metap s)) l) u \<le> 1"
  shows "\<exists>nv'. first_node s' v = Some nv'
           \<and> u \<notin> set (listed_neighbors nv' (meta_m (metap s)) l)"
proof -
  let ?m = "meta_m (metap s)"
  let ?fin = "\<lambda>s :: ('v, 'f) hnsw_state.
        let n = insertedVectors (metap s) - 1
        in s\<lparr>metap := (metap s)\<lparr>insertedVectors := (if n < 0 then 0 else n)\<rparr>\<rparr>"
  have run0: "bindE (deref_item u offnum) (\<lambda>it.
    bindE (hnswbulkdelete_unlink u offnum [0 .. node_level (snd it)]) (\<lambda>_.
    bindE (hnswbulkdelete_replace_entry u offnum) (\<lambda>_.
    bindE (modifyE (ItemIdSetDead page_header u offnum)) (\<lambda>_. modifyE ?fin)))) s = (Inr (), s')"
    using run by (simp add: hnswbulkdelete_node_def)
  then have run1: "bindE (hnswbulkdelete_unlink u offnum [0 .. node_level (snd it)]) (\<lambda>_.
    bindE (hnswbulkdelete_replace_entry u offnum) (\<lambda>_.
    bindE (modifyE (ItemIdSetDead page_header u offnum)) (\<lambda>_. modifyE ?fin))) s = (Inr (), s')"
    using d by (simp add: bindE_def)
  from bindE_Inr [OF run1] obtain x1 s1 where
    un: "hnswbulkdelete_unlink u offnum [0 .. node_level (snd it)] s = (Inr x1, s1)" and
    run2: "bindE (hnswbulkdelete_replace_entry u offnum) (\<lambda>_.
             bindE (modifyE (ItemIdSetDead page_header u offnum)) (\<lambda>_. modifyE ?fin)) s1 = (Inr (), s')"
    by blast
  from bindE_Inr [OF run2] obtain x2 s2 where
    re: "hnswbulkdelete_replace_entry u offnum s1 = (Inr x2, s2)" and
    run3: "bindE (modifyE (ItemIdSetDead page_header u offnum)) (\<lambda>_. modifyE ?fin) s2 = (Inr (), s')"
    by blast
  have un': "hnswbulkdelete_unlink u offnum [0 .. node_level (snd it)] s = (Inr (), s1)"
    using un by simp
  have re': "hnswbulkdelete_replace_entry u offnum s1 = (Inr (), s2)" using re by simp
  have lin: "l \<in> set [0 .. node_level (snd it)]" using l by simp
  have vl: "hnswValidateLevelSafe l"
    using lv l by (simp add: hnswValidateLevelSafe_def)
  from hnswbulkdelete_unlink_effect [OF un' d refl m u noself l(1) nv(1)] lin vl v nv(2)
  obtain nv1 where fn1: "first_node s1 v = Some nv1"
    and c1: "count_list (listed_neighbors nv1 ?m l) u
               \<le> count_list (listed_neighbors nv ?m l) u - 1"
    by auto
  have "count_list (listed_neighbors nv1 ?m l) u = 0" using c1 once by linarith
  then have notin: "u \<notin> set (listed_neighbors nv1 ?m l)" by (rule count_list_0_notin)
  have "node_pages s2 = node_pages s1"
    using hnswbulkdelete_replace_entry_frame [of u offnum s1] re' by simp
  then have fn2: "first_node s2 = first_node s1" by (rule first_node_cong)
  have s': "s' = ?fin (ItemIdSetDead page_header u offnum s2)"
    using run3 by (simp add: bindE_def modifyE_def)
  have "first_node s' = first_node (ItemIdSetDead page_header u offnum s2)"
    unfolding s' by (rule first_node_cong) (simp add: Let_def)
  moreover have "v \<noteq> u" using v(1) noself l by auto
  ultimately have "first_node s' v = Some nv1"
    using fn1 fn2 by (simp add: first_node_ItemIdSetDead)
  then show ?thesis using notin by blast
qed

lemmas chain_defs = ex_chain_def ex_level0_def ex_page_def

lemma ex_chain6_deref:
  "deref_item 1 1 (ex_chain 6) = (Inr (LP_NORMAL, ex_node (1, 1) 0 [0, 0, 0] ((\<lambda>_. 0)(0 := 4)) [2, 3, 4, 5]), ex_chain 6)"
  by (simp add: chain_defs step_defs)

lemma ex_chain6_node: "fst (hnswbulkdelete_node ex_page_header 1 1 (ex_chain 6)) = Inr ()"
  by (simp add: ex_defs chain_defs step_defs delete_defs eval_defs)

theorem hnswbulkdelete_node_unlinks_witness:
  "\<exists>nv'. first_node (snd (hnswbulkdelete_node ex_page_header 1 1 (ex_chain 6))) 2 = Some nv'
          \<and> 1 \<notin> set (listed_neighbors nv' (meta_m (metap (ex_chain 6))) 0)"
proof -
  have r: "hnswbulkdelete_node ex_page_header 1 1 (ex_chain 6)
             = (Inr (), snd (hnswbulkdelete_node ex_page_header 1 1 (ex_chain 6)))"
    using ex_chain6_node by (simp add: prod_eq_iff)
  have h: "1 \<le> meta_m (metap (ex_chain 6))" "meta_m (metap (ex_chain 6)) \<le> 16383"
     "(1 :: nat) \<noteq> InvalidBlockNumber"
     "(2 :: nat) \<noteq> InvalidBlockNumber"
     "first_node (ex_chain 6) 2 = Some (ex_node (1, 2) 0 [1, 0, 0] ((\<lambda>_. 0)(0 := 4)) [1, 3, 4, 6])"
    by (simp_all add: ex_defs chain_defs graph_defs step_defs eval_defs)
  show ?thesis
    by (rule hnswbulkdelete_node_unlinks [OF r ex_chain6_deref h(1,2,3) _ _ _ _ _ h(4,5)])
       (simp_all add: ex_defs chain_defs graph_defs step_defs eval_defs)
qed


text \<open>
  The states \<open>ex_chain k\<close> are the ones the insertions produce, step by step and up to
  the logs.
\<close>

lemma insert_result:
  fixes c :: "('v, 'f) hnsw_state"
  assumes "case r of (x, s') \<Rightarrow> x = Inr () \<and> metap s' = metap c \<and> node_pages s' = node_pages c
              \<and> prng s' = prng c"
  shows "\<exists>a b. r = (Inr (), c\<lparr>rd_log := a, dist_log := b\<rparr>)"
proof -
  obtain x s' where r: "r = (x, s')" by (cases r)
  define a where "a = rd_log s'"
  define b where "b = dist_log s'"
  have "s' = c\<lparr>rd_log := a, dist_log := b\<rparr>"
    using assms r by (intro hnsw_state.equality) (simp_all add: a_def b_def)
  moreover have "x = Inr ()" using assms r by simp
  ultimately have "r = (Inr (), c\<lparr>rd_log := a, dist_log := b\<rparr>)" using r by simp
  then show ?thesis by blast
qed

lemma ex_chain_step1:
  "\<exists>a' b'. hnswInsertNode 5 ex_float_ops [0, 0, 0] 3 (1, 1) ((ex_chain 0)\<lparr>rd_log := a, dist_log := b\<rparr>)
     = (Inr (), (ex_chain 1)\<lparr>rd_log := a', dist_log := b'\<rparr>)"
  by (rule insert_result)
     (simp add: ex_defs chain_defs step_defs search_defs insert_defs eval_defs replicate_4)

lemma ex_chain_step2:
  "\<exists>a' b'. hnswInsertNode 5 ex_float_ops [1, 0, 0] 3 (1, 2) ((ex_chain 1)\<lparr>rd_log := a, dist_log := b\<rparr>)
     = (Inr (), (ex_chain 2)\<lparr>rd_log := a', dist_log := b'\<rparr>)"
  by (rule insert_result)
     (simp add: ex_defs chain_defs step_defs search_defs insert_defs eval_defs replicate_4)

lemma ex_chain_step3:
  "\<exists>a' b'. hnswInsertNode 5 ex_float_ops [0, 1, 0] 3 (1, 3) ((ex_chain 2)\<lparr>rd_log := a, dist_log := b\<rparr>)
     = (Inr (), (ex_chain 3)\<lparr>rd_log := a', dist_log := b'\<rparr>)"
  by (rule insert_result)
     (simp add: ex_defs chain_defs step_defs search_defs insert_defs eval_defs replicate_4)

lemma ex_chain_step4:
  "\<exists>a' b'. hnswInsertNode 5 ex_float_ops [0, 0, 1] 3 (1, 4) ((ex_chain 3)\<lparr>rd_log := a, dist_log := b\<rparr>)
     = (Inr (), (ex_chain 4)\<lparr>rd_log := a', dist_log := b'\<rparr>)"
  by (rule insert_result)
     (simp add: ex_defs chain_defs step_defs search_defs insert_defs eval_defs replicate_4)

lemma ex_chain_step5:
  "\<exists>a' b'. hnswInsertNode 5 ex_float_ops [- 1, 0, 0] 3 (1, 5) ((ex_chain 4)\<lparr>rd_log := a, dist_log := b\<rparr>)
     = (Inr (), (ex_chain 5)\<lparr>rd_log := a', dist_log := b'\<rparr>)"
  by (rule insert_result)
     (simp add: ex_defs chain_defs step_defs search_defs insert_defs eval_defs replicate_4)

lemma ex_chain_step6:
  "\<exists>a' b'. hnswInsertNode 5 ex_float_ops [0, - 1, 0] 3 (1, 6) ((ex_chain 5)\<lparr>rd_log := a, dist_log := b\<rparr>)
     = (Inr (), (ex_chain 6)\<lparr>rd_log := a', dist_log := b'\<rparr>)"
  by (rule insert_result)
     (simp add: ex_defs chain_defs step_defs search_defs insert_defs eval_defs replicate_4)

lemma ex_insert_all_state:
  "\<exists>a b. ex_insert_all
            [([0, 0, 0], (1, 1)), ([1, 0, 0], (1, 2)), ([0, 1, 0], (1, 3)), ([0, 0, 1], (1, 4)),
             ([- 1, 0, 0], (1, 5)), ([0, - 1, 0], (1, 6))] (ex_chain 0)
          = (Inr (), (ex_chain 6)\<lparr>rd_log := a, dist_log := b\<rparr>)"
proof -
  have init: "ex_chain 0 = (ex_chain 0)\<lparr>rd_log := [], dist_log := []\<rparr>"
    by (simp add: ex_chain_def ex_state0_def)
  from ex_chain_step1 [where a = "[]" and b = "[]"] obtain a1 b1 where
    s1: "hnswInsertNode 5 ex_float_ops [0, 0, 0] 3 (1, 1) (ex_chain 0)
           = (Inr (), (ex_chain 1)\<lparr>rd_log := a1, dist_log := b1\<rparr>)"
    using init by auto
  from ex_chain_step2 [where a = a1 and b = b1] obtain a2 b2 where
    s2: "hnswInsertNode 5 ex_float_ops [1, 0, 0] 3 (1, 2) ((ex_chain 1)\<lparr>rd_log := a1, dist_log := b1\<rparr>)
           = (Inr (), (ex_chain 2)\<lparr>rd_log := a2, dist_log := b2\<rparr>)"
    by blast
  from ex_chain_step3 [where a = a2 and b = b2] obtain a3 b3 where
    s3: "hnswInsertNode 5 ex_float_ops [0, 1, 0] 3 (1, 3) ((ex_chain 2)\<lparr>rd_log := a2, dist_log := b2\<rparr>)
           = (Inr (), (ex_chain 3)\<lparr>rd_log := a3, dist_log := b3\<rparr>)"
    by blast
  from ex_chain_step4 [where a = a3 and b = b3] obtain a4 b4 where
    s4: "hnswInsertNode 5 ex_float_ops [0, 0, 1] 3 (1, 4) ((ex_chain 3)\<lparr>rd_log := a3, dist_log := b3\<rparr>)
           = (Inr (), (ex_chain 4)\<lparr>rd_log := a4, dist_log := b4\<rparr>)"
    by blast
  from ex_chain_step5 [where a = a4 and b = b4] obtain a5 b5 where
    s5: "hnswInsertNode 5 ex_float_ops [- 1, 0, 0] 3 (1, 5) ((ex_chain 4)\<lparr>rd_log := a4, dist_log := b4\<rparr>)
           = (Inr (), (ex_chain 5)\<lparr>rd_log := a5, dist_log := b5\<rparr>)"
    by blast
  from ex_chain_step6 [where a = a5 and b = b5] obtain a6 b6 where
    s6: "hnswInsertNode 5 ex_float_ops [0, - 1, 0] 3 (1, 6) ((ex_chain 5)\<lparr>rd_log := a5, dist_log := b5\<rparr>)
           = (Inr (), (ex_chain 6)\<lparr>rd_log := a6, dist_log := b6\<rparr>)"
    by blast
  have "ex_insert_all
            [([0, 0, 0], (1, 1)), ([1, 0, 0], (1, 2)), ([0, 1, 0], (1, 3)), ([0, 0, 1], (1, 4)),
             ([- 1, 0, 0], (1, 5)), ([0, - 1, 0], (1, 6))] (ex_chain 0)
          = (Inr (), (ex_chain 6)\<lparr>rd_log := a6, dist_log := b6\<rparr>)"
    using s1 s2 s3 s4 s5 s6 by (simp add: bindE_def returnE_def)
  then show ?thesis by blast
qed


text \<open>
  C2, as the specification has it, fails on \<open>ex_chain 6\<close>: block 6 lists block 1, block 1
  does not list block 6. After the bulk deletion of the node of block 1 (heap pointer
  \<open>(1, 1)\<close>), which is marked dead, the node of block 6 is live and still lists block 1 at
  level 0.
\<close>

theorem hnswbulkdelete_links_counterexample:
  "heapPtr (the (first_node (ex_chain 6) 1)) = (1, 1)
   \<and> fst (hnswbulkdelete ex_page_header (\<lambda>tid. tid = (1, 1)) 0 (ex_chain 6)) = Inr 1
   \<and> fst (deref_item 1 1 (snd (hnswbulkdelete ex_page_header (\<lambda>tid. tid = (1, 1)) 0 (ex_chain 6))))
       = Inr (LP_DEAD, ex_page_header (page_of (ex_chain 6) 1))
   \<and> fst (deref_item 6 1 (snd (hnswbulkdelete ex_page_header (\<lambda>tid. tid = (1, 1)) 0 (ex_chain 6))))
       = Inr (LP_NORMAL, ex_node (1, 6) 0 [0, - 1, 0] ((\<lambda>_. 0)(0 := 2))
                [1, 2, 4294967295, 4294967295])
   \<and> 1 \<in> set (listed_neighbors
                 (ex_node (1, 6) 0 [0, - 1, 0] ((\<lambda>_. 0)(0 := 2)) [1, 2, 4294967295, 4294967295])
                 (meta_m (metap (ex_chain 6))) 0)"
proof -
  have a: "heapPtr (the (first_node (ex_chain 6) 1)) = (1, 1)"
    by (simp add: ex_defs chain_defs graph_defs step_defs eval_defs)
  have b: "fst (hnswbulkdelete ex_page_header (\<lambda>tid. tid = (1, 1)) 0 (ex_chain 6)) = Inr 1"
    by (simp add: ex_defs chain_defs step_defs delete_defs eval_defs)
  have c: "fst (deref_item 1 1 (snd (hnswbulkdelete ex_page_header (\<lambda>tid. tid = (1, 1)) 0 (ex_chain 6))))
       = Inr (LP_DEAD, ex_page_header (page_of (ex_chain 6) 1))"
    by (simp add: ex_defs chain_defs step_defs delete_defs eval_defs ex_page_header_def)
  have d: "fst (deref_item 6 1 (snd (hnswbulkdelete ex_page_header (\<lambda>tid. tid = (1, 1)) 0 (ex_chain 6))))
       = Inr (LP_NORMAL, ex_node (1, 6) 0 [0, - 1, 0] ((\<lambda>_. 0)(0 := 2))
                [1, 2, 4294967295, 4294967295])"
    by (simp add: ex_defs chain_defs step_defs delete_defs eval_defs)
  have e: "1 \<in> set (listed_neighbors
                 (ex_node (1, 6) 0 [0, - 1, 0] ((\<lambda>_. 0)(0 := 2)) [1, 2, 4294967295, 4294967295])
                 (meta_m (metap (ex_chain 6))) 0)"
    by (simp add: ex_defs chain_defs graph_defs step_defs eval_defs)
  show ?thesis using a b c d e by simp
qed

end
